theory Spec2Isabelle
  imports Main
begin

section \<open>Data model of \<^verbatim>\<open>websocket_manager.py\<close>\<close>

text \<open>
  The enumeration \<^verbatim>\<open>SubscriptionType\<close>, with the string value of each member.
\<close>

datatype SubscriptionType =
    PRICE_UPDATES
  | PORTFOLIO_UPDATES
  | NEWS_UPDATES
  | ALERTS
  | TECHNICAL_INDICATORS

fun SubscriptionType_value :: "SubscriptionType \<Rightarrow> string" where
  "SubscriptionType_value PRICE_UPDATES = ''price_updates''"
| "SubscriptionType_value PORTFOLIO_UPDATES = ''portfolio_updates''"
| "SubscriptionType_value NEWS_UPDATES = ''news_updates''"
| "SubscriptionType_value ALERTS = ''alerts''"
| "SubscriptionType_value TECHNICAL_INDICATORS = ''technical_indicators''"

text \<open>Exceptions that the modelled code raises or catches.\<close>

datatype exn = ValueError | TypeError | WebSocketDisconnect | JSONDecodeError | ClientError

text \<open>
  \<^verbatim>\<open>SubscriptionType(v)\<close>: the lookup of a member by its value. The argument is
  \<^verbatim>\<open>message.get("subscription_type")\<close>, which is \<^verbatim>\<open>None\<close> when the key is
  missing; any value that is not one of the five strings raises \<^verbatim>\<open>ValueError\<close>.
\<close>

definition SubscriptionType_lookup :: "string option \<Rightarrow> exn + SubscriptionType" where
  "SubscriptionType_lookup v =
     (if v = Some ''price_updates'' then Inr PRICE_UPDATES
      else if v = Some ''portfolio_updates'' then Inr PORTFOLIO_UPDATES
      else if v = Some ''news_updates'' then Inr NEWS_UPDATES
      else if v = Some ''alerts'' then Inr ALERTS
      else if v = Some ''technical_indicators'' then Inr TECHNICAL_INDICATORS
      else Inl ValueError)"

text \<open>
  Clock readings (\<^verbatim>\<open>datetime.now()\<close>) are passed in as arguments. The numbers of a
  price payload are moved by the manager and never computed with, so they are integers here.
\<close>

type_synonym timestamp = nat
type_synonym number = int

text \<open>The dictionary that \<^verbatim>\<open>_fetch_price_data\<close> returns on success.\<close>

record price_data =
  price :: number
  price_change_24h :: number
  volume_24h :: number
  market_cap :: number

text \<open>
  A news article as the news loop reads it. The loop looks at \<^verbatim>\<open>published_at\<close> only,
  and only through \<^verbatim>\<open>datetime.fromisoformat(s.replace('Z', '+00:00'))\<close>: the field is
  what that expression makes of the string, a time without zone, a time with zone, or an error
  for a string that is not in ISO format. The other keys of the dictionary are carried along
  unread; title and url stand for them.
\<close>

datatype published = Naive timestamp | Aware timestamp | NotIsoformat

record article =
  title :: string
  url :: string
  published_at :: published

text \<open>
  The \<^verbatim>\<open>"indicators"\<close> dictionary of a technical indicators update: the last value of
  the RSI (a list of at most one number), the trading signals (by their reasons) and the trend.
  They come out of floating-point arithmetic outside the manager and are moved as they are.
\<close>

record indicators =
  rsi :: "number list"
  signals :: "string list"
  trend :: string

text \<open>
  The messages (dictionaries with a \<^verbatim>\<open>"type"\<close> field) that the manager and the
  endpoint send.  \<^verbatim>\<open>Payload\<close> stands for any other dictionary handed to
  \<^verbatim>\<open>broadcast_to_subscribers\<close> by a caller.
\<close>

datatype message =
    ConnectionEstablished string timestamp "string list"
  | SubscriptionConfirmed string "string set option" timestamp
  | UnsubscriptionConfirmed string timestamp
  | PriceUpdate string price_data timestamp
  | Pong timestamp
  | CurrentPrices "string \<rightharpoonup> price_data" timestamp
  | NewsUpdate "article list" nat timestamp
  | TechnicalIndicatorsUpdate string indicators timestamp
  | Payload string

text \<open>
  The transport of one connection (the framework's \<^verbatim>\<open>WebSocket\<close> object). Its code
  is outside the repository, so its state is a parameter of the model: whether the transport
  is still open, and the texts sent on it so far. \<^verbatim>\<open>send_text\<close> raises on a closed
  transport.
\<close>

record websocket =
  ws_open :: bool
  ws_sent :: "message list"

definition send_text :: "websocket \<Rightarrow> message \<Rightarrow> exn + websocket" where
  "send_text ws msg =
     (if ws_open ws then Inr (ws\<lparr>ws_sent := ws_sent ws @ [msg]\<rparr>) else Inl WebSocketDisconnect)"

record ClientSubscription =
  client_id :: string
  websocket :: websocket
  subscriptions :: "SubscriptionType set"
  watched_coins :: "string set"
  user_id :: "string option"

text \<open>
  A background task made by \<^verbatim>\<open>asyncio.create_task\<close>: the coroutine it runs and
  whether \<^verbatim>\<open>cancel()\<close> has been called on it.
\<close>

datatype poller = PriceLoop string | NewsLoop | IndicatorsLoop string

record task =
  coro :: poller
  cancelled :: bool

datatype log_entry = LogError string | Printed string

text \<open>
  The manager. \<^verbatim>\<open>ClientSubscription\<close> objects are mutable and shared between the list
  \<^verbatim>\<open>active_connections\<close> and the endpoint that holds the reference, so they live in a
  store (\<open>clients\<close>, indexed by handle) and \<^verbatim>\<open>active_connections\<close> is a list of
  handles. Likewise \<open>tasks\<close> is the table of every task created so far and
  \<^verbatim>\<open>update_tasks\<close> maps a task key to a handle into it; it is an association list in
  insertion order, as a Python dictionary is. Two client objects compare equal only when they
  hold the same \<^verbatim>\<open>WebSocket\<close> object, and every connection has its own, so equality of
  clients is equality of handles.
\<close>

record manager =
  clients :: "ClientSubscription list"
  active_connections :: "nat list"
  price_cache :: "string \<rightharpoonup> price_data"
  last_update :: "string \<rightharpoonup> timestamp"
  update_tasks :: "(string \<times> nat) list"
  tasks :: "task list"
  log :: "log_entry list"

definition WebSocketManager_init :: manager where
  "WebSocketManager_init =
     \<lparr>clients = [], active_connections = [], price_cache = Map.empty, last_update = Map.empty,
      update_tasks = [], tasks = [], log = []\<rparr>"

section \<open>Operations of \<^verbatim>\<open>WebSocketManager\<close>\<close>

text \<open>A field update of the client object behind a handle.\<close>

definition update_client ::
  "nat \<Rightarrow> (ClientSubscription \<Rightarrow> ClientSubscription) \<Rightarrow> manager \<Rightarrow> manager" where
  "update_client h f m = m\<lparr>clients := (clients m)[h := f (clients m ! h)]\<rparr>"

text \<open>
  \<^verbatim>\<open>send_personal_message\<close>: the send is inside \<^verbatim>\<open>try\<close>, and
  \<^verbatim>\<open>except Exception\<close> logs the error and returns normally.
\<close>

definition send_personal_message :: "message \<Rightarrow> nat \<Rightarrow> manager \<Rightarrow> manager" where
  "send_personal_message msg h m =
     (case send_text (websocket (clients m ! h)) msg of
        Inr ws' \<Rightarrow> update_client h (\<lambda>c. c\<lparr>websocket := ws'\<rparr>) m
      | Inl e \<Rightarrow> m\<lparr>log := log m @ [LogError ''Error sending message'']\<rparr>)"

text \<open>
  The generator expressions under \<^verbatim>\<open>any(...)\<close> in the update loops and in
  \<^verbatim>\<open>_cleanup_unused_tasks\<close>: a client counts for a feed type and a coin when the type
  is in its \<^verbatim>\<open>subscriptions\<close> and the coin in its \<^verbatim>\<open>watched_coins\<close>; for
  news the type alone decides.
\<close>

definition client_subscribed :: "ClientSubscription \<Rightarrow> SubscriptionType \<Rightarrow> string \<Rightarrow> bool" where
  "client_subscribed client t coin = (t \<in> subscriptions client \<and> coin \<in> watched_coins client)"

definition has_subscribers :: "manager \<Rightarrow> SubscriptionType \<Rightarrow> string \<Rightarrow> bool" where
  "has_subscribers m t coin =
     list_ex (\<lambda>h. client_subscribed (clients m ! h) t coin) (active_connections m)"

definition has_news_subscribers :: "manager \<Rightarrow> bool" where
  "has_news_subscribers m =
     list_ex (\<lambda>h. NEWS_UPDATES \<in> subscriptions (clients m ! h)) (active_connections m)"

subsection \<open>Strings\<close>

definition startswith :: "string \<Rightarrow> string \<Rightarrow> bool" where
  "startswith s p = (take (length p) s = p)"

text \<open>
  \<^verbatim>\<open>s.replace(old, new)\<close>: every non-overlapping occurrence of \<open>old\<close>, found from the
  left, is replaced.
\<close>

function py_replace :: "string \<Rightarrow> string \<Rightarrow> string \<Rightarrow> string" where
  "py_replace old new s =
     (if old = [] then new @ concat (map (\<lambda>c. c # new) s)
      else if s = [] then []
      else if take (length old) s = old then new @ py_replace old new (drop (length old) s)
      else hd s # py_replace old new (tl s))"
  by pat_completeness auto
termination
  by (relation "measure (\<lambda>(old, new, s). length s)") auto

declare py_replace.simps [simp del]

subsection \<open>Task lifecycle\<close>

text \<open>The key under which \<^verbatim>\<open>_start_update_tasks\<close> stores each kind of loop.\<close>

fun task_key_of :: "poller \<Rightarrow> string" where
  "task_key_of (PriceLoop coin) = ''price_'' @ coin"
| "task_key_of NewsLoop = ''news_updates''"
| "task_key_of (IndicatorsLoop coin) = ''indicators_'' @ coin"

text \<open>
  \<^verbatim>\<open>if task_key not in self.update_tasks: self.update_tasks[task_key] = asyncio.create_task(...)\<close>
\<close>

definition start_task :: "poller \<Rightarrow> manager \<Rightarrow> manager" where
  "start_task p m =
     (if task_key_of p \<in> fst ` set (update_tasks m) then m
      else m\<lparr>update_tasks := update_tasks m @ [(task_key_of p, length (tasks m))],
              tasks := tasks m @ [\<lparr>coro = p, cancelled = False\<rparr>]\<rparr>)"

definition start_update_tasks :: "SubscriptionType \<Rightarrow> string list \<Rightarrow> manager \<Rightarrow> manager" where
  "start_update_tasks subscription_type coins m =
     (if subscription_type = PRICE_UPDATES then fold (\<lambda>coin. start_task (PriceLoop coin)) coins m
      else if subscription_type = NEWS_UPDATES then start_task NewsLoop m
      else if subscription_type = TECHNICAL_INDICATORS
        then fold (\<lambda>coin. start_task (IndicatorsLoop coin)) coins m
      else m)"

text \<open>
  The test of \<^verbatim>\<open>_cleanup_unused_tasks\<close> for one task key: the coin is recovered from the
  key with \<^verbatim>\<open>replace\<close>.
\<close>

definition unused :: "manager \<Rightarrow> string \<Rightarrow> bool" where
  "unused m task_key =
     (if startswith task_key ''price_''
        then \<not> has_subscribers m PRICE_UPDATES (py_replace ''price_'' '''' task_key)
      else if startswith task_key ''indicators_''
        then \<not> has_subscribers m TECHNICAL_INDICATORS (py_replace ''indicators_'' '''' task_key)
      else if task_key = ''news_updates'' then \<not> has_news_subscribers m
      else False)"

definition cancel :: "nat \<Rightarrow> task list \<Rightarrow> task list" where
  "cancel i ts = ts[i := (ts ! i)\<lparr>cancelled := True\<rparr>]"

text \<open>
  The first loop of \<^verbatim>\<open>_cleanup_unused_tasks\<close> over \<^verbatim>\<open>update_tasks.items()\<close>: it
  cancels the unused tasks and collects their keys.
\<close>

fun cleanup_scan ::
  "manager \<Rightarrow> (string \<times> nat) list \<Rightarrow> task list \<times> string list \<Rightarrow> task list \<times> string list" where
  "cleanup_scan m [] acc = acc"
| "cleanup_scan m ((task_key, t) # items) (ts, tasks_to_remove) =
     (if unused m task_key
        then cleanup_scan m items (cancel t ts, tasks_to_remove @ [task_key])
      else cleanup_scan m items (ts, tasks_to_remove))"

definition cleanup_unused_tasks :: "manager \<Rightarrow> manager" where
  "cleanup_unused_tasks m =
     (let (ts, tasks_to_remove) = cleanup_scan m (update_tasks m) (tasks m, [])
      in m\<lparr>tasks := ts,
            update_tasks := filter (\<lambda>(k, t). k \<notin> set tasks_to_remove) (update_tasks m)\<rparr>)"

subsection \<open>Connections and subscriptions\<close>

text \<open>
  \<^verbatim>\<open>connect\<close>: \<^verbatim>\<open>websocket.accept()\<close> comes first and raises on a transport that is
  already closed, before the manager is touched. The new object gets the next handle.
\<close>

definition available_subscriptions :: "string list" where
  "available_subscriptions =
     map SubscriptionType_value
       [PRICE_UPDATES, PORTFOLIO_UPDATES, NEWS_UPDATES, ALERTS, TECHNICAL_INDICATORS]"

definition connect :: "websocket \<Rightarrow> string \<Rightarrow> timestamp \<Rightarrow> manager \<Rightarrow> exn + nat \<times> manager" where
  "connect ws cid now m =
     (if \<not> ws_open ws then Inl WebSocketDisconnect
      else
        let h = length (clients m);
            client = \<lparr>client_id = cid, websocket = ws, subscriptions = {}, watched_coins = {},
                      user_id = None\<rparr>;
            m1 = m\<lparr>clients := clients m @ [client],
                    active_connections := active_connections m @ [h]\<rparr>
        in Inr (h, send_personal_message (ConnectionEstablished cid now available_subscriptions) h m1))"

definition disconnect :: "nat \<Rightarrow> manager \<Rightarrow> manager" where
  "disconnect h m =
     cleanup_unused_tasks
       (if h \<in> set (active_connections m)
        then m\<lparr>active_connections := remove1 h (active_connections m)\<rparr> else m)"

text \<open>
  One iteration of the loop of \<^verbatim>\<open>broadcast_to_subscribers\<close>. The body of the
  \<^verbatim>\<open>try\<close> is \<open>broadcast_try\<close>; the two handlers put the client on
  \<^verbatim>\<open>disconnected_clients\<close>. \<^verbatim>\<open>if coin and ...\<close> is the truth value of the string:
  \<^verbatim>\<open>None\<close> and the empty string skip the coin test.
\<close>

definition truthy :: "string option \<Rightarrow> bool" where
  "truthy coin = (case coin of None \<Rightarrow> False | Some c \<Rightarrow> c \<noteq> [])"

definition broadcast_try ::
  "message \<Rightarrow> SubscriptionType \<Rightarrow> string option \<Rightarrow> nat \<Rightarrow> manager \<Rightarrow> exn + manager" where
  "broadcast_try msg subscription_type coin h m =
     (if subscription_type \<notin> subscriptions (clients m ! h) then Inr m
      else if truthy coin \<and> the coin \<notin> watched_coins (clients m ! h) then Inr m
      else Inr (send_personal_message msg h m))"

fun broadcast_loop ::
  "message \<Rightarrow> SubscriptionType \<Rightarrow> string option \<Rightarrow> nat list \<Rightarrow> manager \<times> nat list
     \<Rightarrow> manager \<times> nat list" where
  "broadcast_loop msg t coin [] acc = acc"
| "broadcast_loop msg t coin (h # hs) (m, disconnected_clients) =
     (case broadcast_try msg t coin h m of
        Inr m' \<Rightarrow> broadcast_loop msg t coin hs (m', disconnected_clients)
      | Inl WebSocketDisconnect \<Rightarrow> broadcast_loop msg t coin hs (m, disconnected_clients @ [h])
      | Inl e \<Rightarrow>
          broadcast_loop msg t coin hs
            (m\<lparr>log := log m @ [LogError ''Error broadcasting to client'']\<rparr>,
             disconnected_clients @ [h]))"

definition broadcast_to_subscribers ::
  "message \<Rightarrow> SubscriptionType \<Rightarrow> string option \<Rightarrow> manager \<Rightarrow> manager" where
  "broadcast_to_subscribers msg t coin m =
     (let (m', disconnected_clients) = broadcast_loop msg t coin (active_connections m) (m, [])
      in fold disconnect disconnected_clients m')"

text \<open>
  What one iteration of that loop comes to when the handlers are left out: the message goes to a
  client that passes both tests (lemma \<open>broadcast_try_deliver\<close> below).
\<close>

definition deliver ::
  "message \<Rightarrow> SubscriptionType \<Rightarrow> string option \<Rightarrow> nat \<Rightarrow> manager \<Rightarrow> manager" where
  "deliver msg t coin h m =
     (if t \<in> subscriptions (clients m ! h)
         \<and> (truthy coin \<longrightarrow> the coin \<in> watched_coins (clients m ! h))
      then send_personal_message msg h m else m)"

text \<open>
  \<^verbatim>\<open>subscribe_client\<close>. The argument \<^verbatim>\<open>coins\<close> is a list; \<^verbatim>\<open>None\<close> behaves as the
  empty list at each of its three uses.
\<close>

definition subscribe_client ::
  "nat \<Rightarrow> SubscriptionType \<Rightarrow> string list \<Rightarrow> timestamp \<Rightarrow> manager \<Rightarrow> manager" where
  "subscribe_client h subscription_type coins now m =
     (let m1 = update_client h (\<lambda>c. c\<lparr>subscriptions := insert subscription_type (subscriptions c)\<rparr>) m;
          m2 = (if coins \<noteq> []
                then update_client h (\<lambda>c. c\<lparr>watched_coins := watched_coins c \<union> set coins\<rparr>) m1
                else m1);
          m3 = start_update_tasks subscription_type coins m2
      in send_personal_message
           (SubscriptionConfirmed (SubscriptionType_value subscription_type)
              (if coins \<noteq> [] then Some (watched_coins (clients m3 ! h)) else None) now) h m3)"

definition unsubscribe_client :: "nat \<Rightarrow> SubscriptionType \<Rightarrow> timestamp \<Rightarrow> manager \<Rightarrow> manager" where
  "unsubscribe_client h subscription_type now m =
     (let m1 = update_client h (\<lambda>c. c\<lparr>subscriptions := subscriptions c - {subscription_type}\<rparr>) m;
          m2 = send_personal_message
                 (UnsubscriptionConfirmed (SubscriptionType_value subscription_type) now) h m1
      in cleanup_unused_tasks m2)"

subsection \<open>The price poller\<close>

text \<open>
  The upstream HTTP call is outside the repository: its outcome is an argument. It either
  raises, or answers with a status and a JSON object from coin to a dictionary of numbers.
\<close>

datatype http_result = HttpRaises | HttpResponse nat "string \<rightharpoonup> (string \<rightharpoonup> number)"

definition dict_get :: "(string \<rightharpoonup> number) \<Rightarrow> string \<Rightarrow> number \<Rightarrow> number" where
  "dict_get d k dflt = (case d k of Some v \<Rightarrow> v | None \<Rightarrow> dflt)"

text \<open>
  \<^verbatim>\<open>_fetch_price_data\<close> returns \<^verbatim>\<open>None\<close> for a status other than 200, for a body
  without the coin, and (after logging) for any exception. It reads and writes nothing of the
  manager; the second component is what it logs.
\<close>

definition fetch_price_data :: "string \<Rightarrow> http_result \<Rightarrow> price_data option \<times> log_entry list" where
  "fetch_price_data coin r =
     (case r of
        HttpRaises \<Rightarrow> (None, [LogError ''Error fetching price data''])
      | HttpResponse status data \<Rightarrow>
          (if status = 200 then
             (case data coin of
                Some coin_data \<Rightarrow>
                  (Some \<lparr>price = dict_get coin_data ''usd'' 0,
                         price_change_24h = dict_get coin_data ''usd_24h_change'' 0,
                         volume_24h = dict_get coin_data ''usd_24h_vol'' 0,
                         market_cap = dict_get coin_data ''usd_market_cap'' 0\<rparr>, [])
              | None \<Rightarrow> (None, []))
           else (None, [])))"

text \<open>
  One pass through the body of \<^verbatim>\<open>while True\<close> in \<^verbatim>\<open>_price_update_loop\<close> ends
  with \<^verbatim>\<open>break\<close> or with a sleep of so many seconds. \<open>price_update_try\<close> is the
  \<^verbatim>\<open>try\<close> block, \<open>price_update_iteration\<close> adds the handler. The dictionary of a
  successful fetch has four keys, so \<^verbatim>\<open>if price_data:\<close> tests for \<^verbatim>\<open>None\<close>.
\<close>

datatype loop_step = Break | Sleep nat

definition price_update_try ::
  "string \<Rightarrow> http_result \<Rightarrow> timestamp \<Rightarrow> manager \<Rightarrow> exn + loop_step \<times> manager" where
  "price_update_try coin r now m =
     (if \<not> has_subscribers m PRICE_UPDATES coin then Inr (Break, m)
      else
        (case fetch_price_data coin r of
           (Some d, logged) \<Rightarrow>
             Inr (Sleep 30,
                  broadcast_to_subscribers (PriceUpdate coin d now) PRICE_UPDATES (Some coin)
                    (m\<lparr>log := log m @ logged,
                        price_cache := (price_cache m)(coin \<mapsto> d),
                        last_update := (last_update m)(coin \<mapsto> now)\<rparr>))
         | (None, logged) \<Rightarrow> Inr (Sleep 30, m\<lparr>log := log m @ logged\<rparr>)))"

definition price_update_iteration ::
  "string \<Rightarrow> http_result \<Rightarrow> timestamp \<Rightarrow> manager \<Rightarrow> loop_step \<times> manager" where
  "price_update_iteration coin r now m =
     (case price_update_try coin r now m of
        Inr res \<Rightarrow> res
      | Inl e \<Rightarrow> (Sleep 60, m\<lparr>log := log m @ [LogError ''Error in price update loop'']\<rparr>))"

text \<open>
  The loop itself, run on the outcomes of the successive upstream calls: it returns the step
  taken at each tick and the final state, and stops at the first \<^verbatim>\<open>break\<close>.
\<close>

fun price_update_loop ::
  "string \<Rightarrow> (http_result \<times> timestamp) list \<Rightarrow> manager \<Rightarrow> loop_step list \<times> manager" where
  "price_update_loop coin [] m = ([], m)"
| "price_update_loop coin ((r, now) # ticks) m =
     (case price_update_iteration coin r now m of
        (Break, m') \<Rightarrow> ([Break], m')
      | (Sleep s, m') \<Rightarrow>
          (case price_update_loop coin ticks m' of (steps, m'') \<Rightarrow> (Sleep s # steps, m'')))"

subsection \<open>The indicators poller\<close>

text \<open>
  What the \<^verbatim>\<open>try\<close> block of \<^verbatim>\<open>_indicators_update_loop\<close> meets after the
  subscriber test: \<^verbatim>\<open>get_price_history\<close> catches its own exceptions and answers
  with \<^verbatim>\<open>success\<close> false on any failure; with \<^verbatim>\<open>success\<close> true the history is
  analysed, and the analysis (pandas arithmetic, outside the model) either yields the
  indicators or raises. The import at the head of the block can raise as well.
\<close>

datatype indicators_tick = BodyRaises exn | HistoryFailed | Analysed indicators

definition indicators_update_try ::
  "string \<Rightarrow> indicators_tick \<Rightarrow> timestamp \<Rightarrow> manager \<Rightarrow> exn + loop_step \<times> manager" where
  "indicators_update_try coin tick now m =
     (if \<not> has_subscribers m TECHNICAL_INDICATORS coin then Inr (Break, m)
      else
        (case tick of
           BodyRaises e \<Rightarrow> Inl e
         | HistoryFailed \<Rightarrow> Inr (Sleep 120, m)
         | Analysed ind \<Rightarrow>
             Inr (Sleep 120,
                  broadcast_to_subscribers (TechnicalIndicatorsUpdate coin ind now)
                    TECHNICAL_INDICATORS (Some coin) m)))"

definition indicators_update_iteration ::
  "string \<Rightarrow> indicators_tick \<Rightarrow> timestamp \<Rightarrow> manager \<Rightarrow> loop_step \<times> manager" where
  "indicators_update_iteration coin tick now m =
     (case indicators_update_try coin tick now m of
        Inr res \<Rightarrow> res
      | Inl e \<Rightarrow> (Sleep 300, m\<lparr>log := log m @ [LogError ''Error in indicators update loop'']\<rparr>))"

fun indicators_update_loop ::
  "string \<Rightarrow> (indicators_tick \<times> timestamp) list \<Rightarrow> manager \<Rightarrow> loop_step list \<times> manager" where
  "indicators_update_loop coin [] m = ([], m)"
| "indicators_update_loop coin ((tick, now) # ticks) m =
     (case indicators_update_iteration coin tick now m of
        (Break, m') \<Rightarrow> ([Break], m')
      | (Sleep s, m') \<Rightarrow>
          (case indicators_update_loop coin ticks m' of (steps, m'') \<Rightarrow> (Sleep s # steps, m'')))"

subsection \<open>The news poller\<close>

text \<open>
  \<^verbatim>\<open>_get_mock_news\<close>: three articles, published now, two hours ago and four hours ago
  (seconds; the clock of the model starts at 0 and a time before that compares like 0), cut to
  the limit.
\<close>

definition get_mock_news :: "nat \<Rightarrow> timestamp \<Rightarrow> article list" where
  "get_mock_news limit now =
     take limit
       [\<lparr>title = ''Bitcoin Surges to New All-Time High Amid Institutional Adoption'',
          url = ''https://example.com/bitcoin-ath'', published_at = Naive now\<rparr>,
        \<lparr>title = ''Ethereum 2.0 Staking Rewards Reach Record Levels'',
          url = ''https://example.com/eth-staking'', published_at = Naive (now - 7200)\<rparr>,
        \<lparr>title = ''Regulatory Concerns Impact Crypto Market Sentiment'',
          url = ''https://example.com/regulatory-news'', published_at = Naive (now - 14400)\<rparr>]"

text \<open>
  \<^verbatim>\<open>get_crypto_news\<close>, on what it meets: no API key, an exception on the way (the request,
  the processing of an article), or an answer with a status and its processed articles. Every
  failure is answered with the mock news, after a print.
\<close>

datatype news_fetch = NoApiKey | NewsRaises | NewsResponse nat "article list"

definition get_crypto_news :: "news_fetch \<Rightarrow> nat \<Rightarrow> timestamp \<Rightarrow> article list \<times> log_entry list" where
  "get_crypto_news fetch limit now =
     (case fetch of
        NoApiKey \<Rightarrow> (get_mock_news limit now, [])
      | NewsRaises \<Rightarrow> (get_mock_news limit now, [Printed ''Error fetching news''])
      | NewsResponse status articles \<Rightarrow>
          (if status = 200 then (take limit articles, [])
           else (get_mock_news limit now, [Printed ''News API error''])))"

text \<open>The fetch of the news has failed when the mock news are given out.\<close>

fun news_fetch_failed :: "news_fetch \<Rightarrow> bool" where
  "news_fetch_failed NoApiKey = True"
| "news_fetch_failed NewsRaises = True"
| "news_fetch_failed (NewsResponse status articles) = (status \<noteq> 200)"

text \<open>
  The comparison \<^verbatim>\<open>datetime.fromisoformat(...) > last_check\<close>: \<^verbatim>\<open>last_check\<close> comes
  from \<^verbatim>\<open>datetime.now()\<close> and has no zone, so a time with zone cannot be compared with it
  (\<^verbatim>\<open>TypeError\<close>); a string that does not parse raises \<^verbatim>\<open>ValueError\<close>. The list
  comprehension stops at the first article that raises.
\<close>

definition published_after :: "published \<Rightarrow> timestamp \<Rightarrow> exn + bool" where
  "published_after p last_check =
     (case p of
        Naive t \<Rightarrow> Inr (last_check < t)
      | Aware t \<Rightarrow> Inl TypeError
      | NotIsoformat \<Rightarrow> Inl ValueError)"

fun new_articles_since :: "timestamp \<Rightarrow> article list \<Rightarrow> exn + article list" where
  "new_articles_since last_check [] = Inr []"
| "new_articles_since last_check (a # articles) =
     (case published_after (published_at a) last_check of
        Inl e \<Rightarrow> Inl e
      | Inr newer \<Rightarrow>
          (case new_articles_since last_check articles of
             Inl e \<Rightarrow> Inl e
           | Inr rest \<Rightarrow> Inr (if newer then a # rest else rest)))"

text \<open>
  One pass through \<^verbatim>\<open>_news_update_loop\<close>. The local variable \<^verbatim>\<open>last_check\<close> is
  threaded through; what \<^verbatim>\<open>get_crypto_news\<close> printed stays printed when the body raises
  afterwards. \<open>NewsBodyRaises\<close> is an exception of the import at the head of the block.
\<close>

datatype news_tick = NewsBodyRaises exn | Fetched news_fetch

definition news_update_try ::
  "news_tick \<Rightarrow> timestamp \<Rightarrow> timestamp \<Rightarrow> manager
     \<Rightarrow> exn \<times> manager + loop_step \<times> timestamp \<times> manager" where
  "news_update_try tick now last_check m =
     (if \<not> has_news_subscribers m then Inr (Break, last_check, m)
      else
        (case tick of
           NewsBodyRaises e \<Rightarrow> Inl (e, m)
         | Fetched fetch \<Rightarrow>
             (case get_crypto_news fetch 10 now of
                (articles, printed) \<Rightarrow>
                  (case new_articles_since last_check articles of
                     Inl e \<Rightarrow> Inl (e, m\<lparr>log := log m @ printed\<rparr>)
                   | Inr new_articles \<Rightarrow>
                       Inr (Sleep 300, now,
                            if new_articles \<noteq> []
                            then broadcast_to_subscribers
                                   (NewsUpdate new_articles (length new_articles) now)
                                   NEWS_UPDATES None (m\<lparr>log := log m @ printed\<rparr>)
                            else m\<lparr>log := log m @ printed\<rparr>)))))"

definition news_update_iteration ::
  "news_tick \<Rightarrow> timestamp \<Rightarrow> timestamp \<Rightarrow> manager \<Rightarrow> loop_step \<times> timestamp \<times> manager" where
  "news_update_iteration tick now last_check m =
     (case news_update_try tick now last_check m of
        Inr res \<Rightarrow> res
      | Inl (e, m') \<Rightarrow>
          (Sleep 600, last_check, m'\<lparr>log := log m' @ [LogError ''Error in news update loop'']\<rparr>))"

fun news_update_loop ::
  "(news_tick \<times> timestamp) list \<Rightarrow> timestamp \<Rightarrow> manager \<Rightarrow> loop_step list \<times> manager" where
  "news_update_loop [] last_check m = ([], m)"
| "news_update_loop ((tick, now) # ticks) last_check m =
     (case news_update_iteration tick now last_check m of
        (Break, last_check', m') \<Rightarrow> ([Break], m')
      | (Sleep s, last_check', m') \<Rightarrow>
          (case news_update_loop ticks last_check' m' of
             (steps, m'') \<Rightarrow> (Sleep s # steps, m'')))"

section \<open>The endpoint \<^verbatim>\<open>websocket_endpoint\<close> of \<^verbatim>\<open>simple_backend.py\<close>\<close>

text \<open>
  The values that \<^verbatim>\<open>json.loads\<close> builds (numbers are integers here, as in the price
  payloads; the keys of an object are distinct).
\<close>

datatype json =
    JNull
  | JBool bool
  | JNum number
  | JStr string
  | JArr "json list"
  | JObj "(string \<times> json) list"

text \<open>
  What Python does with such a value: its truth value (\<^verbatim>\<open>if coins:\<close>,
  \<^verbatim>\<open>coins or []\<close>); the elements that \<^verbatim>\<open>for coin in coins\<close> and
  \<^verbatim>\<open>set.update(coins)\<close> go through (the elements of a list, the characters of a string,
  the keys of a dictionary; anything else is not iterable and raises \<^verbatim>\<open>TypeError\<close>); and
  whether it can be hashed, which membership in a dictionary and insertion into a set need
  (lists and dictionaries cannot).
\<close>

fun py_truthy :: "json \<Rightarrow> bool" where
  "py_truthy JNull = False"
| "py_truthy (JBool b) = b"
| "py_truthy (JNum n) = (n \<noteq> 0)"
| "py_truthy (JStr s) = (s \<noteq> [])"
| "py_truthy (JArr xs) = (xs \<noteq> [])"
| "py_truthy (JObj kvs) = (kvs \<noteq> [])"

fun py_iter :: "json \<Rightarrow> exn + json list" where
  "py_iter (JArr xs) = Inr xs"
| "py_iter (JStr s) = Inr (map (\<lambda>c. JStr [c]) s)"
| "py_iter (JObj kvs) = Inr (map (\<lambda>kv. JStr (fst kv)) kvs)"
| "py_iter v = Inl TypeError"

fun py_hashable :: "json \<Rightarrow> bool" where
  "py_hashable (JArr xs) = False"
| "py_hashable (JObj kvs) = False"
| "py_hashable v = True"

text \<open>
  What \<^verbatim>\<open>receive_text\<close> and \<^verbatim>\<open>json.loads\<close> yield: a dictionary, of which the
  endpoint reads three keys; a text that is not JSON or not a dictionary (whose
  \<^verbatim>\<open>message.get\<close> raises); or \<^verbatim>\<open>WebSocketDisconnect\<close>. \<open>msg_type\<close> and
  \<open>msg_subscription_type\<close> are \<open>None\<close> when the key is missing or its value is not a
  string: no branch is taken for such a type, and the lookup of such a subscription type
  raises. \<open>msg_coins\<close> is \<open>None\<close> when the key is missing, and then
  \<^verbatim>\<open>message.get("coins", [])\<close> is the empty list.
\<close>

record client_message =
  msg_type :: "string option"
  msg_subscription_type :: "string option"
  msg_coins :: "json option"

datatype received = Text client_message | NotJson | Closed

definition coins_of :: "client_message \<Rightarrow> json" where
  "coins_of message = (case msg_coins message of None \<Rightarrow> JArr [] | Some v \<Rightarrow> v)"

text \<open>
  The loop of the \<^verbatim>\<open>get_current_prices\<close> branch over the elements of \<^verbatim>\<open>coins\<close>.
  The keys of the price cache are strings: an element that is a string is looked up, another
  hashable element is in no case a key, and a list or a dictionary as element makes
  \<^verbatim>\<open>coin in price_cache\<close> raise.
\<close>

fun current_prices_loop ::
  "(string \<rightharpoonup> price_data) \<Rightarrow> json list \<Rightarrow> (string \<rightharpoonup> price_data)
     \<Rightarrow> exn + (string \<rightharpoonup> price_data)" where
  "current_prices_loop cache [] acc = Inr acc"
| "current_prices_loop cache (coin # coins) acc =
     (if \<not> py_hashable coin then Inl TypeError
      else
        (case coin of
           JStr name \<Rightarrow>
             (case cache name of
                Some v \<Rightarrow> current_prices_loop cache coins (acc(name \<mapsto> v))
              | None \<Rightarrow> current_prices_loop cache coins acc)
         | _ \<Rightarrow> current_prices_loop cache coins acc))"

definition current_prices :: "manager \<Rightarrow> json \<Rightarrow> exn + (string \<rightharpoonup> price_data)" where
  "current_prices m coins =
     (case py_iter coins of
        Inl e \<Rightarrow> Inl e
      | Inr elements \<Rightarrow> current_prices_loop (price_cache m) elements Map.empty)"

definition printed_error :: "manager \<Rightarrow> manager" where
  "printed_error m = m\<lparr>log := log m @ [Printed ''WebSocket error for client'']\<rparr>"

text \<open>
  \<^verbatim>\<open>subscribe_client\<close> as the endpoint calls it, with whatever value the message holds
  under \<^verbatim>\<open>coins\<close>. The call returns, or raises and leaves the changes made so far, or
  takes the manager out of its declared types.
  \<^item> A value that is not true (\<^verbatim>\<open>null\<close>, \<^verbatim>\<open>false\<close>, 0, the empty string, list or
    dictionary) is treated as the empty list throughout.
  \<^item> A true value that cannot be iterated (\<^verbatim>\<open>true\<close>, a number) makes
    \<^verbatim>\<open>watched_coins.update\<close> raise, after the subscription type has been added.
  \<^item> A value whose elements are all strings is the call with that list of strings.
  \<^item> Otherwise \<^verbatim>\<open>update\<close> adds the strings in front of the first other element. If
    that element is a list or a dictionary, the insertion raises there. If it is
    \<^verbatim>\<open>null\<close>, a boolean or a number, it is put into \<^verbatim>\<open>watched_coins\<close>, which is
    declared a set of strings and is one in this model: the outcome is \<open>Untyped\<close>, and the
    model says nothing more about that call.
\<close>

datatype call_outcome = Returns manager | Raises exn manager | Untyped

fun leading_names :: "json list \<Rightarrow> string list \<times> json list" where
  "leading_names (JStr name # elements) =
     (case leading_names elements of (names, rest) \<Rightarrow> (name # names, rest))"
| "leading_names elements = ([], elements)"

definition subscribe_client_json ::
  "nat \<Rightarrow> SubscriptionType \<Rightarrow> json \<Rightarrow> timestamp \<Rightarrow> manager \<Rightarrow> call_outcome" where
  "subscribe_client_json h subscription_type coins now m =
     (if \<not> py_truthy coins then Returns (subscribe_client h subscription_type [] now m)
      else
        (let m1 = update_client h
                    (\<lambda>c. c\<lparr>subscriptions := insert subscription_type (subscriptions c)\<rparr>) m
         in case py_iter coins of
              Inl e \<Rightarrow> Raises e m1
            | Inr elements \<Rightarrow>
                (case leading_names elements of
                   (names, []) \<Rightarrow> Returns (subscribe_client h subscription_type names now m)
                 | (names, other # rest) \<Rightarrow>
                     (if py_hashable other then Untyped
                      else Raises TypeError
                             (update_client h
                                (\<lambda>c. c\<lparr>watched_coins := watched_coins c \<union> set names\<rparr>) m1)))))"

text \<open>
  One pass through the receive loop for the connection \<open>h\<close>. The result says whether the
  loop goes on, and is \<open>None\<close> only for the untyped call above. Every exception of the body
  lands in the handler that prints it, calls \<^verbatim>\<open>disconnect\<close> and ends the loop;
  \<^verbatim>\<open>WebSocketDisconnect\<close> does the same without the print.
\<close>

definition websocket_endpoint_step ::
  "nat \<Rightarrow> received \<Rightarrow> timestamp \<Rightarrow> manager \<Rightarrow> (bool \<times> manager) option" where
  "websocket_endpoint_step h rcv now m =
     (case rcv of
        Closed \<Rightarrow> Some (False, disconnect h m)
      | NotJson \<Rightarrow> Some (False, disconnect h (printed_error m))
      | Text message \<Rightarrow>
          (if msg_type message = Some ''subscribe'' then
             (case SubscriptionType_lookup (msg_subscription_type message) of
                Inl e \<Rightarrow> Some (False, disconnect h (printed_error m))
              | Inr subscription_type \<Rightarrow>
                  (case subscribe_client_json h subscription_type (coins_of message) now m of
                     Returns m' \<Rightarrow> Some (True, m')
                   | Raises e m' \<Rightarrow> Some (False, disconnect h (printed_error m'))
                   | Untyped \<Rightarrow> None))
           else if msg_type message = Some ''unsubscribe'' then
             (case SubscriptionType_lookup (msg_subscription_type message) of
                Inl e \<Rightarrow> Some (False, disconnect h (printed_error m))
              | Inr subscription_type \<Rightarrow>
                  Some (True, unsubscribe_client h subscription_type now m))
           else if msg_type message = Some ''ping'' then
             Some (True, send_personal_message (Pong now) h m)
           else if msg_type message = Some ''get_current_prices'' then
             (case current_prices m (coins_of message) of
                Inl e \<Rightarrow> Some (False, disconnect h (printed_error m))
              | Inr prices \<Rightarrow>
                  Some (True, send_personal_message (CurrentPrices prices now) h m))
           else Some (True, m)))"

section \<open>Sequences of hub operations\<close>

text \<open>
  The calls that reach the manager, in the order they are served. A handle that names no
  client object cannot occur in the program; such an operation leaves the state alone.
  \<open>PeerCloses\<close> is the environment closing a transport.
\<close>

datatype hub_op =
    Connect string timestamp
  | Disconnect nat
  | Subscribe nat SubscriptionType "string list" timestamp
  | Unsubscribe nat SubscriptionType timestamp
  | PeerCloses nat

fun apply_op :: "hub_op \<Rightarrow> manager \<Rightarrow> manager" where
  "apply_op (Connect cid now) m =
     (case connect \<lparr>ws_open = True, ws_sent = []\<rparr> cid now m of
        Inr (h, m') \<Rightarrow> m' | Inl e \<Rightarrow> m)"
| "apply_op (Disconnect h) m = (if h < length (clients m) then disconnect h m else m)"
| "apply_op (Subscribe h t coins now) m =
     (if h < length (clients m) then subscribe_client h t coins now m else m)"
| "apply_op (Unsubscribe h t now) m =
     (if h < length (clients m) then unsubscribe_client h t now m else m)"
| "apply_op (PeerCloses h) m =
     update_client h (\<lambda>c. c\<lparr>websocket := (websocket c)\<lparr>ws_open := False\<rparr>\<rparr>) m"

definition run :: "hub_op list \<Rightarrow> manager" where
  "run ops = fold apply_op ops WebSocketManager_init"

section \<open>Pollers and the task map\<close>

text \<open>
  The loop that \<^verbatim>\<open>_start_update_tasks\<close> starts for a feed type and a coin: one per coin
  for prices and indicators, one for all news, none for the other two types.
\<close>

fun poller_for :: "SubscriptionType \<Rightarrow> string \<Rightarrow> poller option" where
  "poller_for PRICE_UPDATES coin = Some (PriceLoop coin)"
| "poller_for NEWS_UPDATES coin = Some NewsLoop"
| "poller_for TECHNICAL_INDICATORS coin = Some (IndicatorsLoop coin)"
| "poller_for PORTFOLIO_UPDATES coin = None"
| "poller_for ALERTS coin = None"

text \<open>The tasks that run a given loop and have not been cancelled.\<close>

definition live_tasks :: "manager \<Rightarrow> poller \<Rightarrow> nat list" where
  "live_tasks m p =
     filter (\<lambda>i. coro (tasks m ! i) = p \<and> \<not> cancelled (tasks m ! i)) [0..<length (tasks m)]"

text \<open>
  The task map and the task table agree: keys are not repeated, every entry of the map points
  to a task that is not cancelled and runs the loop of that key, and every task that is not
  cancelled is the entry of the map under the key of its loop.
\<close>

definition task_inv :: "manager \<Rightarrow> bool" where
  "task_inv m =
     (distinct (map fst (update_tasks m))
      \<and> (\<forall>(k, i) \<in> set (update_tasks m).
            i < length (tasks m) \<and> \<not> cancelled (tasks m ! i)
            \<and> task_key_of (coro (tasks m ! i)) = k)
      \<and> (\<forall>i < length (tasks m).
            \<not> cancelled (tasks m ! i) \<longrightarrow>
            (task_key_of (coro (tasks m ! i)), i) \<in> set (update_tasks m)))"

section \<open>The registry of the specification\<close>

text \<open>
  The bookkeeping that the specification describes, in its own words, to compare the manager
  with: a connection holds a set of (feed type, instrument) pairs. Connect registers a new
  connection with no pair; Subscribe adds the pair of the feed type with each instrument
  named (news and alerts are not instrument-scoped, their instrument is the zero value);
  Unsubscribe removes the pairs of that feed type; Disconnect removes the connection and its
  pairs; an operation on a handle that is not registered is a no-op.
\<close>

record spec_registry =
  issued :: nat
  connected :: "nat set"
  feed_keys :: "nat \<Rightarrow> (SubscriptionType \<times> string) set"

definition spec_keys :: "SubscriptionType \<Rightarrow> string list \<Rightarrow> (SubscriptionType \<times> string) set" where
  "spec_keys t coins =
     (if t = NEWS_UPDATES \<or> t = ALERTS then {(t, [])} else Pair t ` set coins)"

fun spec_step :: "hub_op \<Rightarrow> spec_registry \<Rightarrow> spec_registry" where
  "spec_step (Connect cid now) r =
     r\<lparr>issued := Suc (issued r), connected := insert (issued r) (connected r)\<rparr>"
| "spec_step (Disconnect h) r =
     r\<lparr>connected := connected r - {h}, feed_keys := (feed_keys r)(h := {})\<rparr>"
| "spec_step (Subscribe h t coins now) r =
     (if h \<in> connected r
      then r\<lparr>feed_keys := (feed_keys r)(h := feed_keys r h \<union> spec_keys t coins)\<rparr> else r)"
| "spec_step (Unsubscribe h t now) r =
     (if h \<in> connected r
      then r\<lparr>feed_keys := (feed_keys r)(h := {k \<in> feed_keys r h. fst k \<noteq> t})\<rparr> else r)"
| "spec_step (PeerCloses h) r = r"

definition spec_run :: "hub_op list \<Rightarrow> spec_registry" where
  "spec_run ops = fold spec_step ops \<lparr>issued = 0, connected = {}, feed_keys = \<lambda>h. {}\<rparr>"

text \<open>
  The instrument names that the \<^verbatim>\<open>replace\<close> of \<^verbatim>\<open>_cleanup_unused_tasks\<close> leaves as
  they are: those in which the prefix of the feed type's task keys does not occur.
\<close>

definition plain_name :: "SubscriptionType \<Rightarrow> string \<Rightarrow> bool" where
  "plain_name t coin =
     (if t = PRICE_UPDATES then py_replace ''price_'' [] coin = coin
      else if t = TECHNICAL_INDICATORS then py_replace ''indicators_'' [] coin = coin
      else True)"

text \<open>
  How the manager and the registry of the specification stand to each other after the same
  operations: the same handles are issued and connected, the connection list has no duplicate
  and only issued handles, a handle that is not connected has no pair, a connected handle has
  the feed type of each of its pairs in \<^verbatim>\<open>subscriptions\<close> and the instrument of each
  instrument-scoped pair in \<^verbatim>\<open>watched_coins\<close>, and the task map has the key of the
  poller of each pair with a plain name.
\<close>

definition registry_inv :: "manager \<Rightarrow> spec_registry \<Rightarrow> bool" where
  "registry_inv m r =
     (issued r = length (clients m)
      \<and> connected r = set (active_connections m)
      \<and> distinct (active_connections m)
      \<and> (\<forall>h \<in> set (active_connections m). h < length (clients m))
      \<and> (\<forall>h. h \<notin> connected r \<longrightarrow> feed_keys r h = {})
      \<and> (\<forall>h \<in> connected r. \<forall>(t, c) \<in> feed_keys r h.
            t \<in> subscriptions (clients m ! h)
            \<and> (t = NEWS_UPDATES \<or> t = ALERTS \<or> c \<in> watched_coins (clients m ! h)))
      \<and> (\<forall>h \<in> connected r. \<forall>(t, c) \<in> feed_keys r h. \<forall>p.
            poller_for t c = Some p \<and> plain_name t c \<longrightarrow>
            task_key_of p \<in> fst ` set (update_tasks m)))"

section \<open>Scenarios\<close>

text \<open>
  Three clients: A and B subscribe to the price of bitcoin, C to the price of ethereum.
\<close>

definition three_clients :: manager where
  "three_clients =
     run [Connect ''A'' 0, Subscribe 0 PRICE_UPDATES [''bitcoin''] 1,
          Connect ''B'' 2, Subscribe 1 PRICE_UPDATES [''bitcoin''] 3,
          Connect ''C'' 4, Subscribe 2 PRICE_UPDATES [''ethereum''] 5]"

text \<open>The same, after the transport of A has been closed by its peer.\<close>

definition three_clients_A_closed :: manager where
  "three_clients_A_closed = apply_op (PeerCloses 0) three_clients"

text \<open>
  One client that subscribes to the price of bitcoin; an upstream answer with a quote for
  bitcoin; and the state after the poller has fetched that quote once and the client has
  unsubscribed again.
\<close>

definition one_watcher :: manager where
  "one_watcher = run [Connect ''A'' 0, Subscribe 0 PRICE_UPDATES [''bitcoin''] 1]"

definition bitcoin_quote :: http_result where
  "bitcoin_quote =
     HttpResponse 200
       [''bitcoin'' \<mapsto> [''usd'' \<mapsto> 98500, ''usd_24h_change'' \<mapsto> 2, ''usd_24h_vol'' \<mapsto> 1000,
                       ''usd_market_cap'' \<mapsto> 5000]]"

definition fetched_then_unsubscribed :: manager where
  "fetched_then_unsubscribed =
     unsubscribe_client 0 PRICE_UPDATES 3
       (snd (price_update_iteration ''bitcoin'' bitcoin_quote 2 one_watcher))"

text \<open>
  Two clients that subscribe to the price of a coin whose name is \<^verbatim>\<open>price_x\<close>, and the
  state after the first of them has unsubscribed.
\<close>

definition two_watchers_price_x :: manager where
  "two_watchers_price_x =
     run [Connect ''A'' 0, Subscribe 0 PRICE_UPDATES [''price_x''] 1,
          Connect ''B'' 2, Subscribe 1 PRICE_UPDATES [''price_x''] 3]"

definition first_watcher_left :: manager where
  "first_watcher_left = apply_op (Unsubscribe 0 PRICE_UPDATES 4) two_watchers_price_x"

text \<open>
  One client that subscribes to the portfolio updates of bitcoin.
\<close>

definition portfolio_watcher_ops :: "hub_op list" where
  "portfolio_watcher_ops = [Connect ''A'' 0, Subscribe 0 PORTFOLIO_UPDATES [''bitcoin''] 1]"

text \<open>
  The three clients again, where C then subscribes to the technical indicators of bitcoin. C
  has named bitcoin under the indicators only, and ethereum under the prices.
\<close>

definition three_clients_indicators_ops :: "hub_op list" where
  "three_clients_indicators_ops =
     [Connect ''A'' 0, Subscribe 0 PRICE_UPDATES [''bitcoin''] 1,
      Connect ''B'' 2, Subscribe 1 PRICE_UPDATES [''bitcoin''] 3,
      Connect ''C'' 4, Subscribe 2 PRICE_UPDATES [''ethereum''] 5,
      Subscribe 2 TECHNICAL_INDICATORS [''bitcoin''] 6]"

text \<open>
  One client that subscribes to the news, and one that subscribes to the technical indicators
  of bitcoin.
\<close>

definition news_watcher :: manager where
  "news_watcher = run [Connect ''A'' 0, Subscribe 0 NEWS_UPDATES [] 1]"

definition indicators_watcher :: manager where
  "indicators_watcher = run [Connect ''A'' 0, Subscribe 0 TECHNICAL_INDICATORS [''bitcoin''] 1]"

section \<open>Basic facts about the operations\<close>

lemma update_client_fields [simp]:
  "active_connections (update_client h f m) = active_connections m"
  "update_tasks (update_client h f m) = update_tasks m"
  "tasks (update_client h f m) = tasks m"
  "price_cache (update_client h f m) = price_cache m"
  "last_update (update_client h f m) = last_update m"
  "log (update_client h f m) = log m"
  "length (clients (update_client h f m)) = length (clients m)"
  by (simp_all add: update_client_def)

lemma update_client_nth:
  "clients (update_client h f m) ! k =
     (if k = h \<and> h < length (clients m) then f (clients m ! h) else clients m ! k)"
  by (cases "h < length (clients m)")
    (simp_all add: update_client_def nth_list_update list_update_beyond)

lemma send_personal_message_fields [simp]:
  "active_connections (send_personal_message msg h m) = active_connections m"
  "update_tasks (send_personal_message msg h m) = update_tasks m"
  "tasks (send_personal_message msg h m) = tasks m"
  "price_cache (send_personal_message msg h m) = price_cache m"
  "last_update (send_personal_message msg h m) = last_update m"
  "length (clients (send_personal_message msg h m)) = length (clients m)"
  by (simp_all add: send_personal_message_def split: sum.splits)

lemma send_personal_message_nth:
  "clients (send_personal_message msg h m) ! k =
     (if k = h \<and> h < length (clients m) \<and> ws_open (websocket (clients m ! h))
      then (clients m ! h)\<lparr>websocket := (websocket (clients m ! h))
             \<lparr>ws_sent := ws_sent (websocket (clients m ! h)) @ [msg]\<rparr>\<rparr>
      else clients m ! k)"
  by (simp add: send_personal_message_def send_text_def update_client_nth)

lemma send_personal_message_subs [simp]:
  "subscriptions (clients (send_personal_message msg h m) ! k) = subscriptions (clients m ! k)"
  "watched_coins (clients (send_personal_message msg h m) ! k) = watched_coins (clients m ! k)"
  "client_id (clients (send_personal_message msg h m) ! k) = client_id (clients m ! k)"
  "user_id (clients (send_personal_message msg h m) ! k) = user_id (clients m ! k)"
  by (simp_all add: send_personal_message_nth)

lemma cleanup_scan_eq:
  "cleanup_scan m items (ts, rm) =
     (fold cancel (map snd (filter (\<lambda>(k, t). unused m k) items)) ts,
      rm @ map fst (filter (\<lambda>(k, t). unused m k) items))"
  by (induction items arbitrary: ts rm) auto

lemma cleanup_unused_tasks_eq:
  "cleanup_unused_tasks m =
     m\<lparr>tasks := fold cancel (map snd (filter (\<lambda>(k, t). unused m k) (update_tasks m))) (tasks m),
       update_tasks := filter (\<lambda>(k, t). \<not> unused m k) (update_tasks m)\<rparr>"
proof -
  have "filter (\<lambda>(k, t). k \<notin> fst ` {x \<in> set (update_tasks m). case x of (k, t) \<Rightarrow> unused m k})
          (update_tasks m) = filter (\<lambda>(k, t). \<not> unused m k) (update_tasks m)"
    by (rule filter_cong) (auto simp: image_iff)
  then show ?thesis
    by (simp add: cleanup_unused_tasks_def cleanup_scan_eq)
qed

lemma cleanup_fields [simp]:
  "clients (cleanup_unused_tasks m) = clients m"
  "active_connections (cleanup_unused_tasks m) = active_connections m"
  "price_cache (cleanup_unused_tasks m) = price_cache m"
  "last_update (cleanup_unused_tasks m) = last_update m"
  "log (cleanup_unused_tasks m) = log m"
  by (simp_all add: cleanup_unused_tasks_eq)

lemma unused_cong:
  "clients m' = clients m \<Longrightarrow> active_connections m' = active_connections m \<Longrightarrow>
   unused m' k = unused m k"
  by (simp add: unused_def has_subscribers_def has_news_subscribers_def)

lemma cleanup_idem: "cleanup_unused_tasks (cleanup_unused_tasks m) = cleanup_unused_tasks m"
proof -
  define m' where "m' = cleanup_unused_tasks m"
  have u: "unused m' k = unused m k" for k
    unfolding m'_def by (rule unused_cong) simp_all
  have ut: "update_tasks m' = filter (\<lambda>(k, t). \<not> unused m k) (update_tasks m)"
    unfolding m'_def by (simp add: cleanup_unused_tasks_eq)
  have "filter (\<lambda>(k, t). unused m' k) (update_tasks m') = []"
    by (auto simp: u ut filter_empty_conv)
  moreover have "filter (\<lambda>(k, t). \<not> unused m' k) (update_tasks m') = update_tasks m'"
    by (auto simp: u ut filter_id_conv)
  ultimately have "cleanup_unused_tasks m' = m'"
    by (subst cleanup_unused_tasks_eq) simp
  then show ?thesis by (simp add: m'_def)
qed

text \<open>
  C6. Disconnecting twice is disconnecting once: on a manager whose connection list has no
  duplicate, the second \<^verbatim>\<open>disconnect\<close> of the same client returns the state the first
  one left (no error, no other connection removed, no task cancelled or removed again), the
  first call removes exactly that client, and no client object is changed.
\<close>

theorem disconnect_idempotent:
  assumes "distinct (active_connections m)"
  shows "disconnect h (disconnect h m) = disconnect h m
         \<and> active_connections (disconnect h m) = remove1 h (active_connections m)
         \<and> clients (disconnect h m) = clients m"
proof -
  have notin: "h \<notin> set (active_connections (disconnect h m))"
    using assms by (auto simp: disconnect_def)
  have "disconnect h (disconnect h m) = cleanup_unused_tasks (disconnect h m)"
    using notin by (simp add: disconnect_def)
  also have "\<dots> = disconnect h m"
    by (simp add: disconnect_def cleanup_idem)
  finally show ?thesis
    by (auto simp: disconnect_def remove1_idem)
qed

lemmas hub_defs =
  run_def WebSocketManager_init_def connect_def disconnect_def subscribe_client_def
  unsubscribe_client_def send_personal_message_def send_text_def update_client_def
  start_update_tasks_def start_task_def cleanup_unused_tasks_eq unused_def
  has_subscribers_def has_news_subscribers_def client_subscribed_def startswith_def
  available_subscriptions_def Let_def

theorem disconnect_idempotent_witness:
  "distinct (active_connections (run [Connect ''a'' 0, Subscribe 0 PRICE_UPDATES [''bitcoin''] 1]))
   \<and> disconnect 0 (disconnect 0 (run [Connect ''a'' 0, Subscribe 0 PRICE_UPDATES [''bitcoin''] 1]))
       = disconnect 0 (run [Connect ''a'' 0, Subscribe 0 PRICE_UPDATES [''bitcoin''] 1])"
proof -
  have d: "distinct (active_connections (run [Connect ''a'' 0, Subscribe 0 PRICE_UPDATES [''bitcoin''] 1]))"
    by (simp add: hub_defs)
  show ?thesis using d disconnect_idempotent [OF d, of 0] by simp
qed

section \<open>Facts about \<^verbatim>\<open>broadcast_to_subscribers\<close>\<close>

text \<open>
  The \<^verbatim>\<open>try\<close> block of the broadcast loop never raises, because
  \<^verbatim>\<open>send_personal_message\<close> has caught every exception already: the handlers of the
  loop are never entered and \<^verbatim>\<open>disconnected_clients\<close> stays empty.
\<close>

lemma broadcast_try_Inr: "\<exists>m'. broadcast_try msg t coin h m = Inr m'"
  by (simp add: broadcast_try_def)

lemma broadcast_loop_snd: "snd (broadcast_loop msg t coin hs (m, dc)) = dc"
proof (induction hs arbitrary: m)
  case Nil
  show ?case by simp
next
  case (Cons h hs)
  obtain m' where "broadcast_try msg t coin h m = Inr m'"
    using broadcast_try_Inr by blast
  with Cons show ?case by simp
qed

lemma broadcast_try_deliver: "broadcast_try msg t coin h m = Inr (deliver msg t coin h m)"
  by (simp add: broadcast_try_def deliver_def)

lemma broadcast_loop_fst:
  "fst (broadcast_loop msg t coin hs (m, dc)) = fold (deliver msg t coin) hs m"
  by (induction hs arbitrary: m) (simp_all add: broadcast_try_deliver)

lemma broadcast_eq_fold:
  "broadcast_to_subscribers msg t coin m = fold (deliver msg t coin) (active_connections m) m"
proof -
  have "broadcast_loop msg t coin (active_connections m) (m, []) =
          (fold (deliver msg t coin) (active_connections m) m, [])"
    using broadcast_loop_fst [of msg t coin "active_connections m" m "[]"]
      broadcast_loop_snd [of msg t coin "active_connections m" m "[]"]
    by (metis prod.collapse)
  then show ?thesis by (simp add: broadcast_to_subscribers_def)
qed

lemma deliver_fields [simp]:
  "active_connections (deliver msg t coin h m) = active_connections m"
  "update_tasks (deliver msg t coin h m) = update_tasks m"
  "tasks (deliver msg t coin h m) = tasks m"
  "price_cache (deliver msg t coin h m) = price_cache m"
  "last_update (deliver msg t coin h m) = last_update m"
  "length (clients (deliver msg t coin h m)) = length (clients m)"
  "subscriptions (clients (deliver msg t coin h m) ! k) = subscriptions (clients m ! k)"
  "watched_coins (clients (deliver msg t coin h m) ! k) = watched_coins (clients m ! k)"
  "client_id (clients (deliver msg t coin h m) ! k) = client_id (clients m ! k)"
  "user_id (clients (deliver msg t coin h m) ! k) = user_id (clients m ! k)"
  by (simp_all add: deliver_def)

lemma fold_deliver_fields [simp]:
  "active_connections (fold (deliver msg t coin) hs m) = active_connections m"
  "update_tasks (fold (deliver msg t coin) hs m) = update_tasks m"
  "tasks (fold (deliver msg t coin) hs m) = tasks m"
  "price_cache (fold (deliver msg t coin) hs m) = price_cache m"
  "last_update (fold (deliver msg t coin) hs m) = last_update m"
  "length (clients (fold (deliver msg t coin) hs m)) = length (clients m)"
  "subscriptions (clients (fold (deliver msg t coin) hs m) ! k) = subscriptions (clients m ! k)"
  "watched_coins (clients (fold (deliver msg t coin) hs m) ! k) = watched_coins (clients m ! k)"
  "client_id (clients (fold (deliver msg t coin) hs m) ! k) = client_id (clients m ! k)"
  "user_id (clients (fold (deliver msg t coin) hs m) ! k) = user_id (clients m ! k)"
  by (induction hs arbitrary: m; simp)+

lemma deliver_other:
  "k \<noteq> h \<Longrightarrow> clients (deliver msg t coin h m) ! k = clients m ! k"
  by (simp add: deliver_def send_personal_message_nth)

lemma fold_deliver_other:
  "k \<notin> set hs \<Longrightarrow> clients (fold (deliver msg t coin) hs m) ! k = clients m ! k"
  by (induction hs arbitrary: m) (simp_all add: deliver_other)

lemma deliver_nth:
  "clients (deliver msg t coin h m) ! k =
     (if k = h \<and> h < length (clients m) \<and> t \<in> subscriptions (clients m ! h)
         \<and> (truthy coin \<longrightarrow> the coin \<in> watched_coins (clients m ! h))
         \<and> ws_open (websocket (clients m ! h))
      then (clients m ! h)\<lparr>websocket := (websocket (clients m ! h))
             \<lparr>ws_sent := ws_sent (websocket (clients m ! h)) @ [msg]\<rparr>\<rparr>
      else clients m ! k)"
  by (simp add: deliver_def send_personal_message_nth)

lemma fold_deliver_nth:
  assumes "distinct hs" and "k < length (clients m)"
  shows "clients (fold (deliver msg t coin) hs m) ! k =
     (if k \<in> set hs \<and> t \<in> subscriptions (clients m ! k)
         \<and> (truthy coin \<longrightarrow> the coin \<in> watched_coins (clients m ! k))
         \<and> ws_open (websocket (clients m ! k))
      then (clients m ! k)\<lparr>websocket := (websocket (clients m ! k))
             \<lparr>ws_sent := ws_sent (websocket (clients m ! k)) @ [msg]\<rparr>\<rparr>
      else clients m ! k)"
  using assms
proof (induction hs arbitrary: m)
  case Nil
  show ?case by simp
next
  case (Cons h hs)
  show ?case
  proof (cases "k = h")
    case True
    with Cons.prems have "k \<notin> set hs" by simp
    then have "clients (fold (deliver msg t coin) (h # hs) m) ! k = clients (deliver msg t coin h m) ! k"
      by (simp add: fold_deliver_other)
    with True Cons.prems(2) show ?thesis
      by (simp add: deliver_nth)
  next
    case False
    have "clients (fold (deliver msg t coin) (h # hs) m) ! k =
            clients (fold (deliver msg t coin) hs (deliver msg t coin h m)) ! k"
      by simp
    also have "\<dots> = (if k \<in> set hs \<and> t \<in> subscriptions (clients m ! k)
         \<and> (truthy coin \<longrightarrow> the coin \<in> watched_coins (clients m ! k))
         \<and> ws_open (websocket (clients (deliver msg t coin h m) ! k))
      then (clients (deliver msg t coin h m) ! k)\<lparr>websocket := (websocket (clients (deliver msg t coin h m) ! k))
             \<lparr>ws_sent := ws_sent (websocket (clients (deliver msg t coin h m) ! k)) @ [msg]\<rparr>\<rparr>
      else clients (deliver msg t coin h m) ! k)"
      using Cons.prems by (subst Cons.IH) simp_all
    finally show ?thesis using False by (simp add: deliver_other)
  qed
qed

section \<open>Facts about subscribing and unsubscribing\<close>

lemma start_task_fields [simp]:
  "clients (start_task p m) = clients m"
  "active_connections (start_task p m) = active_connections m"
  "price_cache (start_task p m) = price_cache m"
  "last_update (start_task p m) = last_update m"
  "log (start_task p m) = log m"
  by (simp_all add: start_task_def)

lemma fold_start_task_fields [simp]:
  "clients (fold (\<lambda>c. start_task (f c)) cs m) = clients m"
  "active_connections (fold (\<lambda>c. start_task (f c)) cs m) = active_connections m"
  "price_cache (fold (\<lambda>c. start_task (f c)) cs m) = price_cache m"
  "last_update (fold (\<lambda>c. start_task (f c)) cs m) = last_update m"
  "log (fold (\<lambda>c. start_task (f c)) cs m) = log m"
  by (induction cs arbitrary: m; simp)+

lemma start_update_tasks_fields [simp]:
  "clients (start_update_tasks t coins m) = clients m"
  "active_connections (start_update_tasks t coins m) = active_connections m"
  "price_cache (start_update_tasks t coins m) = price_cache m"
  "last_update (start_update_tasks t coins m) = last_update m"
  "log (start_update_tasks t coins m) = log m"
  by (simp_all add: start_update_tasks_def)

lemma subscribe_client_fields [simp]:
  "active_connections (subscribe_client h t coins now m) = active_connections m"
  "price_cache (subscribe_client h t coins now m) = price_cache m"
  "last_update (subscribe_client h t coins now m) = last_update m"
  "length (clients (subscribe_client h t coins now m)) = length (clients m)"
  by (simp_all add: subscribe_client_def Let_def)

lemma subscribe_client_subs:
  assumes "h < length (clients m)"
  shows "subscriptions (clients (subscribe_client h t coins now m) ! k) =
           (if k = h then insert t (subscriptions (clients m ! h)) else subscriptions (clients m ! k))"
    and "watched_coins (clients (subscribe_client h t coins now m) ! k) =
           (if k = h then watched_coins (clients m ! h) \<union> set coins else watched_coins (clients m ! k))"
    and "ws_open (websocket (clients (subscribe_client h t coins now m) ! k)) =
           ws_open (websocket (clients m ! k))"
  using assms
  by (auto simp: subscribe_client_def Let_def update_client_nth send_personal_message_nth)

lemma unsubscribe_client_fields [simp]:
  "active_connections (unsubscribe_client h t now m) = active_connections m"
  "price_cache (unsubscribe_client h t now m) = price_cache m"
  "last_update (unsubscribe_client h t now m) = last_update m"
  "length (clients (unsubscribe_client h t now m)) = length (clients m)"
  "watched_coins (clients (unsubscribe_client h t now m) ! k) = watched_coins (clients m ! k)"
  by (simp_all add: unsubscribe_client_def Let_def update_client_nth)

lemma unsubscribe_client_subs:
  assumes "h < length (clients m)"
  shows "subscriptions (clients (unsubscribe_client h t now m) ! k) =
           (if k = h then subscriptions (clients m ! h) - {t} else subscriptions (clients m ! k))"
  using assms by (simp add: unsubscribe_client_def Let_def update_client_nth)

lemma disconnect_fields [simp]:
  "clients (disconnect h m) = clients m"
  "price_cache (disconnect h m) = price_cache m"
  "last_update (disconnect h m) = last_update m"
  "set (active_connections (disconnect h m)) \<subseteq> set (active_connections m)"
  using set_remove1_subset [of h "active_connections m"] by (auto simp: disconnect_def)

lemma broadcast_fields [simp]:
  "active_connections (broadcast_to_subscribers msg t coin m) = active_connections m"
  "update_tasks (broadcast_to_subscribers msg t coin m) = update_tasks m"
  "tasks (broadcast_to_subscribers msg t coin m) = tasks m"
  "price_cache (broadcast_to_subscribers msg t coin m) = price_cache m"
  "last_update (broadcast_to_subscribers msg t coin m) = last_update m"
  "length (clients (broadcast_to_subscribers msg t coin m)) = length (clients m)"
  "subscriptions (clients (broadcast_to_subscribers msg t coin m) ! k) = subscriptions (clients m ! k)"
  "watched_coins (clients (broadcast_to_subscribers msg t coin m) ! k) = watched_coins (clients m ! k)"
  by (simp_all add: broadcast_eq_fold)

lemma broadcast_sent:
  assumes "distinct (active_connections m)" and "k < length (clients m)"
  shows "ws_sent (websocket (clients (broadcast_to_subscribers msg t coin m) ! k)) =
     (if k \<in> set (active_connections m) \<and> t \<in> subscriptions (clients m ! k)
         \<and> (truthy coin \<longrightarrow> the coin \<in> watched_coins (clients m ! k))
         \<and> ws_open (websocket (clients m ! k))
      then ws_sent (websocket (clients m ! k)) @ [msg]
      else ws_sent (websocket (clients m ! k)))"
  using assms by (simp add: broadcast_eq_fold fold_deliver_nth)

text \<open>
  C3, as the code has it. On a manager whose connection list has no duplicate, a broadcast for
  a feed type and a coin appends the message to the transport of a client exactly when the
  client is connected, its transport is open, the feed type is among its feed types and the
  coin is in its set of watched coins (the test the pollers use; the one set holds the coins
  named under all of its feed types); every other client's transport is left as it was. A
  broadcast without a coin (the feeds that have no instrument) goes to the connected
  subscribers of the type, and so does one with the empty string as coin.
\<close>

theorem broadcast_reaches_exactly_subscribers:
  assumes "distinct (active_connections m)" and "h < length (clients m)"
  shows "(coin \<noteq> [] \<longrightarrow>
          ws_sent (websocket (clients (broadcast_to_subscribers msg t (Some coin) m) ! h)) =
            (if h \<in> set (active_connections m) \<and> client_subscribed (clients m ! h) t coin
                \<and> ws_open (websocket (clients m ! h))
             then ws_sent (websocket (clients m ! h)) @ [msg]
             else ws_sent (websocket (clients m ! h))))
       \<and> (coin' = None \<or> coin' = Some [] \<longrightarrow>
          ws_sent (websocket (clients (broadcast_to_subscribers msg t coin' m) ! h)) =
            (if h \<in> set (active_connections m) \<and> t \<in> subscriptions (clients m ! h)
                \<and> ws_open (websocket (clients m ! h))
             then ws_sent (websocket (clients m ! h)) @ [msg]
             else ws_sent (websocket (clients m ! h))))"
  using assms by (auto simp: broadcast_sent truthy_def client_subscribed_def)

lemma three_clients_value:
  "three_clients =
     \<lparr>clients =
        [\<lparr>client_id = ''A'',
          websocket = \<lparr>ws_open = True, ws_sent =
            [ConnectionEstablished ''A'' 0 available_subscriptions,
             SubscriptionConfirmed ''price_updates'' (Some {''bitcoin''}) 1]\<rparr>,
          subscriptions = {PRICE_UPDATES}, watched_coins = {''bitcoin''}, user_id = None\<rparr>,
         \<lparr>client_id = ''B'',
          websocket = \<lparr>ws_open = True, ws_sent =
            [ConnectionEstablished ''B'' 2 available_subscriptions,
             SubscriptionConfirmed ''price_updates'' (Some {''bitcoin''}) 3]\<rparr>,
          subscriptions = {PRICE_UPDATES}, watched_coins = {''bitcoin''}, user_id = None\<rparr>,
         \<lparr>client_id = ''C'',
          websocket = \<lparr>ws_open = True, ws_sent =
            [ConnectionEstablished ''C'' 4 available_subscriptions,
             SubscriptionConfirmed ''price_updates'' (Some {''ethereum''}) 5]\<rparr>,
          subscriptions = {PRICE_UPDATES}, watched_coins = {''ethereum''}, user_id = None\<rparr>],
      active_connections = [0, 1, 2],
      price_cache = Map.empty, last_update = Map.empty,
      update_tasks = [(''price_bitcoin'', 0), (''price_ethereum'', 1)],
      tasks = [\<lparr>coro = PriceLoop ''bitcoin'', cancelled = False\<rparr>,
               \<lparr>coro = PriceLoop ''ethereum'', cancelled = False\<rparr>],
      log = []\<rparr>"
  unfolding three_clients_def
  by (simp add: run_def WebSocketManager_init_def connect_def subscribe_client_def
      send_personal_message_def send_text_def update_client_def start_update_tasks_def
      start_task_def Let_def)

theorem broadcast_reaches_exactly_subscribers_witness:
  "distinct (active_connections three_clients) \<and> 2 < length (clients three_clients)
   \<and> ''bitcoin'' \<noteq> []
   \<and> ws_sent (websocket (clients
        (broadcast_to_subscribers (Payload ''tick'') PRICE_UPDATES (Some ''bitcoin'') three_clients) ! 2))
      = ws_sent (websocket (clients three_clients ! 2))"
proof -
  have d: "distinct (active_connections three_clients)"
    and l: "2 < length (clients three_clients)"
    and c: "\<not> client_subscribed (clients three_clients ! 2) PRICE_UPDATES ''bitcoin''"
    by (simp_all add: three_clients_value client_subscribed_def)
  show ?thesis
    using d l c
      broadcast_reaches_exactly_subscribers
        [OF d l, of "''bitcoin''" "Payload ''tick''" PRICE_UPDATES None]
    by simp
qed

lemma three_clients_A_closed_value:
  "three_clients_A_closed =
     \<lparr>clients =
        [\<lparr>client_id = ''A'',
          websocket = \<lparr>ws_open = False, ws_sent =
            [ConnectionEstablished ''A'' 0 available_subscriptions,
             SubscriptionConfirmed ''price_updates'' (Some {''bitcoin''}) 1]\<rparr>,
          subscriptions = {PRICE_UPDATES}, watched_coins = {''bitcoin''}, user_id = None\<rparr>,
         \<lparr>client_id = ''B'',
          websocket = \<lparr>ws_open = True, ws_sent =
            [ConnectionEstablished ''B'' 2 available_subscriptions,
             SubscriptionConfirmed ''price_updates'' (Some {''bitcoin''}) 3]\<rparr>,
          subscriptions = {PRICE_UPDATES}, watched_coins = {''bitcoin''}, user_id = None\<rparr>,
         \<lparr>client_id = ''C'',
          websocket = \<lparr>ws_open = True, ws_sent =
            [ConnectionEstablished ''C'' 4 available_subscriptions,
             SubscriptionConfirmed ''price_updates'' (Some {''ethereum''}) 5]\<rparr>,
          subscriptions = {PRICE_UPDATES}, watched_coins = {''ethereum''}, user_id = None\<rparr>],
      active_connections = [0, 1, 2],
      price_cache = Map.empty, last_update = Map.empty,
      update_tasks = [(''price_bitcoin'', 0), (''price_ethereum'', 1)],
      tasks = [\<lparr>coro = PriceLoop ''bitcoin'', cancelled = False\<rparr>,
               \<lparr>coro = PriceLoop ''ethereum'', cancelled = False\<rparr>],
      log = []\<rparr>"
  unfolding three_clients_A_closed_def
  by (simp add: three_clients_value update_client_def)

text \<open>
  C7 on the code: a delivery failure leaves the dead connection registered. The exception of
  the failed send is caught inside \<^verbatim>\<open>send_personal_message\<close>, so no handler of the
  broadcast loop runs and the loop's \<^verbatim>\<open>disconnected_clients\<close> is empty for every
  input: the connection list and the task map after a broadcast are those before it.
\<close>

lemma broadcast_never_disconnects:
  "snd (broadcast_loop msg t coin (active_connections m) (m, [])) = []
   \<and> active_connections (broadcast_to_subscribers msg t coin m) = active_connections m
   \<and> update_tasks (broadcast_to_subscribers msg t coin m) = update_tasks m"
  by (simp add: broadcast_loop_snd)

text \<open>
  C7 at a concrete input: A's transport is closed, A and B watch bitcoin. The broadcast logs
  the failed send, B receives the message, and A is still in \<^verbatim>\<open>active_connections\<close>
  afterwards, with both pollers still in the task map.
\<close>

theorem broadcast_keeps_dead_connection:
  "active_connections
     (broadcast_to_subscribers (Payload ''tick'') PRICE_UPDATES (Some ''bitcoin'')
        three_clients_A_closed) = [0, 1, 2]
   \<and> \<not> ws_open (websocket (clients three_clients_A_closed ! 0))
   \<and> log (broadcast_to_subscribers (Payload ''tick'') PRICE_UPDATES (Some ''bitcoin'')
        three_clients_A_closed) = [LogError ''Error sending message'']
   \<and> last (ws_sent (websocket (clients
        (broadcast_to_subscribers (Payload ''tick'') PRICE_UPDATES (Some ''bitcoin'')
           three_clients_A_closed) ! 1))) = Payload ''tick''
   \<and> update_tasks
       (broadcast_to_subscribers (Payload ''tick'') PRICE_UPDATES (Some ''bitcoin'')
          three_clients_A_closed) = [(''price_bitcoin'', 0), (''price_ethereum'', 1)]"
  by (simp add: three_clients_A_closed_value broadcast_to_subscribers_def broadcast_try_def
      truthy_def send_personal_message_def send_text_def update_client_def)

text \<open>
  C10. The watched coins of a connection are one set for all its feed types. On a manager whose
  connection list has no duplicate: (1) a broadcast for a feed type and a non-empty coin reaches
  a connected client with an open transport exactly when the type is in its
  \<^verbatim>\<open>subscriptions\<close> and the coin in its \<^verbatim>\<open>watched_coins\<close>; (2) when a connected
  client that already has feed type \<open>t1\<close> subscribes to another type with coin \<open>c\<close>,
  it counts as subscribed to \<open>t1\<close> for \<open>c\<close> and the next broadcast of \<open>t1\<close> for
  \<open>c\<close> is delivered to it; (3) unsubscribing leaves every client's watched coins unchanged.
\<close>

theorem watched_coins_shared_across_feed_types:
  assumes "distinct (active_connections m)" and "h < length (clients m)"
  shows "(c \<noteq> [] \<and> h \<in> set (active_connections m) \<and> ws_open (websocket (clients m ! h)) \<longrightarrow>
            (ws_sent (websocket (clients (broadcast_to_subscribers msg t1 (Some c) m) ! h)) =
               ws_sent (websocket (clients m ! h)) @ [msg])
            = (t1 \<in> subscriptions (clients m ! h) \<and> c \<in> watched_coins (clients m ! h)))
       \<and> (h \<in> set (active_connections m) \<and> ws_open (websocket (clients m ! h))
            \<and> t1 \<in> subscriptions (clients m ! h) \<and> c \<in> set coins \<longrightarrow>
            client_subscribed (clients (subscribe_client h t2 coins now m) ! h) t1 c
            \<and> ws_sent (websocket (clients
                (broadcast_to_subscribers msg t1 (Some c) (subscribe_client h t2 coins now m)) ! h)) =
              ws_sent (websocket (clients (subscribe_client h t2 coins now m) ! h)) @ [msg])
       \<and> watched_coins (clients (unsubscribe_client h t now m) ! k) = watched_coins (clients m ! k)"
proof (intro conjI impI)
  assume "c \<noteq> [] \<and> h \<in> set (active_connections m) \<and> ws_open (websocket (clients m ! h))"
  then show "(ws_sent (websocket (clients (broadcast_to_subscribers msg t1 (Some c) m) ! h)) =
               ws_sent (websocket (clients m ! h)) @ [msg])
            = (t1 \<in> subscriptions (clients m ! h) \<and> c \<in> watched_coins (clients m ! h))"
    using assms by (simp add: broadcast_sent truthy_def)
next
  assume a: "h \<in> set (active_connections m) \<and> ws_open (websocket (clients m ! h))
            \<and> t1 \<in> subscriptions (clients m ! h) \<and> c \<in> set coins"
  let ?m' = "subscribe_client h t2 coins now m"
  show "client_subscribed (clients ?m' ! h) t1 c"
    using a assms(2) by (simp add: client_subscribed_def subscribe_client_subs)
  have "distinct (active_connections ?m')" and "h < length (clients ?m')"
    using assms by simp_all
  then show "ws_sent (websocket (clients (broadcast_to_subscribers msg t1 (Some c) ?m') ! h)) =
              ws_sent (websocket (clients ?m' ! h)) @ [msg]"
    using a assms(2) by (simp add: broadcast_sent subscribe_client_subs truthy_def)
next
  show "watched_coins (clients (unsubscribe_client h t now m) ! k) = watched_coins (clients m ! k)"
    by simp
qed

text \<open>
  The witness: C has the price feed and watches ethereum; after it subscribes to the technical
  indicators of bitcoin, a price update of bitcoin is delivered to it.
\<close>

theorem watched_coins_shared_across_feed_types_witness:
  "distinct (active_connections three_clients) \<and> 2 < length (clients three_clients)
   \<and> 2 \<in> set (active_connections three_clients)
   \<and> ws_open (websocket (clients three_clients ! 2))
   \<and> PRICE_UPDATES \<in> subscriptions (clients three_clients ! 2)
   \<and> ''bitcoin'' \<in> set [''bitcoin'']
   \<and> ''bitcoin'' \<notin> watched_coins (clients three_clients ! 2)
   \<and> ws_sent (websocket (clients
        (broadcast_to_subscribers (Payload ''tick'') PRICE_UPDATES (Some ''bitcoin'')
           (subscribe_client 2 TECHNICAL_INDICATORS [''bitcoin''] 6 three_clients)) ! 2)) =
      ws_sent (websocket (clients
        (subscribe_client 2 TECHNICAL_INDICATORS [''bitcoin''] 6 three_clients) ! 2))
      @ [Payload ''tick'']"
proof -
  have d: "distinct (active_connections three_clients)"
    and l: "2 < length (clients three_clients)"
    and a: "2 \<in> set (active_connections three_clients)"
       "ws_open (websocket (clients three_clients ! 2))"
       "PRICE_UPDATES \<in> subscriptions (clients three_clients ! 2)"
       "''bitcoin'' \<notin> watched_coins (clients three_clients ! 2)"
    by (simp_all add: three_clients_value)
  show ?thesis
    using d l a
      watched_coins_shared_across_feed_types
        [OF d l, of "''bitcoin''" "Payload ''tick''" PRICE_UPDATES "[''bitcoin'']"
           TECHNICAL_INDICATORS 6]
    by simp
qed

section \<open>The cache of prices\<close>

lemma one_watcher_value:
  "one_watcher =
     \<lparr>clients =
        [\<lparr>client_id = ''A'',
          websocket = \<lparr>ws_open = True, ws_sent =
            [ConnectionEstablished ''A'' 0 available_subscriptions,
             SubscriptionConfirmed ''price_updates'' (Some {''bitcoin''}) 1]\<rparr>,
          subscriptions = {PRICE_UPDATES}, watched_coins = {''bitcoin''}, user_id = None\<rparr>],
      active_connections = [0],
      price_cache = Map.empty, last_update = Map.empty,
      update_tasks = [(''price_bitcoin'', 0)],
      tasks = [\<lparr>coro = PriceLoop ''bitcoin'', cancelled = False\<rparr>],
      log = []\<rparr>"
  unfolding one_watcher_def
  by (simp add: run_def WebSocketManager_init_def connect_def subscribe_client_def
      send_personal_message_def send_text_def update_client_def start_update_tasks_def
      start_task_def Let_def)

lemma bitcoin_quote_fetch:
  "fetch_price_data ''bitcoin'' bitcoin_quote =
     (Some \<lparr>price = 98500, price_change_24h = 2, volume_24h = 1000, market_cap = 5000\<rparr>, [])"
  by (simp add: fetch_price_data_def bitcoin_quote_def dict_get_def)

lemma one_watcher_has_subscribers: "has_subscribers one_watcher PRICE_UPDATES ''bitcoin''"
  by (simp add: one_watcher_value has_subscribers_def client_subscribed_def)

lemma length_fold_cancel [simp]: "length (fold cancel is ts) = length ts"
  by (induction "is" arbitrary: ts) (simp_all add: cancel_def)

lemma cleanup_tasks_length [simp]: "length (tasks (cleanup_unused_tasks m)) = length (tasks m)"
  by (simp add: cleanup_unused_tasks_eq)

lemma cleanup_update_tasks_subset:
  "set (update_tasks (cleanup_unused_tasks m)) \<subseteq> set (update_tasks m)"
  by (auto simp: cleanup_unused_tasks_eq)

lemma price_update_iteration_eq:
  "price_update_iteration coin r now m =
     (if \<not> has_subscribers m PRICE_UPDATES coin then (Break, m)
      else case fetch_price_data coin r of
        (Some d, logged) \<Rightarrow>
          (Sleep 30,
           broadcast_to_subscribers (PriceUpdate coin d now) PRICE_UPDATES (Some coin)
             (m\<lparr>log := log m @ logged, price_cache := (price_cache m)(coin \<mapsto> d),
                 last_update := (last_update m)(coin \<mapsto> now)\<rparr>))
      | (None, logged) \<Rightarrow> (Sleep 30, m\<lparr>log := log m @ logged\<rparr>))"
  by (simp add: price_update_iteration_def price_update_try_def split: prod.splits option.splits)

lemma has_subscribers_cong:
  "clients m' = clients m \<Longrightarrow> active_connections m' = active_connections m \<Longrightarrow>
   has_subscribers m' t coin = has_subscribers m t coin"
  by (simp add: has_subscribers_def)

lemma price_update_loop_failures:
  assumes "has_subscribers m PRICE_UPDATES coin"
    and "\<forall>tick \<in> set ticks. fst (fetch_price_data coin (fst tick)) = None"
  shows "fst (price_update_loop coin ticks m) = replicate (length ticks) (Sleep 30)
       \<and> clients (snd (price_update_loop coin ticks m)) = clients m
       \<and> active_connections (snd (price_update_loop coin ticks m)) = active_connections m
       \<and> update_tasks (snd (price_update_loop coin ticks m)) = update_tasks m
       \<and> tasks (snd (price_update_loop coin ticks m)) = tasks m
       \<and> price_cache (snd (price_update_loop coin ticks m)) = price_cache m"
  using assms
proof (induction ticks arbitrary: m)
  case Nil
  show ?case by simp
next
  case (Cons tick ticks)
  obtain r now where tick: "tick = (r, now)" by (cases tick)
  from Cons.prems(2) tick obtain logged where f: "fetch_price_data coin r = (None, logged)"
    by (cases "fetch_price_data coin r") auto
  let ?m1 = "m\<lparr>log := log m @ logged\<rparr>"
  have it: "price_update_iteration coin r now m = (Sleep 30, ?m1)"
    using Cons.prems(1) f by (simp add: price_update_iteration_eq)
  have "has_subscribers ?m1 PRICE_UPDATES coin"
    using Cons.prems(1) by (simp add: has_subscribers_def)
  moreover have "\<forall>tick \<in> set ticks. fst (fetch_price_data coin (fst tick)) = None"
    using Cons.prems(2) by simp
  ultimately have IH: "fst (price_update_loop coin ticks ?m1) = replicate (length ticks) (Sleep 30)
       \<and> clients (snd (price_update_loop coin ticks ?m1)) = clients ?m1
       \<and> active_connections (snd (price_update_loop coin ticks ?m1)) = active_connections ?m1
       \<and> update_tasks (snd (price_update_loop coin ticks ?m1)) = update_tasks ?m1
       \<and> tasks (snd (price_update_loop coin ticks ?m1)) = tasks ?m1
       \<and> price_cache (snd (price_update_loop coin ticks ?m1)) = price_cache ?m1"
    by (rule Cons.IH)
  show ?case
    using IH by (cases "price_update_loop coin ticks ?m1") (simp add: tick it)
qed


text \<open>
  C4 as stated fails: three consecutive failed fetches (an exception, a status 500, a body
  without the coin) do not widen the interval. The poller waits 30 seconds after each of them,
  which is what it waits after a successful fetch.
\<close>

theorem no_backoff_after_three_failures:
  "fst (price_update_loop ''bitcoin''
     [(HttpRaises, 2), (HttpResponse 500 Map.empty, 3), (HttpResponse 200 Map.empty, 4)]
     one_watcher) = [Sleep 30, Sleep 30, Sleep 30]
   \<and> fst (price_update_iteration ''bitcoin'' bitcoin_quote 2 one_watcher) = Sleep 30"
proof -
  have f: "\<forall>tick \<in> set [(HttpRaises, 2::nat), (HttpResponse 500 Map.empty, 3), (HttpResponse 200 Map.empty, 4)].
         fst (fetch_price_data ''bitcoin'' (fst tick)) = None"
    by (simp add: fetch_price_data_def)
  show ?thesis
    using price_update_loop_failures [OF one_watcher_has_subscribers f]
    by (simp add: numeral_3_eq_3 price_update_iteration_eq one_watcher_has_subscribers
        bitcoin_quote_fetch)
qed

section \<open>Current prices\<close>

lemma price_update_iteration_cache:
  "price_cache (snd (price_update_iteration coin r now m)) =
     (if has_subscribers m PRICE_UPDATES coin
      then (case fst (fetch_price_data coin r) of
              Some d \<Rightarrow> (price_cache m)(coin \<mapsto> d) | None \<Rightarrow> price_cache m)
      else price_cache m)"
  by (simp add: price_update_iteration_eq split: prod.splits option.splits)

lemma fetched_then_unsubscribed_value:
  "update_tasks fetched_then_unsubscribed = []
   \<and> tasks fetched_then_unsubscribed = [\<lparr>coro = PriceLoop ''bitcoin'', cancelled = True\<rparr>]
   \<and> price_cache fetched_then_unsubscribed ''bitcoin'' =
       Some \<lparr>price = 98500, price_change_24h = 2, volume_24h = 1000, market_cap = 5000\<rparr>"
  unfolding fetched_then_unsubscribed_def
  by (simp add: price_update_iteration_eq one_watcher_has_subscribers bitcoin_quote_fetch
      cleanup_unused_tasks_eq unsubscribe_client_def Let_def)
    (simp add: one_watcher_value broadcast_eq_fold deliver_def truthy_def unused_def
      startswith_def py_replace.simps has_subscribers_def client_subscribed_def
      send_personal_message_def send_text_def update_client_def cancel_def)

section \<open>The lookup of a feed type\<close>

lemma SubscriptionType_lookup_unknown:
  assumes "\<forall>t. v \<noteq> Some (SubscriptionType_value t)"
  shows "SubscriptionType_lookup v = Inl ValueError"
proof -
  have "v \<noteq> Some (SubscriptionType_value PRICE_UPDATES)"
    "v \<noteq> Some (SubscriptionType_value PORTFOLIO_UPDATES)"
    "v \<noteq> Some (SubscriptionType_value NEWS_UPDATES)"
    "v \<noteq> Some (SubscriptionType_value ALERTS)"
    "v \<noteq> Some (SubscriptionType_value TECHNICAL_INDICATORS)"
    using assms by blast+
  then show ?thesis by (simp add: SubscriptionType_lookup_def)
qed

lemma SubscriptionType_lookup_value:
  "SubscriptionType_lookup (Some (SubscriptionType_value t)) = Inr t"
  by (cases t) (simp_all add: SubscriptionType_lookup_def)

lemma disconnect_tasks:
  "length (tasks (disconnect h m)) = length (tasks m)"
  "set (update_tasks (disconnect h m)) \<subseteq> set (update_tasks m)"
  by (auto simp: disconnect_def cleanup_unused_tasks_eq)

section \<open>The task map and the task table\<close>

lemma task_key_of_inj: "task_key_of p = task_key_of q \<Longrightarrow> p = q"
  by (cases p; cases q) simp_all

lemma cancel_nth:
  "i < length ts \<Longrightarrow>
   cancel j ts ! i = (if i = j then (ts ! i)\<lparr>cancelled := True\<rparr> else ts ! i)"
  by (simp add: cancel_def nth_list_update)

lemma length_cancel [simp]: "length (cancel j ts) = length ts"
  by (simp add: cancel_def)

lemma fold_cancel_nth:
  "i < length ts \<Longrightarrow>
   coro (fold cancel js ts ! i) = coro (ts ! i)
   \<and> cancelled (fold cancel js ts ! i) = (i \<in> set js \<or> cancelled (ts ! i))"
  by (induction js arbitrary: ts) (auto simp: cancel_nth)

lemma task_inv_cong:
  "tasks m' = tasks m \<Longrightarrow> update_tasks m' = update_tasks m \<Longrightarrow> task_inv m' = task_inv m"
  by (simp add: task_inv_def)

lemma task_inv_init: "task_inv WebSocketManager_init"
  by (simp add: task_inv_def WebSocketManager_init_def)

lemma task_inv_start_task:
  assumes "task_inv m"
  shows "task_inv (start_task p m)"
proof (cases "task_key_of p \<in> fst ` set (update_tasks m)")
  case True
  with assms show ?thesis by (simp add: start_task_def)
next
  case False
  have "distinct (map fst (update_tasks m @ [(task_key_of p, length (tasks m))]))"
    using assms False by (simp add: task_inv_def)
  moreover have "\<forall>(k, i) \<in> set (update_tasks m @ [(task_key_of p, length (tasks m))]).
      i < length (tasks m @ [\<lparr>coro = p, cancelled = False\<rparr>])
      \<and> \<not> cancelled ((tasks m @ [\<lparr>coro = p, cancelled = False\<rparr>]) ! i)
      \<and> task_key_of (coro ((tasks m @ [\<lparr>coro = p, cancelled = False\<rparr>]) ! i)) = k"
    using assms by (auto simp: task_inv_def nth_append)
  moreover have "\<forall>i < length (tasks m @ [\<lparr>coro = p, cancelled = False\<rparr>]).
      \<not> cancelled ((tasks m @ [\<lparr>coro = p, cancelled = False\<rparr>]) ! i) \<longrightarrow>
      (task_key_of (coro ((tasks m @ [\<lparr>coro = p, cancelled = False\<rparr>]) ! i)), i)
        \<in> set (update_tasks m @ [(task_key_of p, length (tasks m))])"
    using assms by (auto simp: task_inv_def nth_append less_Suc_eq)
  ultimately show ?thesis
    using False by (simp add: start_task_def task_inv_def)
qed

lemma task_inv_fold_start_task:
  "task_inv m \<Longrightarrow> task_inv (fold (\<lambda>c. start_task (f c)) cs m)"
  by (induction cs arbitrary: m) (simp_all add: task_inv_start_task)

lemma task_inv_start_update_tasks:
  "task_inv m \<Longrightarrow> task_inv (start_update_tasks t coins m)"
  by (simp add: start_update_tasks_def task_inv_start_task task_inv_fold_start_task)

lemma task_inv_cleanup:
  assumes "task_inv m"
  shows "task_inv (cleanup_unused_tasks m)"
proof -
  define U where "U = update_tasks m"
  define T where "T = tasks m"
  define C where "C = map snd (filter (\<lambda>(k, t). unused m k) U)"
  define U' where "U' = filter (\<lambda>(k, t). \<not> unused m k) U"
  have inv: "distinct (map fst U)"
    "\<And>k i. (k, i) \<in> set U \<Longrightarrow> i < length T \<and> \<not> cancelled (T ! i) \<and> task_key_of (coro (T ! i)) = k"
    "\<And>i. i < length T \<Longrightarrow> \<not> cancelled (T ! i) \<Longrightarrow> (task_key_of (coro (T ! i)), i) \<in> set U"
    using assms by (auto simp: task_inv_def U_def T_def)
  have C: "i \<in> set C \<longleftrightarrow> (\<exists>k. (k, i) \<in> set U \<and> unused m k)" for i
    by (auto simp: C_def image_iff)
  have a: "distinct (map fst U')"
    using inv(1) by (simp add: U'_def distinct_map_filter)
  have b: "i < length (fold cancel C T) \<and> \<not> cancelled (fold cancel C T ! i)
           \<and> task_key_of (coro (fold cancel C T ! i)) = k" if "(k, i) \<in> set U'" for k i
  proof -
    from that have ki: "(k, i) \<in> set U" and nu: "\<not> unused m k" by (auto simp: U'_def)
    have "i \<notin> set C"
    proof
      assume "i \<in> set C"
      then obtain k' where "(k', i) \<in> set U" "unused m k'" using C by blast
      with inv(2) [OF ki] inv(2) [of k' i] nu show False by auto
    qed
    with inv(2) [OF ki] show ?thesis by (simp add: fold_cancel_nth)
  qed
  have c: "(task_key_of (coro (fold cancel C T ! i)), i) \<in> set U'"
    if "i < length (fold cancel C T)" "\<not> cancelled (fold cancel C T ! i)" for i
  proof -
    from that have i: "i < length T" "i \<notin> set C" "\<not> cancelled (T ! i)"
      by (auto simp: fold_cancel_nth)
    then have "(task_key_of (coro (T ! i)), i) \<in> set U" using inv(3) by blast
    moreover have "\<not> unused m (task_key_of (coro (T ! i)))"
      using calculation i(2) C by blast
    ultimately show ?thesis using i(1) by (simp add: U'_def fold_cancel_nth)
  qed
  have "cleanup_unused_tasks m = m\<lparr>tasks := fold cancel C T, update_tasks := U'\<rparr>"
    by (simp add: cleanup_unused_tasks_eq C_def U'_def U_def T_def)
  then show ?thesis
    using a b c by (auto simp: task_inv_def)
qed

lemma task_inv_send [simp]: "task_inv (send_personal_message msg h m) = task_inv m"
  by (rule task_inv_cong) simp_all

lemma task_inv_update_client [simp]: "task_inv (update_client h f m) = task_inv m"
  by (rule task_inv_cong) simp_all

lemma task_inv_disconnect: "task_inv m \<Longrightarrow> task_inv (disconnect h m)"
  unfolding disconnect_def
  by (rule task_inv_cleanup) (simp add: task_inv_def)

lemma task_inv_subscribe: "task_inv m \<Longrightarrow> task_inv (subscribe_client h t coins now m)"
  by (simp add: subscribe_client_def Let_def task_inv_start_update_tasks)

lemma task_inv_unsubscribe: "task_inv m \<Longrightarrow> task_inv (unsubscribe_client h t now m)"
  by (simp add: unsubscribe_client_def Let_def task_inv_cleanup)

lemma task_inv_connect:
  "task_inv m \<Longrightarrow> connect ws cid now m = Inr (h, m') \<Longrightarrow> task_inv m'"
  by (auto simp: connect_def Let_def task_inv_def split: if_splits)

lemma task_inv_apply_op: "task_inv m \<Longrightarrow> task_inv (apply_op op m)"
  by (cases op)
    (auto simp: task_inv_disconnect task_inv_subscribe task_inv_unsubscribe
      dest: task_inv_connect split: sum.splits)

lemma task_inv_fold: "task_inv m \<Longrightarrow> task_inv (fold apply_op ops m)"
  by (induction ops arbitrary: m) (simp_all add: task_inv_apply_op)

lemma task_inv_run: "task_inv (run ops)"
  by (simp add: run_def task_inv_fold task_inv_init)

lemma run_snoc: "run (ops @ [op]) = apply_op op (run ops)"
  by (simp add: run_def)

lemma distinct_all_equal_length:
  assumes "distinct xs" and "\<And>x y. x \<in> set xs \<Longrightarrow> y \<in> set xs \<Longrightarrow> x = y"
  shows "length xs \<le> 1"
proof (cases xs)
  case Nil
  then show ?thesis by simp
next
  case (Cons x ys)
  have "ys = []"
  proof (cases ys)
    case Nil
    then show ?thesis .
  next
    case (Cons y zs)
    with \<open>xs = x # ys\<close> assms(2) [of x y] assms(1) show ?thesis by auto
  qed
  with Cons show ?thesis by simp
qed

lemma distinct_keys_filter_length:
  "distinct (map fst xs) \<Longrightarrow> length (filter (\<lambda>(k, i). k = key) xs) \<le> 1"
proof (induction xs)
  case Nil
  show ?case by simp
next
  case (Cons x xs)
  obtain k i where x: "x = (k, i)" by (cases x)
  show ?case
  proof (cases "k = key")
    case True
    with Cons.prems x have "key \<notin> fst ` set xs" by simp
    then have "filter (\<lambda>(k, i). k = key) xs = []"
      by (auto simp: filter_empty_conv image_iff)
    with True x show ?thesis by simp
  next
    case False
    with Cons x show ?thesis by simp
  qed
qed

lemma live_tasks_mem:
  "i \<in> set (live_tasks m p) \<longleftrightarrow>
     i < length (tasks m) \<and> coro (tasks m ! i) = p \<and> \<not> cancelled (tasks m ! i)"
  by (auto simp: live_tasks_def)

lemma live_tasks_at_most_one:
  assumes "task_inv m"
  shows "length (live_tasks m p) \<le> 1"
proof (rule distinct_all_equal_length)
  show "distinct (live_tasks m p)" by (simp add: live_tasks_def)
next
  fix i j
  assume "i \<in> set (live_tasks m p)" and "j \<in> set (live_tasks m p)"
  then have "(task_key_of p, i) \<in> set (update_tasks m)" "(task_key_of p, j) \<in> set (update_tasks m)"
    using assms by (auto simp: live_tasks_mem task_inv_def)
  moreover have "distinct (map fst (update_tasks m))"
    using assms by (simp add: task_inv_def)
  ultimately show "i = j" by (rule eq_key_imp_eq_value [rotated])
qed

lemma live_tasks_of_entry:
  assumes "task_inv m"
  shows "(map_of (update_tasks m) (task_key_of p) = Some i) = (live_tasks m p = [i])"
proof
  assume "map_of (update_tasks m) (task_key_of p) = Some i"
  then have "(task_key_of p, i) \<in> set (update_tasks m)" by (rule map_of_SomeD)
  then have "i < length (tasks m)" "\<not> cancelled (tasks m ! i)"
    "task_key_of (coro (tasks m ! i)) = task_key_of p"
    using assms by (auto simp: task_inv_def)
  then have i: "i \<in> set (live_tasks m p)"
    by (auto simp: live_tasks_mem dest: task_key_of_inj)
  have "length (live_tasks m p) \<le> 1" using assms by (rule live_tasks_at_most_one)
  with i show "live_tasks m p = [i]"
    by (cases "live_tasks m p") auto
next
  assume "live_tasks m p = [i]"
  then have "i \<in> set (live_tasks m p)" by simp
  then have "(task_key_of p, i) \<in> set (update_tasks m)"
    using assms by (auto simp: live_tasks_mem task_inv_def)
  moreover have "distinct (map fst (update_tasks m))"
    using assms by (simp add: task_inv_def)
  ultimately show "map_of (update_tasks m) (task_key_of p) = Some i"
    by (simp add: map_of_is_SomeI)
qed

lemma start_task_keys:
  "fst ` set (update_tasks (start_task p m)) = insert (task_key_of p) (fst ` set (update_tasks m))"
  by (auto simp: start_task_def)

lemma fold_start_task_keys:
  "fst ` set (update_tasks (fold (\<lambda>c. start_task (f c)) cs m)) =
     (task_key_of \<circ> f) ` set cs \<union> fst ` set (update_tasks m)"
  by (induction cs arbitrary: m) (auto simp: start_task_keys)

lemma start_update_tasks_key:
  assumes "poller_for t c = Some p" and "t = NEWS_UPDATES \<or> c \<in> set coins"
  shows "task_key_of p \<in> fst ` set (update_tasks (start_update_tasks t coins m))"
  using assms
  by (cases t) (auto simp: start_update_tasks_def start_task_keys fold_start_task_keys)

lemma subscribe_client_key:
  assumes "poller_for t c = Some p" and "t = NEWS_UPDATES \<or> c \<in> set coins"
  shows "task_key_of p \<in> fst ` set (update_tasks (subscribe_client h t coins now m))"
  using start_update_tasks_key [OF assms] by (simp add: subscribe_client_def Let_def)

section \<open>Teardown of pollers\<close>

lemma cleanup_entry_iff:
  "(k, i) \<in> set (update_tasks (cleanup_unused_tasks m)) \<longleftrightarrow>
     (k, i) \<in> set (update_tasks m) \<and> \<not> unused m k"
  by (auto simp: cleanup_unused_tasks_eq)

lemma cleanup_cancelled_iff:
  assumes "i < length (tasks m)"
  shows "cancelled (tasks (cleanup_unused_tasks m) ! i) \<longleftrightarrow>
     cancelled (tasks m ! i) \<or> (\<exists>k. (k, i) \<in> set (update_tasks m) \<and> unused m k)"
  using assms by (auto simp: cleanup_unused_tasks_eq fold_cancel_nth image_iff)

lemma py_replace_price_prefix:
  "py_replace ''price_'' '''' (''price_'' @ coin) = py_replace ''price_'' '''' coin"
  by (subst py_replace.simps) simp

lemma py_replace_indicators_prefix:
  "py_replace ''indicators_'' '''' (''indicators_'' @ coin) = py_replace ''indicators_'' '''' coin"
  by (subst py_replace.simps) simp

lemma unused_price_key:
  "unused m (task_key_of (PriceLoop coin)) =
     (\<not> has_subscribers m PRICE_UPDATES (py_replace ''price_'' '''' coin))"
  by (simp add: unused_def startswith_def py_replace_price_prefix [simplified])

lemma unused_indicators_key:
  "unused m (task_key_of (IndicatorsLoop coin)) =
     (\<not> has_subscribers m TECHNICAL_INDICATORS (py_replace ''indicators_'' '''' coin))"
  by (simp add: unused_def startswith_def py_replace_indicators_prefix [simplified])

lemma unused_news_key:
  "unused m (task_key_of NewsLoop) = (\<not> has_news_subscribers m)"
  by (simp add: unused_def startswith_def)

text \<open>
  What the cleanup does for a price poller: its entry stays in the task map exactly when some
  connected client subscribes to the coin that \<^verbatim>\<open>replace\<close> makes of the task key. For a
  coin that does not contain \<^verbatim>\<open>price_\<close> that is the coin itself, and then the poller is
  torn down exactly when the coin's last subscriber has gone.
\<close>

lemma cleanup_price_poller:
  "(task_key_of (PriceLoop coin), i) \<in> set (update_tasks (cleanup_unused_tasks m)) \<longleftrightarrow>
     (task_key_of (PriceLoop coin), i) \<in> set (update_tasks m)
     \<and> has_subscribers m PRICE_UPDATES (py_replace ''price_'' '''' coin)"
  by (simp only: cleanup_entry_iff unused_price_key) simp

lemma unsubscribe_price_poller:
  assumes "py_replace ''price_'' '''' coin = coin"
  shows "(task_key_of (PriceLoop coin), i) \<in> set (update_tasks (unsubscribe_client h t now m)) \<longleftrightarrow>
     (task_key_of (PriceLoop coin), i) \<in> set (update_tasks m)
     \<and> has_subscribers (unsubscribe_client h t now m) PRICE_UPDATES coin"
proof -
  define m2 where "m2 = send_personal_message
     (UnsubscriptionConfirmed (SubscriptionType_value t) now) h
     (update_client h (\<lambda>c. c\<lparr>subscriptions := subscriptions c - {t}\<rparr>) m)"
  have u: "unsubscribe_client h t now m = cleanup_unused_tasks m2"
    by (simp add: unsubscribe_client_def m2_def Let_def)
  have "has_subscribers (cleanup_unused_tasks m2) PRICE_UPDATES coin =
          has_subscribers m2 PRICE_UPDATES coin"
    by (rule has_subscribers_cong) simp_all
  moreover have "update_tasks m2 = update_tasks m" by (simp add: m2_def)
  ultimately show ?thesis
    unfolding u using assms by (simp only: cleanup_price_poller)
qed

lemma two_watchers_price_x_value:
  "two_watchers_price_x =
     \<lparr>clients =
        [\<lparr>client_id = ''A'',
          websocket = \<lparr>ws_open = True, ws_sent =
            [ConnectionEstablished ''A'' 0 available_subscriptions,
             SubscriptionConfirmed ''price_updates'' (Some {''price_x''}) 1]\<rparr>,
          subscriptions = {PRICE_UPDATES}, watched_coins = {''price_x''}, user_id = None\<rparr>,
         \<lparr>client_id = ''B'',
          websocket = \<lparr>ws_open = True, ws_sent =
            [ConnectionEstablished ''B'' 2 available_subscriptions,
             SubscriptionConfirmed ''price_updates'' (Some {''price_x''}) 3]\<rparr>,
          subscriptions = {PRICE_UPDATES}, watched_coins = {''price_x''}, user_id = None\<rparr>],
      active_connections = [0, 1],
      price_cache = Map.empty, last_update = Map.empty,
      update_tasks = [(''price_price_x'', 0)],
      tasks = [\<lparr>coro = PriceLoop ''price_x'', cancelled = False\<rparr>],
      log = []\<rparr>"
  unfolding two_watchers_price_x_def
  by (simp add: run_def WebSocketManager_init_def connect_def subscribe_client_def
      send_personal_message_def send_text_def update_client_def start_update_tasks_def
      start_task_def Let_def)

text \<open>
  C2 on the code, at a coin named \<^verbatim>\<open>price_x\<close>. Two clients subscribe to its price and
  one poller runs under the key \<^verbatim>\<open>price_price_x\<close>. When the first client unsubscribes,
  the second is still connected and subscribed to the coin, but the cleanup recovers the coin
  from the key as \<^verbatim>\<open>x\<close> (\<^verbatim>\<open>replace\<close> deletes both occurrences of
  \<^verbatim>\<open>price_\<close>), finds no subscriber of \<^verbatim>\<open>x\<close>, cancels the poller and removes it
  from the task map.
\<close>

theorem poller_torn_down_while_subscribed:
  "py_replace ''price_'' '''' ''price_price_x'' = ''x''
   \<and> update_tasks two_watchers_price_x = [(''price_price_x'', 0)]
   \<and> has_subscribers first_watcher_left PRICE_UPDATES ''price_x''
   \<and> active_connections first_watcher_left = [0, 1]
   \<and> PRICE_UPDATES \<in> subscriptions (clients first_watcher_left ! 1)
   \<and> ''price_x'' \<in> watched_coins (clients first_watcher_left ! 1)
   \<and> update_tasks first_watcher_left = []
   \<and> tasks first_watcher_left = [\<lparr>coro = PriceLoop ''price_x'', cancelled = True\<rparr>]"
  unfolding first_watcher_left_def
  by (simp add: two_watchers_price_x_value unsubscribe_client_def Let_def
      cleanup_unused_tasks_eq unused_def startswith_def py_replace.simps has_subscribers_def
      client_subscribed_def send_personal_message_def send_text_def update_client_def
      cancel_def)

section \<open>The query for current prices\<close>

lemma current_prices_loop_eq:
  "current_prices_loop cache elements acc =
     (if \<forall>x \<in> set elements. py_hashable x
      then Inr (\<lambda>name. if JStr name \<in> set elements \<and> cache name \<noteq> None
                        then cache name else acc name)
      else Inl TypeError)"
proof (induction elements arbitrary: acc)
  case Nil
  show ?case by simp
next
  case (Cons x xs)
  show ?case
  proof (cases "py_hashable x")
    case False
    then show ?thesis by simp
  next
    case True
    then show ?thesis
      by (cases x) (auto simp: Cons.IH fun_eq_iff split: option.splits)
  qed
qed

lemma current_prices_eq:
  "current_prices m coins =
     (case py_iter coins of
        Inl e \<Rightarrow> Inl e
      | Inr elements \<Rightarrow>
          if \<forall>x \<in> set elements. py_hashable x
          then Inr (price_cache m |` {name. JStr name \<in> set elements})
          else Inl TypeError)"
proof -
  have "(\<lambda>name. if JStr name \<in> set elements \<and> price_cache m name \<noteq> None
                 then price_cache m name else None) =
        price_cache m |` {name. JStr name \<in> set elements}" for elements
    by (auto simp: fun_eq_iff restrict_map_def)
  then show ?thesis
    by (simp add: current_prices_def current_prices_loop_eq split: sum.splits)
qed

lemma py_iter_error: "py_iter v = Inl e \<Longrightarrow> e = TypeError"
  by (cases v) simp_all

text \<open>
  C9, as the code has it. A \<^verbatim>\<open>get_current_prices\<close> request whose \<^verbatim>\<open>coins\<close> can be
  iterated and holds no list or dictionary (a list of strings in particular, or no
  \<^verbatim>\<open>coins\<close> at all) is answered with the price cache restricted to the strings among the
  elements: a coin is in the answer exactly when the cache has an entry for it, whatever the
  task map holds. A request whose \<^verbatim>\<open>coins\<close> cannot be iterated, or holds a list or a
  dictionary, is not answered: the endpoint prints the error and disconnects the connection.
  Subscribing, unsubscribing and disconnecting never touch the cache; a poller tick with a
  successful fetch stores the quote under the coin, and any other tick leaves the cache as it
  is. So an entry, once stored, stays and is returned after the poller is gone.
\<close>

theorem current_prices_come_from_cache:
  "(msg_type message = Some ''get_current_prices''
      \<and> py_iter (coins_of message) = Inr elements \<and> (\<forall>x \<in> set elements. py_hashable x) \<longrightarrow>
      websocket_endpoint_step h (Text message) now m =
        Some (True,
              send_personal_message
                (CurrentPrices (price_cache m |` {name. JStr name \<in> set elements}) now) h m))
   \<and> (msg_type message = Some ''get_current_prices''
      \<and> (py_iter (coins_of message) = Inl e
          \<or> py_iter (coins_of message) = Inr elements \<and> \<not> (\<forall>x \<in> set elements. py_hashable x)) \<longrightarrow>
      websocket_endpoint_step h (Text message) now m =
        Some (False, disconnect h (printed_error m)))
   \<and> price_cache (subscribe_client h t coins now m) = price_cache m
   \<and> price_cache (unsubscribe_client h t now m) = price_cache m
   \<and> price_cache (disconnect h m) = price_cache m
   \<and> (has_subscribers m PRICE_UPDATES coin \<and> fst (fetch_price_data coin r) = Some d \<longrightarrow>
        price_cache (snd (price_update_iteration coin r now m)) = (price_cache m)(coin \<mapsto> d))
   \<and> (fst (fetch_price_data coin r) = None \<longrightarrow>
        price_cache (snd (price_update_iteration coin r now m)) = price_cache m)"
proof -
  have ne: "''get_current_prices'' \<noteq> ''subscribe''" "''get_current_prices'' \<noteq> ''unsubscribe''"
    "''get_current_prices'' \<noteq> ''ping''"
    by simp_all
  have a: "websocket_endpoint_step h (Text message) now m =
        Some (True,
              send_personal_message
                (CurrentPrices (price_cache m |` {name. JStr name \<in> set elements}) now) h m)"
    if "msg_type message = Some ''get_current_prices''"
      "py_iter (coins_of message) = Inr elements" "\<forall>x \<in> set elements. py_hashable x"
    using that ne by (simp add: websocket_endpoint_step_def current_prices_eq)
  have b: "websocket_endpoint_step h (Text message) now m =
        Some (False, disconnect h (printed_error m))"
    if "msg_type message = Some ''get_current_prices''"
      "py_iter (coins_of message) = Inl e
       \<or> py_iter (coins_of message) = Inr elements \<and> \<not> (\<forall>x \<in> set elements. py_hashable x)"
    using that ne by (auto simp: websocket_endpoint_step_def current_prices_eq)
  show ?thesis
    using a b by (simp add: price_update_iteration_cache)
qed

theorem current_prices_come_from_cache_witness:
  "msg_type \<lparr>msg_type = Some ''get_current_prices'', msg_subscription_type = None,
             msg_coins = Some (JArr [JStr ''bitcoin'', JNum 7])\<rparr> = Some ''get_current_prices''
   \<and> py_iter (coins_of \<lparr>msg_type = Some ''get_current_prices'', msg_subscription_type = None,
             msg_coins = Some (JArr [JStr ''bitcoin'', JNum 7])\<rparr>) = Inr [JStr ''bitcoin'', JNum 7]
   \<and> py_hashable (JStr ''bitcoin'') \<and> py_hashable (JNum 7)
   \<and> websocket_endpoint_step 0
        (Text \<lparr>msg_type = Some ''get_current_prices'', msg_subscription_type = None,
               msg_coins = Some (JArr [JStr ''bitcoin'', JNum 7])\<rparr>) 5 fetched_then_unsubscribed =
        Some (True,
              send_personal_message
                (CurrentPrices (price_cache fetched_then_unsubscribed
                   |` {name. JStr name \<in> set [JStr ''bitcoin'', JNum 7]}) 5) 0
                fetched_then_unsubscribed)
   \<and> py_iter (coins_of \<lparr>msg_type = Some ''get_current_prices'', msg_subscription_type = None,
             msg_coins = Some JNull\<rparr>) = Inl TypeError
   \<and> websocket_endpoint_step 0
        (Text \<lparr>msg_type = Some ''get_current_prices'', msg_subscription_type = None,
               msg_coins = Some JNull\<rparr>) 5 fetched_then_unsubscribed =
        Some (False, disconnect 0 (printed_error fetched_then_unsubscribed))
   \<and> has_subscribers one_watcher PRICE_UPDATES ''bitcoin''
   \<and> fst (fetch_price_data ''bitcoin'' bitcoin_quote) =
       Some \<lparr>price = 98500, price_change_24h = 2, volume_24h = 1000, market_cap = 5000\<rparr>
   \<and> fst (fetch_price_data ''bitcoin'' HttpRaises) = None
   \<and> price_cache (snd (price_update_iteration ''bitcoin'' bitcoin_quote 2 one_watcher)) ''bitcoin'' =
       Some \<lparr>price = 98500, price_change_24h = 2, volume_24h = 1000, market_cap = 5000\<rparr>
   \<and> price_cache (snd (price_update_iteration ''bitcoin'' HttpRaises 2 one_watcher)) =
       price_cache one_watcher"
proof -
  let ?ask = "\<lparr>msg_type = Some ''get_current_prices'', msg_subscription_type = None,
             msg_coins = Some (JArr [JStr ''bitcoin'', JNum 7])\<rparr>"
  let ?bad = "\<lparr>msg_type = Some ''get_current_prices'', msg_subscription_type = None,
             msg_coins = Some JNull\<rparr>"
  have t: "msg_type ?ask = Some ''get_current_prices''" "msg_type ?bad = Some ''get_current_prices''"
    by simp_all
  have i: "py_iter (coins_of ?ask) = Inr [JStr ''bitcoin'', JNum 7]"
    and j: "py_iter (coins_of ?bad) = Inl TypeError"
    and hh: "\<forall>x \<in> set [JStr ''bitcoin'', JNum 7]. py_hashable x"
    by (simp_all add: coins_of_def)
  have q: "fst (fetch_price_data ''bitcoin'' bitcoin_quote) =
      Some \<lparr>price = 98500, price_change_24h = 2, volume_24h = 1000, market_cap = 5000\<rparr>"
    by (simp add: bitcoin_quote_fetch)
  have n: "fst (fetch_price_data ''bitcoin'' HttpRaises) = None"
    by (simp add: fetch_price_data_def)
  show ?thesis
    using t i j hh q n one_watcher_has_subscribers
      current_prices_come_from_cache [where message = ?ask
        and elements = "[JStr ''bitcoin'', JNum 7]" and h = 0 and now = 5
        and m = fetched_then_unsubscribed]
      current_prices_come_from_cache [where message = ?bad and e = TypeError and h = 0
        and now = 5 and m = fetched_then_unsubscribed]
      current_prices_come_from_cache [where m = one_watcher and coin = "''bitcoin''"
        and r = bitcoin_quote and now = 2
        and d = "\<lparr>price = 98500, price_change_24h = 2, volume_24h = 1000, market_cap = 5000\<rparr>"]
      current_prices_come_from_cache [where m = one_watcher and coin = "''bitcoin''"
        and r = HttpRaises and now = 2]
    by simp
qed

text \<open>
  C9 as stated fails: after the only subscriber of bitcoin prices has left, the poller is
  cancelled and gone from the task map, and the query for bitcoin is still answered with the
  quote fetched earlier, not with an empty result.
\<close>

theorem stale_price_after_poller_removed:
  "map_of (update_tasks fetched_then_unsubscribed) ''price_bitcoin'' = None
   \<and> \<not> isl (current_prices fetched_then_unsubscribed (JArr [JStr ''bitcoin'']))
   \<and> projr (current_prices fetched_then_unsubscribed (JArr [JStr ''bitcoin''])) ''bitcoin'' =
       Some \<lparr>price = 98500, price_change_24h = 2, volume_24h = 1000, market_cap = 5000\<rparr>"
  by (simp add: fetched_then_unsubscribed_value current_prices_eq)

section \<open>Subscribe requests that are not well formed\<close>

text \<open>
  A subscribe request with a known feed type and a number under \<^verbatim>\<open>coins\<close>: the
  subscription type is added, \<^verbatim>\<open>watched_coins.update\<close> raises, and the endpoint
  disconnects the connection without a confirmation. The same happens at a list or a
  dictionary among the elements, after the strings in front of it have been added.
\<close>

lemma subscribe_with_number_disconnects:
  assumes "msg_type message = Some ''subscribe''"
    and "msg_subscription_type message = Some (SubscriptionType_value t)"
    and "msg_coins message = Some (JNum n)" and "n \<noteq> 0"
  shows "websocket_endpoint_step h (Text message) now m =
     Some (False,
           disconnect h (printed_error
             (update_client h (\<lambda>c. c\<lparr>subscriptions := insert t (subscriptions c)\<rparr>) m)))"
  using assms
  by (simp add: websocket_endpoint_step_def SubscriptionType_lookup_value coins_of_def
      subscribe_client_json_def)

lemma subscribe_with_nested_list_disconnects:
  assumes "msg_type message = Some ''subscribe''"
    and "msg_subscription_type message = Some (SubscriptionType_value t)"
    and "msg_coins message = Some (JArr [JStr name, JArr xs])"
  shows "websocket_endpoint_step h (Text message) now m =
     Some (False,
           disconnect h (printed_error
             (update_client h (\<lambda>c. c\<lparr>watched_coins := watched_coins c \<union> {name}\<rparr>)
                (update_client h (\<lambda>c. c\<lparr>subscriptions := insert t (subscriptions c)\<rparr>) m))))"
  using assms
  by (simp add: websocket_endpoint_step_def SubscriptionType_lookup_value coins_of_def
      subscribe_client_json_def)

lemma leading_names_strings: "leading_names (map JStr names) = (names, [])"
  by (induction names) simp_all

lemma subscribe_with_names:
  assumes "msg_type message = Some ''subscribe''"
    and "msg_subscription_type message = Some (SubscriptionType_value t)"
    and "msg_coins message = Some (JArr (map JStr names))"
  shows "websocket_endpoint_step h (Text message) now m =
     Some (True, subscribe_client h t names now m)"
  using assms
  by (cases "names = []")
    (simp_all add: websocket_endpoint_step_def SubscriptionType_lookup_value coins_of_def
      subscribe_client_json_def leading_names_strings)

section \<open>The unknown feed type at the endpoint\<close>

text \<open>
  C8, as the code has it. A subscribe request whose feed type is none of the five values of
  the enumeration makes \<^verbatim>\<open>SubscriptionType(...)\<close> raise before
  \<^verbatim>\<open>subscribe_client\<close> is called and before \<^verbatim>\<open>coins\<close> is looked at: no client
  object changes (no subscription is added, nothing is sent, so the client is told of no
  error), no task is created and no key is added to the task map. The endpoint's handler then
  prints the error, disconnects the connection and ends the receive loop: the result is that
  of \<^verbatim>\<open>disconnect\<close>.
\<close>

theorem unknown_feed_type_disconnects:
  assumes "msg_type message = Some ''subscribe''"
    and "\<forall>t. msg_subscription_type message \<noteq> Some (SubscriptionType_value t)"
  shows "websocket_endpoint_step h (Text message) now m =
           Some (False, disconnect h (printed_error m))
       \<and> clients (snd (the (websocket_endpoint_step h (Text message) now m))) = clients m
       \<and> length (tasks (snd (the (websocket_endpoint_step h (Text message) now m))))
           = length (tasks m)
       \<and> set (update_tasks (snd (the (websocket_endpoint_step h (Text message) now m))))
            \<subseteq> set (update_tasks m)
       \<and> set (active_connections (snd (the (websocket_endpoint_step h (Text message) now m))))
            \<subseteq> set (active_connections m)"
proof -
  have s: "websocket_endpoint_step h (Text message) now m =
      Some (False, disconnect h (printed_error m))"
    using assms by (simp add: websocket_endpoint_step_def SubscriptionType_lookup_unknown)
  have p: "clients (printed_error m) = clients m" "tasks (printed_error m) = tasks m"
    "update_tasks (printed_error m) = update_tasks m"
    "active_connections (printed_error m) = active_connections m"
    by (simp_all add: printed_error_def)
  show ?thesis
    using disconnect_tasks [of h "printed_error m"] disconnect_fields(4) [of h "printed_error m"]
    by (simp add: s p)
qed

theorem unknown_feed_type_disconnects_witness:
  "msg_type \<lparr>msg_type = Some ''subscribe'', msg_subscription_type = Some ''order_book'',
             msg_coins = Some (JArr [JStr ''bitcoin''])\<rparr> = Some ''subscribe''
   \<and> (\<forall>t. msg_subscription_type \<lparr>msg_type = Some ''subscribe'',
             msg_subscription_type = Some ''order_book'',
             msg_coins = Some (JArr [JStr ''bitcoin''])\<rparr>
           \<noteq> Some (SubscriptionType_value t))
   \<and> websocket_endpoint_step 0
        (Text \<lparr>msg_type = Some ''subscribe'', msg_subscription_type = Some ''order_book'',
               msg_coins = Some (JArr [JStr ''bitcoin''])\<rparr>) 2 one_watcher
      = Some (False, disconnect 0 (printed_error one_watcher))"
proof -
  let ?msg = "\<lparr>msg_type = Some ''subscribe'', msg_subscription_type = Some ''order_book'',
             msg_coins = Some (JArr [JStr ''bitcoin''])\<rparr>"
  have a: "msg_type ?msg = Some ''subscribe''"
    by simp
  have b: "\<forall>t. msg_subscription_type ?msg \<noteq> Some (SubscriptionType_value t)"
  proof
    fix t show "msg_subscription_type ?msg \<noteq> Some (SubscriptionType_value t)"
      by (cases t) simp_all
  qed
  show ?thesis
    using a b unknown_feed_type_disconnects [OF a b, of 0 2 one_watcher] by blast
qed

text \<open>
  C8 as stated fails: the request with the unknown feed type \<^verbatim>\<open>order_book\<close> changes
  the registry. The connection that sent it is removed from \<^verbatim>\<open>active_connections\<close>,
  its poller is cancelled and removed from the task map, and nothing is sent to the client.
\<close>

theorem unknown_feed_type_mutates_registry:
  "active_connections one_watcher = [0]
   \<and> update_tasks one_watcher = [(''price_bitcoin'', 0)]
   \<and> active_connections (snd (the (websocket_endpoint_step 0
        (Text \<lparr>msg_type = Some ''subscribe'', msg_subscription_type = Some ''order_book'',
               msg_coins = Some (JArr [JStr ''bitcoin''])\<rparr>) 2 one_watcher))) = []
   \<and> update_tasks (snd (the (websocket_endpoint_step 0
        (Text \<lparr>msg_type = Some ''subscribe'', msg_subscription_type = Some ''order_book'',
               msg_coins = Some (JArr [JStr ''bitcoin''])\<rparr>) 2 one_watcher))) = []
   \<and> tasks (snd (the (websocket_endpoint_step 0
        (Text \<lparr>msg_type = Some ''subscribe'', msg_subscription_type = Some ''order_book'',
               msg_coins = Some (JArr [JStr ''bitcoin''])\<rparr>) 2 one_watcher)))
       = [\<lparr>coro = PriceLoop ''bitcoin'', cancelled = True\<rparr>]
   \<and> ws_sent (websocket (clients (snd (the (websocket_endpoint_step 0
        (Text \<lparr>msg_type = Some ''subscribe'', msg_subscription_type = Some ''order_book'',
               msg_coins = Some (JArr [JStr ''bitcoin''])\<rparr>) 2 one_watcher))) ! 0))
       = ws_sent (websocket (clients one_watcher ! 0))"
  by (simp add: websocket_endpoint_step_def SubscriptionType_lookup_def printed_error_def
      disconnect_def cleanup_unused_tasks_eq one_watcher_value unused_def startswith_def
      py_replace.simps has_subscribers_def cancel_def)

section \<open>The three pollers at a failed fetch\<close>

text \<open>
  The price poller: while the coin has a subscriber, a run of failed fetches of any length
  leaves the poller in its loop, delivers nothing, creates, cancels and removes no task and
  leaves the cache alone, and the wait after every failed tick is 30 seconds; a successful fetch
  after the failures stores the quote, waits 30 seconds, and the update reaches every connected
  subscriber of the coin whose transport is open.
\<close>

lemma price_loop_failures_then_success:
  assumes "has_subscribers m PRICE_UPDATES coin"
    and "\<forall>tick \<in> set ticks. fst (fetch_price_data coin (fst tick)) = None"
  shows "fst (price_update_loop coin ticks m) = replicate (length ticks) (Sleep 30)
       \<and> clients (snd (price_update_loop coin ticks m)) = clients m
       \<and> update_tasks (snd (price_update_loop coin ticks m)) = update_tasks m
       \<and> tasks (snd (price_update_loop coin ticks m)) = tasks m
       \<and> price_cache (snd (price_update_loop coin ticks m)) = price_cache m
       \<and> (fst (fetch_price_data coin r) = Some d \<longrightarrow>
            fst (price_update_iteration coin r now (snd (price_update_loop coin ticks m))) = Sleep 30
            \<and> price_cache (snd (price_update_iteration coin r now
                  (snd (price_update_loop coin ticks m)))) coin = Some d
            \<and> (distinct (active_connections m) \<and> h < length (clients m)
                 \<and> h \<in> set (active_connections m)
                 \<and> client_subscribed (clients m ! h) PRICE_UPDATES coin
                 \<and> ws_open (websocket (clients m ! h)) \<longrightarrow>
                 ws_sent (websocket (clients (snd (price_update_iteration coin r now
                    (snd (price_update_loop coin ticks m)))) ! h)) =
                 ws_sent (websocket (clients m ! h)) @ [PriceUpdate coin d now]))"
proof -
  define m' where "m' = snd (price_update_loop coin ticks m)"
  have L: "fst (price_update_loop coin ticks m) = replicate (length ticks) (Sleep 30)"
    "clients m' = clients m" "active_connections m' = active_connections m"
    "update_tasks m' = update_tasks m" "tasks m' = tasks m" "price_cache m' = price_cache m"
    using price_update_loop_failures [OF assms] by (simp_all add: m'_def)
  have hs: "has_subscribers m' PRICE_UPDATES coin"
    using assms(1) L by (simp add: has_subscribers_def)
  have S: "fst (price_update_iteration coin r now m') = Sleep 30
            \<and> price_cache (snd (price_update_iteration coin r now m')) coin = Some d
            \<and> (distinct (active_connections m) \<and> h < length (clients m)
                 \<and> h \<in> set (active_connections m)
                 \<and> client_subscribed (clients m ! h) PRICE_UPDATES coin
                 \<and> ws_open (websocket (clients m ! h)) \<longrightarrow>
                 ws_sent (websocket (clients (snd (price_update_iteration coin r now m')) ! h)) =
                 ws_sent (websocket (clients m ! h)) @ [PriceUpdate coin d now])"
    if "fst (fetch_price_data coin r) = Some d"
  proof -
    from that obtain logged where f: "fetch_price_data coin r = (Some d, logged)"
      by (cases "fetch_price_data coin r") auto
    show ?thesis
      using hs f L(2,3)
      by (auto simp: price_update_iteration_eq broadcast_sent client_subscribed_def)
  qed
  show ?thesis
    using L S unfolding m'_def by blast
qed

lemma indicators_update_iteration_eq:
  "indicators_update_iteration coin tick now m =
     (if \<not> has_subscribers m TECHNICAL_INDICATORS coin then (Break, m)
      else case tick of
        BodyRaises e \<Rightarrow>
          (Sleep 300, m\<lparr>log := log m @ [LogError ''Error in indicators update loop'']\<rparr>)
      | HistoryFailed \<Rightarrow> (Sleep 120, m)
      | Analysed ind \<Rightarrow>
          (Sleep 120,
           broadcast_to_subscribers (TechnicalIndicatorsUpdate coin ind now)
             TECHNICAL_INDICATORS (Some coin) m))"
  by (simp add: indicators_update_iteration_def indicators_update_try_def
      split: indicators_tick.splits)

lemma indicators_update_loop_failures:
  assumes "has_subscribers m TECHNICAL_INDICATORS coin"
    and "\<forall>tick \<in> set ticks. \<forall>ind. fst tick \<noteq> Analysed ind"
  shows "fst (indicators_update_loop coin ticks m) =
           map (\<lambda>tick. if fst tick = HistoryFailed then Sleep 120 else Sleep 300) ticks
       \<and> clients (snd (indicators_update_loop coin ticks m)) = clients m
       \<and> active_connections (snd (indicators_update_loop coin ticks m)) = active_connections m
       \<and> update_tasks (snd (indicators_update_loop coin ticks m)) = update_tasks m
       \<and> tasks (snd (indicators_update_loop coin ticks m)) = tasks m"
  using assms
proof (induction ticks arbitrary: m)
  case Nil
  show ?case by simp
next
  case (Cons tick ticks)
  obtain k now where tick: "tick = (k, now)" by (cases tick)
  define m1 where "m1 = snd (indicators_update_iteration coin k now m)"
  have k: "\<forall>ind. k \<noteq> Analysed ind" using Cons.prems(2) tick by simp
  have it: "indicators_update_iteration coin k now m =
              (if k = HistoryFailed then Sleep 120 else Sleep 300, m1)"
    and same: "clients m1 = clients m" "active_connections m1 = active_connections m"
      "update_tasks m1 = update_tasks m" "tasks m1 = tasks m"
    using Cons.prems(1) k unfolding m1_def
    by (cases k; simp add: indicators_update_iteration_eq)+
  have "has_subscribers m1 TECHNICAL_INDICATORS coin"
    using Cons.prems(1) same by (simp add: has_subscribers_def)
  moreover have "\<forall>tick \<in> set ticks. \<forall>ind. fst tick \<noteq> Analysed ind"
    using Cons.prems(2) by simp
  ultimately have IH: "fst (indicators_update_loop coin ticks m1) =
           map (\<lambda>tick. if fst tick = HistoryFailed then Sleep 120 else Sleep 300) ticks
       \<and> clients (snd (indicators_update_loop coin ticks m1)) = clients m1
       \<and> active_connections (snd (indicators_update_loop coin ticks m1)) = active_connections m1
       \<and> update_tasks (snd (indicators_update_loop coin ticks m1)) = update_tasks m1
       \<and> tasks (snd (indicators_update_loop coin ticks m1)) = tasks m1"
    by (rule Cons.IH)
  show ?case
    using IH same
    by (cases "indicators_update_loop coin ticks m1") (simp add: tick it)
qed

text \<open>
  The indicators poller: while the coin has a subscriber, a run of ticks without an analysis
  leaves the poller in its loop, delivers nothing and touches no task; the wait is the usual
  120 seconds after a history that failed and 300 seconds after an exception, whatever came
  before. An analysis after them is delivered to every connected subscriber of the coin whose
  transport is open, and the wait is 120 seconds.
\<close>

lemma indicators_loop_failures_then_success:
  assumes "has_subscribers m TECHNICAL_INDICATORS coin"
    and "\<forall>tick \<in> set ticks. \<forall>ind. fst tick \<noteq> Analysed ind"
  shows "fst (indicators_update_loop coin ticks m) =
           map (\<lambda>tick. if fst tick = HistoryFailed then Sleep 120 else Sleep 300) ticks
       \<and> clients (snd (indicators_update_loop coin ticks m)) = clients m
       \<and> update_tasks (snd (indicators_update_loop coin ticks m)) = update_tasks m
       \<and> tasks (snd (indicators_update_loop coin ticks m)) = tasks m
       \<and> fst (indicators_update_iteration coin (Analysed ind) now
                (snd (indicators_update_loop coin ticks m))) = Sleep 120
       \<and> (distinct (active_connections m) \<and> h < length (clients m)
            \<and> h \<in> set (active_connections m)
            \<and> client_subscribed (clients m ! h) TECHNICAL_INDICATORS coin
            \<and> ws_open (websocket (clients m ! h)) \<longrightarrow>
            ws_sent (websocket (clients (snd (indicators_update_iteration coin (Analysed ind) now
               (snd (indicators_update_loop coin ticks m)))) ! h)) =
            ws_sent (websocket (clients m ! h)) @ [TechnicalIndicatorsUpdate coin ind now])"
proof -
  define m' where "m' = snd (indicators_update_loop coin ticks m)"
  have L: "fst (indicators_update_loop coin ticks m) =
           map (\<lambda>tick. if fst tick = HistoryFailed then Sleep 120 else Sleep 300) ticks"
    "clients m' = clients m" "active_connections m' = active_connections m"
    "update_tasks m' = update_tasks m" "tasks m' = tasks m"
    using indicators_update_loop_failures [OF assms] by (simp_all add: m'_def)
  have hs: "has_subscribers m' TECHNICAL_INDICATORS coin"
    using assms(1) L by (simp add: has_subscribers_def)
  have S: "fst (indicators_update_iteration coin (Analysed ind) now m') = Sleep 120
       \<and> (distinct (active_connections m) \<and> h < length (clients m)
            \<and> h \<in> set (active_connections m)
            \<and> client_subscribed (clients m ! h) TECHNICAL_INDICATORS coin
            \<and> ws_open (websocket (clients m ! h)) \<longrightarrow>
            ws_sent (websocket (clients (snd (indicators_update_iteration coin (Analysed ind) now
               m')) ! h)) =
            ws_sent (websocket (clients m ! h)) @ [TechnicalIndicatorsUpdate coin ind now])"
    using hs L(2,3)
    by (auto simp: indicators_update_iteration_eq broadcast_sent client_subscribed_def)
  show ?thesis
    using L S unfolding m'_def by blast
qed

lemma get_crypto_news_failed:
  "news_fetch_failed fetch \<Longrightarrow> fst (get_crypto_news fetch limit now) = get_mock_news limit now"
  by (cases fetch) (simp_all add: get_crypto_news_def)

lemma mock_news_new:
  assumes "last_check < now"
  shows "\<exists>rest. new_articles_since last_check (get_mock_news 10 now) =
           Inr (\<lparr>title = ''Bitcoin Surges to New All-Time High Amid Institutional Adoption'',
                 url = ''https://example.com/bitcoin-ath'', published_at = Naive now\<rparr> # rest)"
  using assms by (simp add: get_mock_news_def published_after_def)

lemma has_news_subscribers_cong:
  "active_connections m' = active_connections m \<Longrightarrow>
   (\<And>h. subscriptions (clients m' ! h) = subscriptions (clients m ! h)) \<Longrightarrow>
   has_news_subscribers m' = has_news_subscribers m"
  by (simp add: has_news_subscribers_def)

lemma news_update_iteration_eq:
  "news_update_iteration tick now last_check m =
     (if \<not> has_news_subscribers m then (Break, last_check, m)
      else case tick of
        NewsBodyRaises e \<Rightarrow>
          (Sleep 600, last_check, m\<lparr>log := log m @ [LogError ''Error in news update loop'']\<rparr>)
      | Fetched fetch \<Rightarrow>
          (case new_articles_since last_check (fst (get_crypto_news fetch 10 now)) of
             Inl e \<Rightarrow>
               (Sleep 600, last_check,
                m\<lparr>log := log m @ snd (get_crypto_news fetch 10 now)
                          @ [LogError ''Error in news update loop'']\<rparr>)
           | Inr new_articles \<Rightarrow>
               (Sleep 300, now,
                if new_articles \<noteq> []
                then broadcast_to_subscribers (NewsUpdate new_articles (length new_articles) now)
                       NEWS_UPDATES None (m\<lparr>log := log m @ snd (get_crypto_news fetch 10 now)\<rparr>)
                else m\<lparr>log := log m @ snd (get_crypto_news fetch 10 now)\<rparr>)))"
  by (simp add: news_update_iteration_def news_update_try_def
      split: news_tick.splits prod.splits sum.splits)

lemma news_iteration_keeps:
  "update_tasks (snd (snd (news_update_iteration tick now last_check m))) = update_tasks m
   \<and> tasks (snd (snd (news_update_iteration tick now last_check m))) = tasks m
   \<and> active_connections (snd (snd (news_update_iteration tick now last_check m)))
       = active_connections m
   \<and> has_news_subscribers (snd (snd (news_update_iteration tick now last_check m)))
       = has_news_subscribers m
   \<and> (has_news_subscribers m \<longrightarrow>
        fst (news_update_iteration tick now last_check m) \<noteq> Break)"
  by (auto simp: news_update_iteration_eq has_news_subscribers_def
      split: news_tick.splits sum.splits)

text \<open>
  The news poller, while the news have a subscriber. When the fetch fails the mock news take
  the place of the fetched ones: those newer than the last check, the first of them at least,
  are broadcast to the connected subscribers of the news, and the wait is the usual 300
  seconds. When the body raises (the import, or an article whose time has a zone or does not
  parse) nothing is delivered, the last check stays and the wait is 600 seconds, whatever
  came before. No tick ends the loop or touches a task.
\<close>

lemma news_iteration_at_failures:
  assumes "has_news_subscribers m"
  shows "(news_fetch_failed fetch \<and> last_check < now \<longrightarrow>
            fst (news_update_iteration (Fetched fetch) now last_check m) = Sleep 300
            \<and> projr (new_articles_since last_check (get_mock_news 10 now)) \<noteq> []
            \<and> (distinct (active_connections m) \<and> h < length (clients m)
                 \<and> h \<in> set (active_connections m)
                 \<and> NEWS_UPDATES \<in> subscriptions (clients m ! h)
                 \<and> ws_open (websocket (clients m ! h)) \<longrightarrow>
                 ws_sent (websocket (clients (snd (snd
                    (news_update_iteration (Fetched fetch) now last_check m))) ! h)) =
                 ws_sent (websocket (clients m ! h))
                 @ [NewsUpdate (projr (new_articles_since last_check (get_mock_news 10 now)))
                      (length (projr (new_articles_since last_check (get_mock_news 10 now))))
                      now]))
       \<and> (new_articles_since last_check (fst (get_crypto_news fetch' 10 now)) = Inl e \<longrightarrow>
            fst (news_update_iteration (Fetched fetch') now last_check m) = Sleep 600
            \<and> fst (snd (news_update_iteration (Fetched fetch') now last_check m)) = last_check
            \<and> clients (snd (snd (news_update_iteration (Fetched fetch') now last_check m)))
                = clients m)
       \<and> fst (news_update_iteration (NewsBodyRaises e') now last_check m) = Sleep 600
       \<and> clients (snd (snd (news_update_iteration (NewsBodyRaises e') now last_check m)))
           = clients m
       \<and> fst (news_update_iteration tick now last_check m) \<noteq> Break
       \<and> update_tasks (snd (snd (news_update_iteration tick now last_check m))) = update_tasks m
       \<and> tasks (snd (snd (news_update_iteration tick now last_check m))) = tasks m
       \<and> has_news_subscribers (snd (snd (news_update_iteration tick now last_check m)))"
proof -
  have F: "fst (news_update_iteration (Fetched fetch) now last_check m) = Sleep 300
            \<and> projr (new_articles_since last_check (get_mock_news 10 now)) \<noteq> []
            \<and> (distinct (active_connections m) \<and> h < length (clients m)
                 \<and> h \<in> set (active_connections m)
                 \<and> NEWS_UPDATES \<in> subscriptions (clients m ! h)
                 \<and> ws_open (websocket (clients m ! h)) \<longrightarrow>
                 ws_sent (websocket (clients (snd (snd
                    (news_update_iteration (Fetched fetch) now last_check m))) ! h)) =
                 ws_sent (websocket (clients m ! h))
                 @ [NewsUpdate (projr (new_articles_since last_check (get_mock_news 10 now)))
                      (length (projr (new_articles_since last_check (get_mock_news 10 now))))
                      now])"
    if ff: "news_fetch_failed fetch" and lt: "last_check < now"
  proof -
    obtain a rest where n: "new_articles_since last_check (get_mock_news 10 now) = Inr (a # rest)"
      using mock_news_new [OF lt] by blast
    have g: "fst (get_crypto_news fetch 10 now) = get_mock_news 10 now"
      using ff by (rule get_crypto_news_failed)
    show ?thesis
      using assms by (simp add: news_update_iteration_eq g n broadcast_sent truthy_def)
  qed
  have E: "fst (news_update_iteration (Fetched fetch') now last_check m) = Sleep 600
            \<and> fst (snd (news_update_iteration (Fetched fetch') now last_check m)) = last_check
            \<and> clients (snd (snd (news_update_iteration (Fetched fetch') now last_check m)))
                = clients m"
    if "new_articles_since last_check (fst (get_crypto_news fetch' 10 now)) = Inl e"
    using assms that by (simp add: news_update_iteration_eq)
  have B: "fst (news_update_iteration (NewsBodyRaises e') now last_check m) = Sleep 600
       \<and> clients (snd (snd (news_update_iteration (NewsBodyRaises e') now last_check m)))
           = clients m"
    using assms by (simp add: news_update_iteration_eq)
  show ?thesis
    using F E B news_iteration_keeps [of tick now last_check m] assms by blast
qed

lemma indicators_watcher_value:
  "clients indicators_watcher =
     [\<lparr>client_id = ''A'',
       websocket = \<lparr>ws_open = True, ws_sent =
         [ConnectionEstablished ''A'' 0 available_subscriptions,
          SubscriptionConfirmed ''technical_indicators'' (Some {''bitcoin''}) 1]\<rparr>,
       subscriptions = {TECHNICAL_INDICATORS}, watched_coins = {''bitcoin''}, user_id = None\<rparr>]
   \<and> active_connections indicators_watcher = [0]
   \<and> update_tasks indicators_watcher = [(''indicators_bitcoin'', 0)]
   \<and> tasks indicators_watcher = [\<lparr>coro = IndicatorsLoop ''bitcoin'', cancelled = False\<rparr>]"
  unfolding indicators_watcher_def
  by (simp add: run_def WebSocketManager_init_def connect_def subscribe_client_def
      send_personal_message_def send_text_def update_client_def start_update_tasks_def
      start_task_def Let_def)

lemma news_watcher_value:
  "clients news_watcher =
     [\<lparr>client_id = ''A'',
       websocket = \<lparr>ws_open = True, ws_sent =
         [ConnectionEstablished ''A'' 0 available_subscriptions,
          SubscriptionConfirmed ''news_updates'' None 1]\<rparr>,
       subscriptions = {NEWS_UPDATES}, watched_coins = {}, user_id = None\<rparr>]
   \<and> active_connections news_watcher = [0]
   \<and> update_tasks news_watcher = [(''news_updates'', 0)]
   \<and> tasks news_watcher = [\<lparr>coro = NewsLoop, cancelled = False\<rparr>]"
  unfolding news_watcher_def
  by (simp add: run_def WebSocketManager_init_def connect_def subscribe_client_def
      send_personal_message_def send_text_def update_client_def start_update_tasks_def
      start_task_def Let_def)

text \<open>
  C4, as the code has it, for the three pollers. A poller whose feed key has a subscriber is
  never torn down by a failed fetch, and no task is created, cancelled or removed by a tick;
  but nothing counts failures and no interval grows with them.
  \<^item> Price poller: a run of failed fetches of any length delivers nothing and the wait after
    each is the same 30 seconds as after a success; a success after them stores the quote,
    reaches the coin's connected subscribers and waits 30 seconds.
  \<^item> Indicators poller: a run of ticks without an analysis delivers nothing; the wait is the
    usual 120 seconds after a failed history and a fixed 300 seconds after an exception in the
    body; an analysis after them reaches the coin's connected subscribers and the wait is 120
    seconds.
  \<^item> News poller: a failed fetch is answered with the mock news, and those newer than the
    last check (the first of them at least) are delivered to the connected subscribers of the
    news, with the usual wait of 300 seconds; an exception in the body delivers nothing, keeps
    the last check and waits a fixed 600 seconds.
\<close>

theorem pollers_survive_failed_fetches:
  "(has_subscribers m PRICE_UPDATES coin
      \<and> (\<forall>tick \<in> set ticks. fst (fetch_price_data coin (fst tick)) = None) \<longrightarrow>
      fst (price_update_loop coin ticks m) = replicate (length ticks) (Sleep 30)
      \<and> clients (snd (price_update_loop coin ticks m)) = clients m
      \<and> update_tasks (snd (price_update_loop coin ticks m)) = update_tasks m
      \<and> tasks (snd (price_update_loop coin ticks m)) = tasks m
      \<and> price_cache (snd (price_update_loop coin ticks m)) = price_cache m
      \<and> (fst (fetch_price_data coin r) = Some d \<longrightarrow>
           fst (price_update_iteration coin r now (snd (price_update_loop coin ticks m))) = Sleep 30
           \<and> price_cache (snd (price_update_iteration coin r now
                 (snd (price_update_loop coin ticks m)))) coin = Some d
           \<and> (distinct (active_connections m) \<and> h < length (clients m)
                \<and> h \<in> set (active_connections m)
                \<and> client_subscribed (clients m ! h) PRICE_UPDATES coin
                \<and> ws_open (websocket (clients m ! h)) \<longrightarrow>
                ws_sent (websocket (clients (snd (price_update_iteration coin r now
                   (snd (price_update_loop coin ticks m)))) ! h)) =
                ws_sent (websocket (clients m ! h)) @ [PriceUpdate coin d now])))
   \<and> (has_subscribers mi TECHNICAL_INDICATORS icoin
      \<and> (\<forall>tick \<in> set iticks. \<forall>ind. fst tick \<noteq> Analysed ind) \<longrightarrow>
      fst (indicators_update_loop icoin iticks mi) =
        map (\<lambda>tick. if fst tick = HistoryFailed then Sleep 120 else Sleep 300) iticks
      \<and> clients (snd (indicators_update_loop icoin iticks mi)) = clients mi
      \<and> update_tasks (snd (indicators_update_loop icoin iticks mi)) = update_tasks mi
      \<and> tasks (snd (indicators_update_loop icoin iticks mi)) = tasks mi
      \<and> fst (indicators_update_iteration icoin (Analysed ind') inow
               (snd (indicators_update_loop icoin iticks mi))) = Sleep 120
      \<and> (distinct (active_connections mi) \<and> ih < length (clients mi)
           \<and> ih \<in> set (active_connections mi)
           \<and> client_subscribed (clients mi ! ih) TECHNICAL_INDICATORS icoin
           \<and> ws_open (websocket (clients mi ! ih)) \<longrightarrow>
           ws_sent (websocket (clients (snd (indicators_update_iteration icoin (Analysed ind') inow
              (snd (indicators_update_loop icoin iticks mi)))) ! ih)) =
           ws_sent (websocket (clients mi ! ih)) @ [TechnicalIndicatorsUpdate icoin ind' inow]))
   \<and> (has_news_subscribers mn \<longrightarrow>
      (news_fetch_failed fetch \<and> last_check < nnow \<longrightarrow>
         fst (news_update_iteration (Fetched fetch) nnow last_check mn) = Sleep 300
         \<and> projr (new_articles_since last_check (get_mock_news 10 nnow)) \<noteq> []
         \<and> (distinct (active_connections mn) \<and> nh < length (clients mn)
              \<and> nh \<in> set (active_connections mn)
              \<and> NEWS_UPDATES \<in> subscriptions (clients mn ! nh)
              \<and> ws_open (websocket (clients mn ! nh)) \<longrightarrow>
              ws_sent (websocket (clients (snd (snd
                 (news_update_iteration (Fetched fetch) nnow last_check mn))) ! nh)) =
              ws_sent (websocket (clients mn ! nh))
              @ [NewsUpdate (projr (new_articles_since last_check (get_mock_news 10 nnow)))
                   (length (projr (new_articles_since last_check (get_mock_news 10 nnow))))
                   nnow]))
      \<and> (new_articles_since last_check (fst (get_crypto_news fetch' 10 nnow)) = Inl e \<longrightarrow>
           fst (news_update_iteration (Fetched fetch') nnow last_check mn) = Sleep 600
           \<and> fst (snd (news_update_iteration (Fetched fetch') nnow last_check mn)) = last_check
           \<and> clients (snd (snd (news_update_iteration (Fetched fetch') nnow last_check mn)))
               = clients mn)
      \<and> fst (news_update_iteration (NewsBodyRaises e') nnow last_check mn) = Sleep 600
      \<and> clients (snd (snd (news_update_iteration (NewsBodyRaises e') nnow last_check mn)))
          = clients mn
      \<and> fst (news_update_iteration ntick nnow last_check mn) \<noteq> Break
      \<and> update_tasks (snd (snd (news_update_iteration ntick nnow last_check mn)))
          = update_tasks mn
      \<and> tasks (snd (snd (news_update_iteration ntick nnow last_check mn))) = tasks mn
      \<and> has_news_subscribers (snd (snd (news_update_iteration ntick nnow last_check mn))))"
proof (intro conjI)
  show "has_subscribers m PRICE_UPDATES coin
      \<and> (\<forall>tick \<in> set ticks. fst (fetch_price_data coin (fst tick)) = None) \<longrightarrow>
      fst (price_update_loop coin ticks m) = replicate (length ticks) (Sleep 30)
      \<and> clients (snd (price_update_loop coin ticks m)) = clients m
      \<and> update_tasks (snd (price_update_loop coin ticks m)) = update_tasks m
      \<and> tasks (snd (price_update_loop coin ticks m)) = tasks m
      \<and> price_cache (snd (price_update_loop coin ticks m)) = price_cache m
      \<and> (fst (fetch_price_data coin r) = Some d \<longrightarrow>
           fst (price_update_iteration coin r now (snd (price_update_loop coin ticks m))) = Sleep 30
           \<and> price_cache (snd (price_update_iteration coin r now
                 (snd (price_update_loop coin ticks m)))) coin = Some d
           \<and> (distinct (active_connections m) \<and> h < length (clients m)
                \<and> h \<in> set (active_connections m)
                \<and> client_subscribed (clients m ! h) PRICE_UPDATES coin
                \<and> ws_open (websocket (clients m ! h)) \<longrightarrow>
                ws_sent (websocket (clients (snd (price_update_iteration coin r now
                   (snd (price_update_loop coin ticks m)))) ! h)) =
                ws_sent (websocket (clients m ! h)) @ [PriceUpdate coin d now]))"
  proof
    assume a: "has_subscribers m PRICE_UPDATES coin
      \<and> (\<forall>tick \<in> set ticks. fst (fetch_price_data coin (fst tick)) = None)"
    then have 1: "has_subscribers m PRICE_UPDATES coin"
      and 2: "\<forall>tick \<in> set ticks. fst (fetch_price_data coin (fst tick)) = None"
      by simp_all
    show "fst (price_update_loop coin ticks m) = replicate (length ticks) (Sleep 30)
      \<and> clients (snd (price_update_loop coin ticks m)) = clients m
      \<and> update_tasks (snd (price_update_loop coin ticks m)) = update_tasks m
      \<and> tasks (snd (price_update_loop coin ticks m)) = tasks m
      \<and> price_cache (snd (price_update_loop coin ticks m)) = price_cache m
      \<and> (fst (fetch_price_data coin r) = Some d \<longrightarrow>
           fst (price_update_iteration coin r now (snd (price_update_loop coin ticks m))) = Sleep 30
           \<and> price_cache (snd (price_update_iteration coin r now
                 (snd (price_update_loop coin ticks m)))) coin = Some d
           \<and> (distinct (active_connections m) \<and> h < length (clients m)
                \<and> h \<in> set (active_connections m)
                \<and> client_subscribed (clients m ! h) PRICE_UPDATES coin
                \<and> ws_open (websocket (clients m ! h)) \<longrightarrow>
                ws_sent (websocket (clients (snd (price_update_iteration coin r now
                   (snd (price_update_loop coin ticks m)))) ! h)) =
                ws_sent (websocket (clients m ! h)) @ [PriceUpdate coin d now]))"
      by (rule price_loop_failures_then_success [OF 1 2])
  qed
next
  show "has_subscribers mi TECHNICAL_INDICATORS icoin
      \<and> (\<forall>tick \<in> set iticks. \<forall>ind. fst tick \<noteq> Analysed ind) \<longrightarrow>
      fst (indicators_update_loop icoin iticks mi) =
        map (\<lambda>tick. if fst tick = HistoryFailed then Sleep 120 else Sleep 300) iticks
      \<and> clients (snd (indicators_update_loop icoin iticks mi)) = clients mi
      \<and> update_tasks (snd (indicators_update_loop icoin iticks mi)) = update_tasks mi
      \<and> tasks (snd (indicators_update_loop icoin iticks mi)) = tasks mi
      \<and> fst (indicators_update_iteration icoin (Analysed ind') inow
               (snd (indicators_update_loop icoin iticks mi))) = Sleep 120
      \<and> (distinct (active_connections mi) \<and> ih < length (clients mi)
           \<and> ih \<in> set (active_connections mi)
           \<and> client_subscribed (clients mi ! ih) TECHNICAL_INDICATORS icoin
           \<and> ws_open (websocket (clients mi ! ih)) \<longrightarrow>
           ws_sent (websocket (clients (snd (indicators_update_iteration icoin (Analysed ind') inow
              (snd (indicators_update_loop icoin iticks mi)))) ! ih)) =
           ws_sent (websocket (clients mi ! ih)) @ [TechnicalIndicatorsUpdate icoin ind' inow])"
  proof
    assume a: "has_subscribers mi TECHNICAL_INDICATORS icoin
      \<and> (\<forall>tick \<in> set iticks. \<forall>ind. fst tick \<noteq> Analysed ind)"
    then have 1: "has_subscribers mi TECHNICAL_INDICATORS icoin"
      and 2: "\<forall>tick \<in> set iticks. \<forall>ind. fst tick \<noteq> Analysed ind"
      by simp_all
    show "fst (indicators_update_loop icoin iticks mi) =
        map (\<lambda>tick. if fst tick = HistoryFailed then Sleep 120 else Sleep 300) iticks
      \<and> clients (snd (indicators_update_loop icoin iticks mi)) = clients mi
      \<and> update_tasks (snd (indicators_update_loop icoin iticks mi)) = update_tasks mi
      \<and> tasks (snd (indicators_update_loop icoin iticks mi)) = tasks mi
      \<and> fst (indicators_update_iteration icoin (Analysed ind') inow
               (snd (indicators_update_loop icoin iticks mi))) = Sleep 120
      \<and> (distinct (active_connections mi) \<and> ih < length (clients mi)
           \<and> ih \<in> set (active_connections mi)
           \<and> client_subscribed (clients mi ! ih) TECHNICAL_INDICATORS icoin
           \<and> ws_open (websocket (clients mi ! ih)) \<longrightarrow>
           ws_sent (websocket (clients (snd (indicators_update_iteration icoin (Analysed ind') inow
              (snd (indicators_update_loop icoin iticks mi)))) ! ih)) =
           ws_sent (websocket (clients mi ! ih)) @ [TechnicalIndicatorsUpdate icoin ind' inow])"
      by (rule indicators_loop_failures_then_success [OF 1 2])
  qed
next
  show "has_news_subscribers mn \<longrightarrow>
      (news_fetch_failed fetch \<and> last_check < nnow \<longrightarrow>
         fst (news_update_iteration (Fetched fetch) nnow last_check mn) = Sleep 300
         \<and> projr (new_articles_since last_check (get_mock_news 10 nnow)) \<noteq> []
         \<and> (distinct (active_connections mn) \<and> nh < length (clients mn)
              \<and> nh \<in> set (active_connections mn)
              \<and> NEWS_UPDATES \<in> subscriptions (clients mn ! nh)
              \<and> ws_open (websocket (clients mn ! nh)) \<longrightarrow>
              ws_sent (websocket (clients (snd (snd
                 (news_update_iteration (Fetched fetch) nnow last_check mn))) ! nh)) =
              ws_sent (websocket (clients mn ! nh))
              @ [NewsUpdate (projr (new_articles_since last_check (get_mock_news 10 nnow)))
                   (length (projr (new_articles_since last_check (get_mock_news 10 nnow))))
                   nnow]))
      \<and> (new_articles_since last_check (fst (get_crypto_news fetch' 10 nnow)) = Inl e \<longrightarrow>
           fst (news_update_iteration (Fetched fetch') nnow last_check mn) = Sleep 600
           \<and> fst (snd (news_update_iteration (Fetched fetch') nnow last_check mn)) = last_check
           \<and> clients (snd (snd (news_update_iteration (Fetched fetch') nnow last_check mn)))
               = clients mn)
      \<and> fst (news_update_iteration (NewsBodyRaises e') nnow last_check mn) = Sleep 600
      \<and> clients (snd (snd (news_update_iteration (NewsBodyRaises e') nnow last_check mn)))
          = clients mn
      \<and> fst (news_update_iteration ntick nnow last_check mn) \<noteq> Break
      \<and> update_tasks (snd (snd (news_update_iteration ntick nnow last_check mn)))
          = update_tasks mn
      \<and> tasks (snd (snd (news_update_iteration ntick nnow last_check mn))) = tasks mn
      \<and> has_news_subscribers (snd (snd (news_update_iteration ntick nnow last_check mn)))"
    by (rule impI) (rule news_iteration_at_failures)
qed

theorem pollers_survive_failed_fetches_witness:
  "has_subscribers one_watcher PRICE_UPDATES ''bitcoin''
   \<and> fst (fetch_price_data ''bitcoin'' HttpRaises) = None
   \<and> fst (fetch_price_data ''bitcoin'' (HttpResponse 500 Map.empty)) = None
   \<and> fst (fetch_price_data ''bitcoin'' (HttpResponse 200 Map.empty)) = None
   \<and> fst (price_update_loop ''bitcoin''
        [(HttpRaises, 2), (HttpResponse 500 Map.empty, 3), (HttpResponse 200 Map.empty, 4)]
        one_watcher) = [Sleep 30, Sleep 30, Sleep 30]
   \<and> fst (price_update_iteration ''bitcoin'' bitcoin_quote 5
        (snd (price_update_loop ''bitcoin''
           [(HttpRaises, 2), (HttpResponse 500 Map.empty, 3), (HttpResponse 200 Map.empty, 4)]
           one_watcher))) = Sleep 30
   \<and> ws_sent (websocket (clients (snd (price_update_iteration ''bitcoin'' bitcoin_quote 5
        (snd (price_update_loop ''bitcoin''
           [(HttpRaises, 2), (HttpResponse 500 Map.empty, 3), (HttpResponse 200 Map.empty, 4)]
           one_watcher)))) ! 0)) =
      ws_sent (websocket (clients one_watcher ! 0))
      @ [PriceUpdate ''bitcoin''
           \<lparr>price = 98500, price_change_24h = 2, volume_24h = 1000, market_cap = 5000\<rparr> 5]
   \<and> has_subscribers indicators_watcher TECHNICAL_INDICATORS ''bitcoin''
   \<and> fst (indicators_update_loop ''bitcoin''
        [(HistoryFailed, 2), (BodyRaises ClientError, 3), (HistoryFailed, 4)]
        indicators_watcher) = [Sleep 120, Sleep 300, Sleep 120]
   \<and> has_news_subscribers news_watcher
   \<and> news_fetch_failed NewsRaises
   \<and> fst (news_update_iteration (Fetched NewsRaises) 2 1 news_watcher) = Sleep 300
   \<and> ws_sent (websocket (clients (snd (snd
        (news_update_iteration (Fetched NewsRaises) 2 1 news_watcher))) ! 0)) =
      ws_sent (websocket (clients news_watcher ! 0))
      @ [NewsUpdate (projr (new_articles_since 1 (get_mock_news 10 2)))
           (length (projr (new_articles_since 1 (get_mock_news 10 2)))) 2]
   \<and> new_articles_since 1
        (fst (get_crypto_news
           (NewsResponse 200 [\<lparr>title = ''t'', url = ''u'', published_at = Aware 2\<rparr>]) 10 2))
      = Inl TypeError
   \<and> fst (news_update_iteration
        (Fetched (NewsResponse 200 [\<lparr>title = ''t'', url = ''u'', published_at = Aware 2\<rparr>]))
        2 1 news_watcher) = Sleep 600"
proof -
  have w: "distinct (active_connections one_watcher)" "0 < length (clients one_watcher)"
    "0 \<in> set (active_connections one_watcher)"
    "client_subscribed (clients one_watcher ! 0) PRICE_UPDATES ''bitcoin''"
    "ws_open (websocket (clients one_watcher ! 0))"
    by (simp_all add: one_watcher_value client_subscribed_def)
  have f: "\<forall>tick \<in> set [(HttpRaises, 2::nat), (HttpResponse 500 Map.empty, 3),
              (HttpResponse 200 Map.empty, 4)].
         fst (fetch_price_data ''bitcoin'' (fst tick)) = None"
    by (simp add: fetch_price_data_def)
  have f': "fst (fetch_price_data ''bitcoin'' HttpRaises) = None"
    "fst (fetch_price_data ''bitcoin'' (HttpResponse 500 Map.empty)) = None"
    "fst (fetch_price_data ''bitcoin'' (HttpResponse 200 Map.empty)) = None"
    by (simp_all add: fetch_price_data_def)
  have q: "fst (fetch_price_data ''bitcoin'' bitcoin_quote) =
      Some \<lparr>price = 98500, price_change_24h = 2, volume_24h = 1000, market_cap = 5000\<rparr>"
    by (simp add: bitcoin_quote_fetch)
  have i: "has_subscribers indicators_watcher TECHNICAL_INDICATORS ''bitcoin''"
    by (simp add: indicators_watcher_value has_subscribers_def client_subscribed_def)
  have it: "\<forall>tick \<in> set [(HistoryFailed, 2::nat), (BodyRaises ClientError, 3), (HistoryFailed, 4)].
              \<forall>ind. fst tick \<noteq> Analysed ind"
    by simp
  have n: "has_news_subscribers news_watcher"
    "distinct (active_connections news_watcher)" "0 < length (clients news_watcher)"
    "0 \<in> set (active_connections news_watcher)"
    "NEWS_UPDATES \<in> subscriptions (clients news_watcher ! 0)"
    "ws_open (websocket (clients news_watcher ! 0))"
    by (simp_all add: news_watcher_value has_news_subscribers_def)
  have nf: "news_fetch_failed NewsRaises" "(1::nat) < 2"
    by simp_all
  have ne: "new_articles_since 1
        (fst (get_crypto_news
           (NewsResponse 200 [\<lparr>title = ''t'', url = ''u'', published_at = Aware 2\<rparr>]) 10 2))
      = Inl TypeError"
    by (simp add: get_crypto_news_def published_after_def)
  note T = pollers_survive_failed_fetches
    [where m = one_watcher and coin = "''bitcoin''"
      and ticks = "[(HttpRaises, 2), (HttpResponse 500 Map.empty, 3),
                    (HttpResponse 200 Map.empty, 4)]"
      and r = bitcoin_quote
      and d = "\<lparr>price = 98500, price_change_24h = 2, volume_24h = 1000, market_cap = 5000\<rparr>"
      and now = 5 and h = 0
      and mi = indicators_watcher and icoin = "''bitcoin''"
      and iticks = "[(HistoryFailed, 2), (BodyRaises ClientError, 3), (HistoryFailed, 4)]"
      and mn = news_watcher and fetch = NewsRaises and last_check = 1 and nnow = 2 and nh = 0
      and fetch' = "NewsResponse 200 [\<lparr>title = ''t'', url = ''u'', published_at = Aware 2\<rparr>]"
      and e = TypeError]
  have P: "fst (price_update_loop ''bitcoin''
        [(HttpRaises, 2), (HttpResponse 500 Map.empty, 3), (HttpResponse 200 Map.empty, 4)]
        one_watcher) = [Sleep 30, Sleep 30, Sleep 30]
   \<and> fst (price_update_iteration ''bitcoin'' bitcoin_quote 5
        (snd (price_update_loop ''bitcoin''
           [(HttpRaises, 2), (HttpResponse 500 Map.empty, 3), (HttpResponse 200 Map.empty, 4)]
           one_watcher))) = Sleep 30
   \<and> ws_sent (websocket (clients (snd (price_update_iteration ''bitcoin'' bitcoin_quote 5
        (snd (price_update_loop ''bitcoin''
           [(HttpRaises, 2), (HttpResponse 500 Map.empty, 3), (HttpResponse 200 Map.empty, 4)]
           one_watcher)))) ! 0)) =
      ws_sent (websocket (clients one_watcher ! 0))
      @ [PriceUpdate ''bitcoin''
           \<lparr>price = 98500, price_change_24h = 2, volume_24h = 1000, market_cap = 5000\<rparr> 5]"
    using T [THEN conjunct1] one_watcher_has_subscribers f q w
    by (simp add: numeral_3_eq_3)
  have I: "fst (indicators_update_loop ''bitcoin''
        [(HistoryFailed, 2), (BodyRaises ClientError, 3), (HistoryFailed, 4)]
        indicators_watcher) = [Sleep 120, Sleep 300, Sleep 120]"
    using T [THEN conjunct2, THEN conjunct1] i it by simp
  have N: "fst (news_update_iteration (Fetched NewsRaises) 2 1 news_watcher) = Sleep 300
   \<and> ws_sent (websocket (clients (snd (snd
        (news_update_iteration (Fetched NewsRaises) 2 1 news_watcher))) ! 0)) =
      ws_sent (websocket (clients news_watcher ! 0))
      @ [NewsUpdate (projr (new_articles_since 1 (get_mock_news 10 2)))
           (length (projr (new_articles_since 1 (get_mock_news 10 2)))) 2]
   \<and> fst (news_update_iteration
        (Fetched (NewsResponse 200 [\<lparr>title = ''t'', url = ''u'', published_at = Aware 2\<rparr>]))
        2 1 news_watcher) = Sleep 600"
    using T [THEN conjunct2, THEN conjunct2] n nf ne by blast
  show ?thesis
    using P I N one_watcher_has_subscribers f' i n(1) nf(1) ne by blast
qed

section \<open>The manager and the registry of the specification\<close>

lemma spec_run_snoc: "spec_run (ops @ [op]) = spec_step op (spec_run ops)"
  by (simp add: spec_run_def)

lemma registry_inv_init: "registry_inv (run []) (spec_run [])"
  by (simp add: registry_inv_def run_def spec_run_def WebSocketManager_init_def)

lemma apply_connect_fields:
  "length (clients (apply_op (Connect cid now) m)) = Suc (length (clients m))"
  "active_connections (apply_op (Connect cid now) m) = active_connections m @ [length (clients m)]"
  "update_tasks (apply_op (Connect cid now) m) = update_tasks m"
  "k < length (clients m) \<Longrightarrow>
     subscriptions (clients (apply_op (Connect cid now) m) ! k) = subscriptions (clients m ! k)"
  "k < length (clients m) \<Longrightarrow>
     watched_coins (clients (apply_op (Connect cid now) m) ! k) = watched_coins (clients m ! k)"
  by (simp_all add: connect_def Let_def nth_append)

lemma disconnect_active:
  "active_connections (disconnect h m) = remove1 h (active_connections m)"
  by (simp add: disconnect_def remove1_idem)

lemma disconnect_keys:
  "key \<in> fst ` set (update_tasks (disconnect h m)) \<longleftrightarrow>
     key \<in> fst ` set (update_tasks m)
     \<and> \<not> unused (m\<lparr>active_connections := remove1 h (active_connections m)\<rparr>) key"
proof -
  have "(if h \<in> set (active_connections m)
         then m\<lparr>active_connections := remove1 h (active_connections m)\<rparr> else m)
        = m\<lparr>active_connections := remove1 h (active_connections m)\<rparr>"
    by (simp add: remove1_idem)
  then have "disconnect h m =
      cleanup_unused_tasks (m\<lparr>active_connections := remove1 h (active_connections m)\<rparr>)"
    by (simp add: disconnect_def)
  then show ?thesis
    by (force simp: cleanup_unused_tasks_eq image_iff)
qed

lemma keys_filter:
  "key \<in> fst ` set (filter (\<lambda>(k, t). P k) xs) \<longleftrightarrow> key \<in> fst ` set xs \<and> P key"
  by (induction xs) auto

lemma cleanup_keys:
  "key \<in> fst ` set (update_tasks (cleanup_unused_tasks m)) \<longleftrightarrow>
     key \<in> fst ` set (update_tasks m) \<and> \<not> unused m key"
  by (simp add: cleanup_unused_tasks_eq keys_filter del: set_filter)

lemma start_update_tasks_keys_mono:
  "fst ` set (update_tasks m) \<subseteq> fst ` set (update_tasks (start_update_tasks t coins m))"
  by (simp add: start_update_tasks_def start_task_keys fold_start_task_keys subset_insertI)

lemma subscribe_client_keys_mono:
  assumes "key \<in> fst ` set (update_tasks m)"
  shows "key \<in> fst ` set (update_tasks (subscribe_client h t coins now m))"
proof -
  define m2 where "m2 =
    (if coins \<noteq> []
     then update_client h (\<lambda>c. c\<lparr>watched_coins := watched_coins c \<union> set coins\<rparr>)
            (update_client h (\<lambda>c. c\<lparr>subscriptions := insert t (subscriptions c)\<rparr>) m)
     else update_client h (\<lambda>c. c\<lparr>subscriptions := insert t (subscriptions c)\<rparr>) m)"
  have u: "update_tasks (subscribe_client h t coins now m) =
             update_tasks (start_update_tasks t coins m2)"
    by (simp add: subscribe_client_def Let_def m2_def)
  have "update_tasks m2 = update_tasks m" by (simp add: m2_def)
  with assms have "key \<in> fst ` set (update_tasks m2)" by simp
  then show ?thesis
    unfolding u using start_update_tasks_keys_mono [of m2 t coins] by blast
qed

lemma unsubscribe_keys:
  "key \<in> fst ` set (update_tasks (unsubscribe_client h t now m)) \<longleftrightarrow>
     key \<in> fst ` set (update_tasks m) \<and> \<not> unused (unsubscribe_client h t now m) key"
proof -
  define m2 where "m2 = send_personal_message
     (UnsubscriptionConfirmed (SubscriptionType_value t) now) h
     (update_client h (\<lambda>c. c\<lparr>subscriptions := subscriptions c - {t}\<rparr>) m)"
  have u: "unsubscribe_client h t now m = cleanup_unused_tasks m2"
    by (simp add: unsubscribe_client_def m2_def Let_def)
  have "unused (cleanup_unused_tasks m2) key = unused m2 key"
    by (rule unused_cong) simp_all
  moreover have "update_tasks m2 = update_tasks m" by (simp add: m2_def)
  ultimately show ?thesis
    unfolding u by (simp add: cleanup_keys)
qed

text \<open>
  The key of a poller is not unused while a connected client has the feed type and, for a
  plain instrument name, the instrument.
\<close>

lemma used_key:
  assumes "h \<in> set (active_connections m)" and "t \<in> subscriptions (clients m ! h)"
    and "t = NEWS_UPDATES \<or> t = ALERTS \<or> c \<in> watched_coins (clients m ! h)"
    and "poller_for t c = Some p" and "plain_name t c"
  shows "\<not> unused m (task_key_of p)"
proof (cases t)
  case PRICE_UPDATES
  with assms have "p = PriceLoop c" "py_replace ''price_'' [] c = c"
    "has_subscribers m PRICE_UPDATES c"
    by (auto simp: plain_name_def has_subscribers_def client_subscribed_def list_ex_iff)
  then show ?thesis by (simp only: unused_price_key) simp
next
  case TECHNICAL_INDICATORS
  with assms have "p = IndicatorsLoop c" "py_replace ''indicators_'' [] c = c"
    "has_subscribers m TECHNICAL_INDICATORS c"
    by (auto simp: plain_name_def has_subscribers_def client_subscribed_def list_ex_iff)
  then show ?thesis by (simp only: unused_indicators_key) simp
next
  case NEWS_UPDATES
  with assms have "p = NewsLoop" "has_news_subscribers m"
    by (auto simp: has_news_subscribers_def list_ex_iff)
  then show ?thesis by (simp only: unused_news_key) simp
next
  case PORTFOLIO_UPDATES
  with assms show ?thesis by simp
next
  case ALERTS
  with assms show ?thesis by simp
qed

lemma registry_invI:
  assumes "issued r = length (clients m)"
    and "connected r = set (active_connections m)"
    and "distinct (active_connections m)"
    and "\<And>h. h \<in> set (active_connections m) \<Longrightarrow> h < length (clients m)"
    and "\<And>h. h \<notin> connected r \<Longrightarrow> feed_keys r h = {}"
    and "\<And>h t c. h \<in> connected r \<Longrightarrow> (t, c) \<in> feed_keys r h \<Longrightarrow>
           t \<in> subscriptions (clients m ! h)
           \<and> (t = NEWS_UPDATES \<or> t = ALERTS \<or> c \<in> watched_coins (clients m ! h))"
    and "\<And>h t c p. h \<in> connected r \<Longrightarrow> (t, c) \<in> feed_keys r h \<Longrightarrow>
           poller_for t c = Some p \<Longrightarrow> plain_name t c \<Longrightarrow>
           task_key_of p \<in> fst ` set (update_tasks m)"
  shows "registry_inv m r"
  unfolding registry_inv_def
proof (intro conjI ballI allI impI)
  fix h x
  assume "h \<in> connected r" "x \<in> feed_keys r h"
  then show "case x of (t, c) \<Rightarrow>
        t \<in> subscriptions (clients m ! h)
        \<and> (t = NEWS_UPDATES \<or> t = ALERTS \<or> c \<in> watched_coins (clients m ! h))"
    using assms(6) [of h "fst x" "snd x"] by (cases x) simp
next
  fix h x
  assume "h \<in> connected r" "x \<in> feed_keys r h"
  then show "case x of (t, c) \<Rightarrow> \<forall>p. poller_for t c = Some p \<and> plain_name t c \<longrightarrow>
        task_key_of p \<in> fst ` set (update_tasks m)"
    using assms(7) [of h "fst x" "snd x"] by (cases x) simp
qed (use assms in simp_all)

lemma registry_invD:
  assumes "registry_inv m r"
  shows "issued r = length (clients m)"
    and "connected r = set (active_connections m)"
    and "distinct (active_connections m)"
    and "\<And>h. h \<in> set (active_connections m) \<Longrightarrow> h < length (clients m)"
    and "\<And>h. h \<notin> connected r \<Longrightarrow> feed_keys r h = {}"
    and "\<And>h t c. h \<in> connected r \<Longrightarrow> (t, c) \<in> feed_keys r h \<Longrightarrow>
           t \<in> subscriptions (clients m ! h)
           \<and> (t = NEWS_UPDATES \<or> t = ALERTS \<or> c \<in> watched_coins (clients m ! h))"
    and "\<And>h t c p. h \<in> connected r \<Longrightarrow> (t, c) \<in> feed_keys r h \<Longrightarrow>
           poller_for t c = Some p \<Longrightarrow> plain_name t c \<Longrightarrow>
           task_key_of p \<in> fst ` set (update_tasks m)"
proof -
  show "issued r = length (clients m)" "connected r = set (active_connections m)"
    "distinct (active_connections m)"
    using assms by (simp_all add: registry_inv_def)
  show "\<And>h. h \<in> set (active_connections m) \<Longrightarrow> h < length (clients m)"
    using assms by (simp add: registry_inv_def)
  show "\<And>h. h \<notin> connected r \<Longrightarrow> feed_keys r h = {}"
    using assms unfolding registry_inv_def by blast
  have six: "\<forall>h \<in> connected r. \<forall>(t, c) \<in> feed_keys r h.
            t \<in> subscriptions (clients m ! h)
            \<and> (t = NEWS_UPDATES \<or> t = ALERTS \<or> c \<in> watched_coins (clients m ! h))"
    using assms unfolding registry_inv_def by blast
  show "\<And>h t c. h \<in> connected r \<Longrightarrow> (t, c) \<in> feed_keys r h \<Longrightarrow>
           t \<in> subscriptions (clients m ! h)
           \<and> (t = NEWS_UPDATES \<or> t = ALERTS \<or> c \<in> watched_coins (clients m ! h))"
    using six by fast
  have seven: "\<forall>h \<in> connected r. \<forall>(t, c) \<in> feed_keys r h. \<forall>p.
            poller_for t c = Some p \<and> plain_name t c \<longrightarrow>
            task_key_of p \<in> fst ` set (update_tasks m)"
    using assms unfolding registry_inv_def by blast
  show "\<And>h t c p. h \<in> connected r \<Longrightarrow> (t, c) \<in> feed_keys r h \<Longrightarrow>
           poller_for t c = Some p \<Longrightarrow> plain_name t c \<Longrightarrow>
           task_key_of p \<in> fst ` set (update_tasks m)"
    using seven by fast
qed

lemma registry_inv_connect:
  assumes "registry_inv m r"
  shows "registry_inv (apply_op (Connect cid now) m) (spec_step (Connect cid now) r)"
proof (rule registry_invI)
  note D = registry_invD [OF assms]
  let ?m = "apply_op (Connect cid now) m"
  let ?r = "spec_step (Connect cid now) r"
  have new: "length (clients m) \<notin> set (active_connections m)"
    using D(4) by blast
  show "issued ?r = length (clients ?m)"
    using D(1) by (simp add: apply_connect_fields del: apply_op.simps)
  show "connected ?r = set (active_connections ?m)"
    using D(1,2) by (simp add: apply_connect_fields del: apply_op.simps)
  show "distinct (active_connections ?m)"
    using D(3) new by (simp add: apply_connect_fields del: apply_op.simps)
  show "\<And>h. h \<in> set (active_connections ?m) \<Longrightarrow> h < length (clients ?m)"
    using D(4) by (auto simp: apply_connect_fields less_Suc_eq simp del: apply_op.simps)
  show "\<And>h. h \<notin> connected ?r \<Longrightarrow> feed_keys ?r h = {}"
    using D(5) by simp
  have old: "h \<in> connected r \<and> h < length (clients m)"
    if "h \<in> connected ?r" "(t, c) \<in> feed_keys ?r h" for h t c
  proof -
    have "h \<in> connected r"
    proof (rule ccontr)
      assume "h \<notin> connected r"
      then have "feed_keys r h = {}" by (rule D(5))
      with that(2) show False by simp
    qed
    then show ?thesis using D(2,4) by simp
  qed
  show "\<And>h t c. h \<in> connected ?r \<Longrightarrow> (t, c) \<in> feed_keys ?r h \<Longrightarrow>
           t \<in> subscriptions (clients ?m ! h)
           \<and> (t = NEWS_UPDATES \<or> t = ALERTS \<or> c \<in> watched_coins (clients ?m ! h))"
  proof -
    fix h t c
    assume a: "h \<in> connected ?r" "(t, c) \<in> feed_keys ?r h"
    from old [OF a] have h: "h \<in> connected r" "h < length (clients m)" by simp_all
    from a(2) have "(t, c) \<in> feed_keys r h" by simp
    from D(6) [OF h(1) this] h(2)
    show "t \<in> subscriptions (clients ?m ! h)
           \<and> (t = NEWS_UPDATES \<or> t = ALERTS \<or> c \<in> watched_coins (clients ?m ! h))"
      by (simp add: apply_connect_fields del: apply_op.simps)
  qed
  show "\<And>h t c p. h \<in> connected ?r \<Longrightarrow> (t, c) \<in> feed_keys ?r h \<Longrightarrow>
           poller_for t c = Some p \<Longrightarrow> plain_name t c \<Longrightarrow>
           task_key_of p \<in> fst ` set (update_tasks ?m)"
  proof -
    fix h t c p
    assume a: "h \<in> connected ?r" "(t, c) \<in> feed_keys ?r h"
      and p: "poller_for t c = Some p" "plain_name t c"
    from old [OF a] have h: "h \<in> connected r" by simp
    from a(2) have "(t, c) \<in> feed_keys r h" by simp
    from D(7) [OF h this p]
    show "task_key_of p \<in> fst ` set (update_tasks ?m)"
      by (simp add: apply_connect_fields del: apply_op.simps)
  qed
qed

lemma registry_inv_disconnect:
  assumes "registry_inv m r"
  shows "registry_inv (apply_op (Disconnect h0) m) (spec_step (Disconnect h0) r)"
proof (cases "h0 < length (clients m)")
  case False
  note D = registry_invD [OF assms]
  have h0: "h0 \<notin> connected r" using False D(2,4) by auto
  then have "feed_keys r h0 = {}" by (rule D(5))
  then have "(feed_keys r)(h0 := {}) = feed_keys r" by (rule fun_upd_idem)
  moreover have "connected r - {h0} = connected r" using h0 by blast
  ultimately have "spec_step (Disconnect h0) r = r" by simp
  with False assms show ?thesis by simp
next
  case True
  note D = registry_invD [OF assms]
  let ?m = "disconnect h0 m"
  let ?r = "spec_step (Disconnect h0) r"
  let ?mid = "m\<lparr>active_connections := remove1 h0 (active_connections m)\<rparr>"
  have act: "set (active_connections ?m) = set (active_connections m) - {h0}"
    using D(3) by (simp add: disconnect_active)
  have "registry_inv ?m ?r"
  proof (rule registry_invI)
    show "issued ?r = length (clients ?m)" using D(1) by simp
    show "connected ?r = set (active_connections ?m)" using D(2) act by simp
    show "distinct (active_connections ?m)" using D(3) by (simp add: disconnect_active)
    show "\<And>h. h \<in> set (active_connections ?m) \<Longrightarrow> h < length (clients ?m)"
      using D(4) act by simp
    show "\<And>h. h \<notin> connected ?r \<Longrightarrow> feed_keys ?r h = {}"
      using D(5) by auto
    show "\<And>h t c. h \<in> connected ?r \<Longrightarrow> (t, c) \<in> feed_keys ?r h \<Longrightarrow>
           t \<in> subscriptions (clients ?m ! h)
           \<and> (t = NEWS_UPDATES \<or> t = ALERTS \<or> c \<in> watched_coins (clients ?m ! h))"
    proof -
      fix h t c
      assume a: "h \<in> connected ?r" "(t, c) \<in> feed_keys ?r h"
      then have "h \<in> connected r" "(t, c) \<in> feed_keys r h" by (auto split: if_splits)
      from D(6) [OF this]
      show "t \<in> subscriptions (clients ?m ! h)
           \<and> (t = NEWS_UPDATES \<or> t = ALERTS \<or> c \<in> watched_coins (clients ?m ! h))"
        by simp
    qed
    show "\<And>h t c p. h \<in> connected ?r \<Longrightarrow> (t, c) \<in> feed_keys ?r h \<Longrightarrow>
           poller_for t c = Some p \<Longrightarrow> plain_name t c \<Longrightarrow>
           task_key_of p \<in> fst ` set (update_tasks ?m)"
    proof -
      fix h t c p
      assume a: "h \<in> connected ?r" "(t, c) \<in> feed_keys ?r h"
        and p: "poller_for t c = Some p" "plain_name t c"
      from a have h: "h \<in> connected r" "h \<noteq> h0" and k: "(t, c) \<in> feed_keys r h"
        by (auto split: if_splits)
      have in0: "h \<in> set (active_connections ?mid)"
        using h D(2,3) by simp
      have cl: "clients ?mid = clients m" by simp
      from D(6) [OF h(1) k]
      have "\<not> unused ?mid (task_key_of p)"
        by (intro used_key [OF in0 _ _ p]) (simp_all add: cl)
      moreover have "task_key_of p \<in> fst ` set (update_tasks m)"
        by (rule D(7) [OF h(1) k p])
      ultimately show "task_key_of p \<in> fst ` set (update_tasks ?m)"
        by (simp add: disconnect_keys)
    qed
  qed
  with True show ?thesis by simp
qed

lemma registry_inv_peer_closes:
  assumes "registry_inv m r"
  shows "registry_inv (apply_op (PeerCloses h0) m) (spec_step (PeerCloses h0) r)"
proof -
  let ?m = "update_client h0 (\<lambda>c. c\<lparr>websocket := (websocket c)\<lparr>ws_open := False\<rparr>\<rparr>) m"
  have s: "subscriptions (clients ?m ! k) = subscriptions (clients m ! k)"
    "watched_coins (clients ?m ! k) = watched_coins (clients m ! k)" for k
    by (simp_all add: update_client_nth)
  have "registry_inv ?m r = registry_inv m r"
    unfolding registry_inv_def by (simp add: s)
  with assms show ?thesis by simp
qed

lemma connected_valid:
  assumes "registry_inv m r" and "h \<in> connected r"
  shows "h < length (clients m)" and "h \<in> set (active_connections m)"
  using registry_invD(2,4) [OF assms(1)] assms(2) by auto

lemma spec_keys_cases:
  assumes "(t, c) \<in> spec_keys t0 coins"
  shows "t = t0 \<and> (t = NEWS_UPDATES \<or> t = ALERTS \<or> c \<in> set coins)"
  using assms by (auto simp: spec_keys_def split: if_splits)

lemma registry_inv_subscribe:
  assumes "registry_inv m r"
  shows "registry_inv (apply_op (Subscribe h0 t0 coins now) m)
           (spec_step (Subscribe h0 t0 coins now) r)"
proof (cases "h0 < length (clients m)")
  case False
  note D = registry_invD [OF assms]
  have "h0 \<notin> connected r" using False D(2,4) by auto
  with False assms show ?thesis by simp
next
  case True
  note D = registry_invD [OF assms]
  let ?m = "subscribe_client h0 t0 coins now m"
  let ?r = "spec_step (Subscribe h0 t0 coins now) r"
  have fk: "feed_keys ?r h =
      (if h = h0 \<and> h0 \<in> connected r then feed_keys r h0 \<union> spec_keys t0 coins
       else feed_keys r h)" for h
    by simp
  have con: "connected ?r = connected r" "issued ?r = issued r" by simp_all
  have subs: "subscriptions (clients ?m ! k) =
        (if k = h0 then insert t0 (subscriptions (clients m ! h0)) else subscriptions (clients m ! k))"
    "watched_coins (clients ?m ! k) =
        (if k = h0 then watched_coins (clients m ! h0) \<union> set coins
         else watched_coins (clients m ! k))" for k
    using subscribe_client_subs(1,2) [OF True] by simp_all
  have "registry_inv ?m ?r"
  proof (rule registry_invI)
    show "issued ?r = length (clients ?m)" using D(1) con by simp
    show "connected ?r = set (active_connections ?m)" using D(2) con by simp
    show "distinct (active_connections ?m)" using D(3) by simp
    show "\<And>h. h \<in> set (active_connections ?m) \<Longrightarrow> h < length (clients ?m)"
      using D(4) by simp
    show "\<And>h. h \<notin> connected ?r \<Longrightarrow> feed_keys ?r h = {}"
    proof -
      fix h assume "h \<notin> connected ?r"
      then have n: "h \<notin> connected r" using con by simp
      then have "feed_keys r h = {}" by (rule D(5))
      with n show "feed_keys ?r h = {}" unfolding fk by auto
    qed
    show "\<And>h t c. h \<in> connected ?r \<Longrightarrow> (t, c) \<in> feed_keys ?r h \<Longrightarrow>
           t \<in> subscriptions (clients ?m ! h)
           \<and> (t = NEWS_UPDATES \<or> t = ALERTS \<or> c \<in> watched_coins (clients ?m ! h))"
    proof -
      fix h t c
      assume a: "h \<in> connected ?r" "(t, c) \<in> feed_keys ?r h"
      then have h: "h \<in> connected r" using con by simp
      from a(2) consider (old) "(t, c) \<in> feed_keys r h"
        | (new) "h = h0" "(t, c) \<in> spec_keys t0 coins"
        unfolding fk by (auto split: if_splits)
      then show "t \<in> subscriptions (clients ?m ! h)
           \<and> (t = NEWS_UPDATES \<or> t = ALERTS \<or> c \<in> watched_coins (clients ?m ! h))"
      proof cases
        case old
        from D(6) [OF h old] show ?thesis by (auto simp: subs)
      next
        case new
        from spec_keys_cases [OF new(2)] new(1) show ?thesis by (auto simp: subs)
      qed
    qed
    show "\<And>h t c p. h \<in> connected ?r \<Longrightarrow> (t, c) \<in> feed_keys ?r h \<Longrightarrow>
           poller_for t c = Some p \<Longrightarrow> plain_name t c \<Longrightarrow>
           task_key_of p \<in> fst ` set (update_tasks ?m)"
    proof -
      fix h t c p
      assume a: "h \<in> connected ?r" "(t, c) \<in> feed_keys ?r h"
        and p: "poller_for t c = Some p" "plain_name t c"
      then have h: "h \<in> connected r" using con by simp
      from a(2) consider (old) "(t, c) \<in> feed_keys r h"
        | (new) "h = h0" "(t, c) \<in> spec_keys t0 coins"
        unfolding fk by (auto split: if_splits)
      then show "task_key_of p \<in> fst ` set (update_tasks ?m)"
      proof cases
        case old
        have "task_key_of p \<in> fst ` set (update_tasks m)" by (rule D(7) [OF h old p])
        then show ?thesis by (rule subscribe_client_keys_mono)
      next
        case new
        from spec_keys_cases [OF new(2)]
        have t: "t = t0" and c: "t = NEWS_UPDATES \<or> t = ALERTS \<or> c \<in> set coins" by blast+
        from c p(1) have "t = NEWS_UPDATES \<or> c \<in> set coins" by auto
        with p(1) t have "task_key_of p \<in> fst ` set (update_tasks (subscribe_client h0 t coins now m))"
          by (intro subscribe_client_key) auto
        with t show ?thesis by simp
      qed
    qed
  qed
  with True show ?thesis by simp
qed

lemma registry_inv_unsubscribe:
  assumes "registry_inv m r"
  shows "registry_inv (apply_op (Unsubscribe h0 t0 now) m) (spec_step (Unsubscribe h0 t0 now) r)"
proof (cases "h0 < length (clients m)")
  case False
  note D = registry_invD [OF assms]
  have "h0 \<notin> connected r" using False D(2,4) by auto
  with False assms show ?thesis by simp
next
  case True
  note D = registry_invD [OF assms]
  let ?m = "unsubscribe_client h0 t0 now m"
  let ?r = "spec_step (Unsubscribe h0 t0 now) r"
  have fk: "feed_keys ?r h =
      (if h = h0 \<and> h0 \<in> connected r then {k \<in> feed_keys r h0. fst k \<noteq> t0}
       else feed_keys r h)" for h
    by simp
  have con: "connected ?r = connected r" "issued ?r = issued r" by simp_all
  have subs: "subscriptions (clients ?m ! k) =
        (if k = h0 then subscriptions (clients m ! h0) - {t0} else subscriptions (clients m ! k))"
    for k
    using unsubscribe_client_subs [OF True] by simp
  have six: "t \<in> subscriptions (clients ?m ! h)
           \<and> (t = NEWS_UPDATES \<or> t = ALERTS \<or> c \<in> watched_coins (clients ?m ! h))"
    and old: "(t, c) \<in> feed_keys r h"
    if a: "h \<in> connected r" "(t, c) \<in> feed_keys ?r h" for h t c
  proof -
    from a(2) have k: "(t, c) \<in> feed_keys r h" and ne: "h = h0 \<longrightarrow> t \<noteq> t0"
      unfolding fk using a(1) by (auto split: if_splits)
    show "(t, c) \<in> feed_keys r h" by (rule k)
    from D(6) [OF a(1) k] ne
    show "t \<in> subscriptions (clients ?m ! h)
           \<and> (t = NEWS_UPDATES \<or> t = ALERTS \<or> c \<in> watched_coins (clients ?m ! h))"
      by (auto simp: subs)
  qed
  have "registry_inv ?m ?r"
  proof (rule registry_invI)
    show "issued ?r = length (clients ?m)" using D(1) con by simp
    show "connected ?r = set (active_connections ?m)" using D(2) con by simp
    show "distinct (active_connections ?m)" using D(3) by simp
    show "\<And>h. h \<in> set (active_connections ?m) \<Longrightarrow> h < length (clients ?m)"
      using D(4) by simp
    show "\<And>h. h \<notin> connected ?r \<Longrightarrow> feed_keys ?r h = {}"
    proof -
      fix h assume "h \<notin> connected ?r"
      then have n: "h \<notin> connected r" using con by simp
      then have "feed_keys r h = {}" by (rule D(5))
      with n show "feed_keys ?r h = {}" unfolding fk by auto
    qed
    show "\<And>h t c. h \<in> connected ?r \<Longrightarrow> (t, c) \<in> feed_keys ?r h \<Longrightarrow>
           t \<in> subscriptions (clients ?m ! h)
           \<and> (t = NEWS_UPDATES \<or> t = ALERTS \<or> c \<in> watched_coins (clients ?m ! h))"
      using six con by simp
    show "\<And>h t c p. h \<in> connected ?r \<Longrightarrow> (t, c) \<in> feed_keys ?r h \<Longrightarrow>
           poller_for t c = Some p \<Longrightarrow> plain_name t c \<Longrightarrow>
           task_key_of p \<in> fst ` set (update_tasks ?m)"
    proof -
      fix h t c p
      assume a: "h \<in> connected ?r" "(t, c) \<in> feed_keys ?r h"
        and p: "poller_for t c = Some p" "plain_name t c"
      then have h: "h \<in> connected r" using con by simp
      have act: "h \<in> set (active_connections ?m)" using h D(2) by simp
      from six [OF h a(2)]
      have "\<not> unused ?m (task_key_of p)"
        by (intro used_key [OF act _ _ p]) simp_all
      moreover have "task_key_of p \<in> fst ` set (update_tasks m)"
        by (rule D(7) [OF h old [OF h a(2)] p])
      ultimately show "task_key_of p \<in> fst ` set (update_tasks ?m)"
        by (simp add: unsubscribe_keys)
    qed
  qed
  with True show ?thesis by simp
qed

lemma registry_inv_apply_op:
  "registry_inv m r \<Longrightarrow> registry_inv (apply_op op m) (spec_step op r)"
  by (cases op)
    (simp_all only: registry_inv_connect registry_inv_disconnect registry_inv_subscribe
      registry_inv_unsubscribe registry_inv_peer_closes)

lemma registry_inv_run: "registry_inv (run ops) (spec_run ops)"
proof (induction ops rule: rev_induct)
  case Nil
  show ?case by (rule registry_inv_init)
next
  case (snoc op ops)
  then show ?case by (simp only: run_snoc spec_run_snoc registry_inv_apply_op)
qed

section \<open>One poller per feed key\<close>

lemma poller_of_subscribed_key:
  assumes "h \<in> connected (spec_run ops)" and "(t, c) \<in> feed_keys (spec_run ops) h"
    and "poller_for t c = Some q" and "plain_name t c"
  shows "\<exists>j. map_of (update_tasks (run ops)) (task_key_of q) = Some j
           \<and> live_tasks (run ops) q = [j]"
proof -
  have "task_key_of q \<in> fst ` set (update_tasks (run ops))"
    by (rule registry_invD(7) [OF registry_inv_run assms])
  then obtain j where j: "map_of (update_tasks (run ops)) (task_key_of q) = Some j"
    by (metis domD dom_map_of_conv_image_fst)
  then have "live_tasks (run ops) q = [j]"
    using live_tasks_of_entry [OF task_inv_run, of ops q j] by simp
  with j show ?thesis by blast
qed

lemma poller_after_subscribe:
  assumes "h < length (clients (run ops))" and "poller_for t c = Some q"
    and "t = NEWS_UPDATES \<or> c \<in> set coins"
  shows "\<exists>j. map_of (update_tasks (run (ops @ [Subscribe h t coins now]))) (task_key_of q) = Some j
           \<and> live_tasks (run (ops @ [Subscribe h t coins now])) q = [j]"
proof -
  let ?m = "run (ops @ [Subscribe h t coins now])"
  have m: "?m = subscribe_client h t coins now (run ops)"
    using assms(1) by (simp add: run_snoc)
  have "task_key_of q \<in> fst ` set (update_tasks ?m)"
    unfolding m using assms(2,3) by (rule subscribe_client_key)
  then obtain j where j: "map_of (update_tasks ?m) (task_key_of q) = Some j"
    by (metis domD dom_map_of_conv_image_fst)
  then have "live_tasks ?m q = [j]"
    using live_tasks_of_entry [OF task_inv_run, of "ops @ [Subscribe h t coins now]" q j] by simp
  with j show ?thesis by blast
qed

text \<open>
  C1, as the code has it. After any sequence of connects, subscribes, unsubscribes,
  disconnects and transport closures: at most one task that is not cancelled runs the loop of
  a given feed key; the task map has at most one entry under any key; the map has an entry for
  a loop exactly when that one task is the loop's only live task; right after a client
  subscribes to prices or indicators with a coin in the list, or to news, exactly one live
  task runs the loop of that feed key and it is the one in the map; and as long as a connected
  client holds a feed key that it has named in a subscribe and not given up since, of a feed
  type that has a poller (prices, indicators, news) and with an instrument name that the
  cleanup's \<^verbatim>\<open>replace\<close> leaves alone, exactly one live task runs the loop of that feed
  key and it is the one in the map.
\<close>

theorem one_poller_per_feed_key:
  "length (live_tasks (run ops) p) \<le> 1
   \<and> length (filter (\<lambda>(k, i). k = key) (update_tasks (run ops))) \<le> 1
   \<and> (map_of (update_tasks (run ops)) (task_key_of p) = Some i) = (live_tasks (run ops) p = [i])
   \<and> (h < length (clients (run ops)) \<and> poller_for t c = Some q
        \<and> (t = NEWS_UPDATES \<or> c \<in> set coins) \<longrightarrow>
        (\<exists>j. map_of (update_tasks (run (ops @ [Subscribe h t coins now]))) (task_key_of q) = Some j
           \<and> live_tasks (run (ops @ [Subscribe h t coins now])) q = [j]))
   \<and> (h' \<in> connected (spec_run ops) \<and> (t', c') \<in> feed_keys (spec_run ops) h'
        \<and> poller_for t' c' = Some q' \<and> plain_name t' c' \<longrightarrow>
        (\<exists>j. map_of (update_tasks (run ops)) (task_key_of q') = Some j
           \<and> live_tasks (run ops) q' = [j]))"
proof (intro conjI impI)
  show "length (live_tasks (run ops) p) \<le> 1"
    by (rule live_tasks_at_most_one) (rule task_inv_run)
  have "distinct (map fst (update_tasks (run ops)))"
    using task_inv_run [of ops] by (simp add: task_inv_def)
  then show "length (filter (\<lambda>(k, i). k = key) (update_tasks (run ops))) \<le> 1"
    by (rule distinct_keys_filter_length)
  show "(map_of (update_tasks (run ops)) (task_key_of p) = Some i) = (live_tasks (run ops) p = [i])"
    by (rule live_tasks_of_entry) (rule task_inv_run)
next
  assume "h < length (clients (run ops)) \<and> poller_for t c = Some q
        \<and> (t = NEWS_UPDATES \<or> c \<in> set coins)"
  then show "\<exists>j. map_of (update_tasks (run (ops @ [Subscribe h t coins now]))) (task_key_of q) = Some j
           \<and> live_tasks (run (ops @ [Subscribe h t coins now])) q = [j]"
    using poller_after_subscribe [of h ops t c q coins now] by blast
next
  assume "h' \<in> connected (spec_run ops) \<and> (t', c') \<in> feed_keys (spec_run ops) h'
        \<and> poller_for t' c' = Some q' \<and> plain_name t' c'"
  then show "\<exists>j. map_of (update_tasks (run ops)) (task_key_of q') = Some j
           \<and> live_tasks (run ops) q' = [j]"
    using poller_of_subscribed_key [of h' ops t' c' q'] by blast
qed

lemma plain_bitcoin: "plain_name PRICE_UPDATES ''bitcoin''"
  by (simp add: plain_name_def py_replace.simps)

text \<open>
  The witness: A and B subscribe to the price of bitcoin and A unsubscribes; B is connected
  and holds the key, and the price poller of bitcoin is there.
\<close>

theorem one_poller_per_feed_key_witness:
  "0 < length (clients (run [Connect ''A'' 0]))
   \<and> poller_for PRICE_UPDATES ''bitcoin'' = Some (PriceLoop ''bitcoin'')
   \<and> ''bitcoin'' \<in> set [''bitcoin'']
   \<and> length (live_tasks (run [Connect ''A'' 0]) (PriceLoop ''bitcoin'')) \<le> 1
   \<and> (\<exists>j. map_of (update_tasks
              (run ([Connect ''A'' 0] @ [Subscribe 0 PRICE_UPDATES [''bitcoin''] 1])))
            (task_key_of (PriceLoop ''bitcoin'')) = Some j
          \<and> live_tasks (run ([Connect ''A'' 0] @ [Subscribe 0 PRICE_UPDATES [''bitcoin''] 1]))
              (PriceLoop ''bitcoin'') = [j])
   \<and> 1 \<in> connected (spec_run
        [Connect ''A'' 0, Subscribe 0 PRICE_UPDATES [''bitcoin''] 1, Connect ''B'' 2,
         Subscribe 1 PRICE_UPDATES [''bitcoin''] 3, Unsubscribe 0 PRICE_UPDATES 4])
   \<and> (PRICE_UPDATES, ''bitcoin'') \<in> feed_keys (spec_run
        [Connect ''A'' 0, Subscribe 0 PRICE_UPDATES [''bitcoin''] 1, Connect ''B'' 2,
         Subscribe 1 PRICE_UPDATES [''bitcoin''] 3, Unsubscribe 0 PRICE_UPDATES 4]) 1
   \<and> plain_name PRICE_UPDATES ''bitcoin''
   \<and> (\<exists>j. map_of (update_tasks (run
        [Connect ''A'' 0, Subscribe 0 PRICE_UPDATES [''bitcoin''] 1, Connect ''B'' 2,
         Subscribe 1 PRICE_UPDATES [''bitcoin''] 3, Unsubscribe 0 PRICE_UPDATES 4]))
            (task_key_of (PriceLoop ''bitcoin'')) = Some j
          \<and> live_tasks (run
        [Connect ''A'' 0, Subscribe 0 PRICE_UPDATES [''bitcoin''] 1, Connect ''B'' 2,
         Subscribe 1 PRICE_UPDATES [''bitcoin''] 3, Unsubscribe 0 PRICE_UPDATES 4])
              (PriceLoop ''bitcoin'') = [j])"
proof -
  let ?ops = "[Connect ''A'' 0, Subscribe 0 PRICE_UPDATES [''bitcoin''] 1, Connect ''B'' 2,
         Subscribe 1 PRICE_UPDATES [''bitcoin''] 3, Unsubscribe 0 PRICE_UPDATES 4]"
  have l: "0 < length (clients (run [Connect ''A'' 0]))"
    by (simp add: run_def WebSocketManager_init_def connect_def Let_def)
  have p: "poller_for PRICE_UPDATES ''bitcoin'' = Some (PriceLoop ''bitcoin'')"
    and c: "''bitcoin'' \<in> set [''bitcoin'']"
    by simp_all
  have s: "1 \<in> connected (spec_run ?ops)"
    "(PRICE_UPDATES, ''bitcoin'') \<in> feed_keys (spec_run ?ops) 1"
    by (simp_all add: spec_run_def spec_keys_def)
  show ?thesis
    using l p c s plain_bitcoin
      one_poller_per_feed_key [where ops = "[Connect ''A'' 0]" and p = "PriceLoop ''bitcoin''"
        and h = 0 and t = PRICE_UPDATES and c = "''bitcoin''" and q = "PriceLoop ''bitcoin''"
        and coins = "[''bitcoin'']" and now = 1]
      one_poller_per_feed_key [where ops = ?ops and h' = 1 and t' = PRICE_UPDATES
        and c' = "''bitcoin''" and q' = "PriceLoop ''bitcoin''"]
    by blast
qed

text \<open>
  C1 as stated fails: a connected client that has subscribed to the portfolio updates of
  bitcoin holds that feed key, and counts as its subscriber by the test the pollers use, yet
  no poller exists for it: no task has been created and the task map is empty.
\<close>

theorem subscribed_without_poller:
  "0 \<in> connected (spec_run portfolio_watcher_ops)
   \<and> (PORTFOLIO_UPDATES, ''bitcoin'') \<in> feed_keys (spec_run portfolio_watcher_ops) 0
   \<and> has_subscribers (run portfolio_watcher_ops) PORTFOLIO_UPDATES ''bitcoin''
   \<and> update_tasks (run portfolio_watcher_ops) = []
   \<and> tasks (run portfolio_watcher_ops) = []"
  unfolding portfolio_watcher_ops_def
  by (simp add: spec_run_def spec_keys_def run_def WebSocketManager_init_def connect_def
      subscribe_client_def send_personal_message_def send_text_def update_client_def
      start_update_tasks_def Let_def has_subscribers_def client_subscribed_def)

section \<open>A broadcast that reaches a client outside the key\<close>

lemma three_clients_indicators_run:
  "run three_clients_indicators_ops =
     subscribe_client 2 TECHNICAL_INDICATORS [''bitcoin''] 6 three_clients"
proof -
  have "run three_clients_indicators_ops =
      run ([Connect ''A'' 0, Subscribe 0 PRICE_UPDATES [''bitcoin''] 1,
            Connect ''B'' 2, Subscribe 1 PRICE_UPDATES [''bitcoin''] 3,
            Connect ''C'' 4, Subscribe 2 PRICE_UPDATES [''ethereum''] 5]
           @ [Subscribe 2 TECHNICAL_INDICATORS [''bitcoin''] 6])"
    by (simp add: three_clients_indicators_ops_def)
  also have "\<dots> = apply_op (Subscribe 2 TECHNICAL_INDICATORS [''bitcoin''] 6) three_clients"
    unfolding three_clients_def by (rule run_snoc)
  also have "\<dots> = subscribe_client 2 TECHNICAL_INDICATORS [''bitcoin''] 6 three_clients"
    by (simp add: three_clients_value)
  finally show ?thesis .
qed

text \<open>
  C3 as stated fails. A, B and C are connected; A and B have subscribed to the price of
  bitcoin, C to the price of ethereum and to the technical indicators of bitcoin. C is
  connected and has never subscribed to the key (prices, bitcoin): its feed keys are
  (prices, ethereum) and (indicators, bitcoin). Yet the broadcast of a price update for
  bitcoin is sent to C.
\<close>

theorem broadcast_reaches_other_feed_type:
  "2 \<in> connected (spec_run three_clients_indicators_ops)
   \<and> feed_keys (spec_run three_clients_indicators_ops) 2 =
       {(PRICE_UPDATES, ''ethereum''), (TECHNICAL_INDICATORS, ''bitcoin'')}
   \<and> (PRICE_UPDATES, ''bitcoin'') \<notin> feed_keys (spec_run three_clients_indicators_ops) 2
   \<and> ws_sent (websocket (clients
        (broadcast_to_subscribers (Payload ''tick'') PRICE_UPDATES (Some ''bitcoin'')
           (run three_clients_indicators_ops)) ! 2)) =
     ws_sent (websocket (clients (run three_clients_indicators_ops) ! 2)) @ [Payload ''tick'']"
proof -
  have s: "2 \<in> connected (spec_run three_clients_indicators_ops)"
    "feed_keys (spec_run three_clients_indicators_ops) 2 =
       {(PRICE_UPDATES, ''ethereum''), (TECHNICAL_INDICATORS, ''bitcoin'')}"
    by (auto simp add: three_clients_indicators_ops_def spec_run_def spec_keys_def)
  have d: "distinct (active_connections (run three_clients_indicators_ops))"
    and l: "2 < length (clients (run three_clients_indicators_ops))"
    by (simp_all add: three_clients_indicators_run three_clients_value)
  have c: "2 \<in> set (active_connections (run three_clients_indicators_ops))"
    "PRICE_UPDATES \<in> subscriptions (clients (run three_clients_indicators_ops) ! 2)"
    "''bitcoin'' \<in> watched_coins (clients (run three_clients_indicators_ops) ! 2)"
    "ws_open (websocket (clients (run three_clients_indicators_ops) ! 2))"
    by (simp_all add: three_clients_indicators_run three_clients_value subscribe_client_def
        send_personal_message_def send_text_def update_client_def start_update_tasks_def
        start_task_def Let_def)
  show ?thesis
    using s c by (simp add: broadcast_sent [OF d l])
qed

end
